(* ===== verification/Prelude.thy ===== *)
theory Prelude
  imports Complex_Main "HOL-Library.AList" "HOL-Library.List_Lexorder" "HOL-Library.Char_ord"
begin

text \<open>
  Shared vocabulary of the development: how Python values, dictionaries, exceptions and
  JSON documents are represented, and the generic facts about them that the component
  theories use.

  \<^item> A Python \<^verbatim>\<open>dict\<close> is an association list in insertion order. Assignment to a key is
    \<^const>\<open>AList.update\<close> (an existing key keeps its position, a new key goes to the end) and
    \<^verbatim>\<open>pop\<close>/\<^verbatim>\<open>del\<close> is \<^const>\<open>AList.delete\<close>, which is how CPython orders its dictionaries.
  \<^item> A raised exception is the left summand of a result; a value is the right one.
  \<^item> \<^verbatim>\<open>float\<close> is read as the mathematical real line.
  \<^item> \<^verbatim>\<open>str\<close> is \<^typ>\<open>string\<close>, ordered lexicographically by code point as in Python.
\<close>

declare Let_def [simp]
declare map_of_eq_Some_iff [simp del] Some_eq_map_of_iff [simp del]

section \<open>Types\<close>

type_synonym url = string

type_synonym time = real

type_synonym ('k, 'v) dict = "('k \<times> 'v) list"

datatype py_exn =
    ValueError string
  | KeyError string
  | TypeError string
  | AttributeError string
  | IndexError
  | ZeroDivisionError
  | RuntimeError string
  | AssertionError string
  | FileNotFoundError string
  | HTTPException int string
  | SystemExit int

type_synonym 'a result = "py_exn + 'a"

text \<open>JSON documents, as \<^verbatim>\<open>json.loads\<close> returns them.\<close>

datatype json =
    JNull
  | JBool bool
  | JInt int
  | JFloat real
  | JStr string
  | JList "json list"
  | JObj "(string \<times> json) list"

section \<open>Dictionaries\<close>

abbreviation dict_set :: "('k, 'v) dict \<Rightarrow> 'k \<Rightarrow> 'v \<Rightarrow> ('k, 'v) dict" where
  "dict_set d k v \<equiv> AList.update k v d"

abbreviation dict_pop :: "('k, 'v) dict \<Rightarrow> 'k \<Rightarrow> ('k, 'v) dict" where
  "dict_pop d k \<equiv> AList.delete k d"

abbreviation keys :: "('k, 'v) dict \<Rightarrow> 'k list" where
  "keys d \<equiv> map fst d"

text \<open>\<^verbatim>\<open>d.get(k, default)\<close>.\<close>

definition dict_get :: "('k, 'v) dict \<Rightarrow> 'k \<Rightarrow> 'v \<Rightarrow> 'v" where
  "dict_get d k v = (case map_of d k of None \<Rightarrow> v | Some w \<Rightarrow> w)"

text \<open>\<^verbatim>\<open>d.setdefault(k, v)\<close>, for its effect on the dictionary.\<close>

definition dict_setdefault :: "('k, 'v) dict \<Rightarrow> 'k \<Rightarrow> 'v \<Rightarrow> ('k, 'v) dict" where
  "dict_setdefault d k v = (if map_of d k = None then dict_set d k v else d)"

text \<open>The number of entries of a dictionary that satisfy a predicate.\<close>

definition dict_count :: "('k \<Rightarrow> 'v \<Rightarrow> bool) \<Rightarrow> ('k, 'v) dict \<Rightarrow> nat" where
  "dict_count P d = length (filter (\<lambda>(k, v). P k v) d)"

named_theorems dict_simps \<open>lookups after updates of a dictionary\<close>

lemma map_of_dict_set [simp, dict_simps]:
  "map_of (dict_set d k v) k' = (if k' = k then Some v else map_of d k')"
  by (simp add: update_conv)

lemma map_of_dict_pop [simp, dict_simps]:
  "map_of (dict_pop d k) k' = (if k' = k then None else map_of d k')"
  by (simp add: delete_conv)

lemma dict_get_set [simp, dict_simps]:
  "dict_get (dict_set d k v) k' w = (if k' = k then v else dict_get d k' w)"
  by (simp add: dict_get_def)

lemma dict_get_pop [simp, dict_simps]:
  "dict_get (dict_pop d k) k' w = (if k' = k then w else dict_get d k' w)"
  by (simp add: dict_get_def)

lemma dict_get_Nil [simp, dict_simps]: "dict_get [] k w = w"
  by (simp add: dict_get_def)

lemma dict_get_Some [dict_simps]: "map_of d k = Some v \<Longrightarrow> dict_get d k w = v"
  by (simp add: dict_get_def)

lemma map_of_setdefault [simp, dict_simps]:
  "map_of (dict_setdefault d k v) k' =
     (if k' = k \<and> map_of d k = None then Some v else map_of d k')"
  by (simp add: dict_setdefault_def)

lemma dict_get_setdefault_same [simp, dict_simps]:
  "dict_get (dict_setdefault d k v) k' v = dict_get d k' v"
  by (simp add: dict_get_def)

lemma set_keys_set [simp, dict_simps]: "fst ` set (dict_set d k v) = insert k (fst ` set d)"
  by (simp add: dom_update)

lemma set_keys_pop [simp, dict_simps]: "fst ` set (dict_pop d k) = fst ` set d - {k}"
  by (induction d) auto

lemma set_keys_setdefault [simp, dict_simps]:
  "fst ` set (dict_setdefault d k v) = insert k (fst ` set d)"
  by (auto simp: dict_setdefault_def map_of_eq_None_iff)

lemma distinct_keys_set [simp, dict_simps]: "distinct (keys (dict_set d k v)) = distinct (keys d)"
  by (induction d) (auto simp: dom_update)

lemma distinct_keys_pop [dict_simps]: "distinct (keys d) \<Longrightarrow> distinct (keys (dict_pop d k))"
  by (induction d) auto

lemma distinct_keys_setdefault [simp, dict_simps]:
  "distinct (keys (dict_setdefault d k v)) = distinct (keys d)"
  by (simp add: dict_setdefault_def)

lemma dict_set_fresh: "k \<notin> fst ` set d \<Longrightarrow> dict_set d k v = d @ [(k, v)]"
  by (induction d) auto

text \<open>How the count moves under assignment and removal.\<close>

lemma dict_count_Nil [simp]: "dict_count P [] = 0"
  by (simp add: dict_count_def)

lemma dict_count_absent:
  "k \<notin> fst ` set d \<Longrightarrow> dict_count P (dict_set d k v) = dict_count P d + of_bool (P k v)"
  by (simp add: dict_set_fresh dict_count_def)

lemma dict_count_set:
  "distinct (keys d) \<Longrightarrow> map_of d k = Some w \<Longrightarrow>
   dict_count P (dict_set d k v) + of_bool (P k w) = dict_count P d + of_bool (P k v)"
  by (induction d) (auto simp: dict_count_def)

lemma dict_count_pop:
  "distinct (keys d) \<Longrightarrow> map_of d k = Some w \<Longrightarrow>
   dict_count P (dict_pop d k) + of_bool (P k w) = dict_count P d"
proof (induction d)
  case (Cons p d)
  obtain a b where p: "p = (a, b)" by fastforce
  show ?case
  proof (cases "a = k")
    case True
    then have "dict_pop d k = d"
      using Cons.prems p by (auto intro!: delete_idem)
    then show ?thesis using Cons.prems p True by (auto simp: dict_count_def)
  next
    case False
    then show ?thesis using Cons p by (auto simp: dict_count_def)
  qed
qed simp

lemma dict_count_pos:
  "map_of d k = Some v \<Longrightarrow> P k v \<Longrightarrow> 0 < dict_count P d"
  by (auto simp: dict_count_def filter_empty_conv dest: map_of_SomeD)

lemma dict_pop_absent: "map_of d k = None \<Longrightarrow> dict_pop d k = d"
  by (simp add: delete_idem map_of_eq_None_iff)

section \<open>Results\<close>

text \<open>Sequencing of computations that may raise.\<close>

fun result_bind :: "'a result \<Rightarrow> ('a \<Rightarrow> 'b result) \<Rightarrow> 'b result" where
  "result_bind (Inl e) f = Inl e"
| "result_bind (Inr x) f = f x"

lemma result_bind_Inr [simp]: "result_bind r f = Inr y \<longleftrightarrow> (\<exists>x. r = Inr x \<and> f x = Inr y)"
  by (cases r) auto

fun is_ok :: "'a result \<Rightarrow> bool" where
  "is_ok (Inl _) = False"
| "is_ok (Inr _) = True"

lemma is_ok_iff: "is_ok r \<longleftrightarrow> (\<exists>x. r = Inr x)"
  by (cases r) auto

section \<open>Strings\<close>

text \<open>\<^verbatim>\<open>s.split(sep)\<close> for a non-empty separator: the accumulator holds the current piece.\<close>

function split_loop :: "string \<Rightarrow> string \<Rightarrow> string \<Rightarrow> string list" where
  "split_loop sep acc s =
     (if s = [] then [rev acc]
      else if sep \<noteq> [] \<and> take (length sep) s = sep
           then rev acc # split_loop sep [] (drop (length sep) s)
           else split_loop sep (hd s # acc) (tl s))"
  by pat_completeness auto
termination
  by (relation "measure (\<lambda>(sep, acc, s). length s)") auto

declare split_loop.simps [simp del]

definition str_split :: "string \<Rightarrow> string \<Rightarrow> string list" where
  "str_split sep s = split_loop sep [] s"

text \<open>\<^verbatim>\<open>s.startswith(p)\<close>, \<^verbatim>\<open>s.endswith(p)\<close> and \<^verbatim>\<open>p in s\<close>.\<close>

definition startswith :: "string \<Rightarrow> string \<Rightarrow> bool" where
  "startswith s p = (take (length p) s = p)"

definition endswith :: "string \<Rightarrow> string \<Rightarrow> bool" where
  "endswith s p = startswith (rev s) (rev p)"

fun contains_str :: "string \<Rightarrow> string \<Rightarrow> bool" where
  "contains_str [] p = (p = [])"
| "contains_str (c # s) p = (startswith (c # s) p \<or> contains_str s p)"

text \<open>\<^verbatim>\<open>sep.join(parts)\<close>.\<close>

fun str_join :: "string \<Rightarrow> string list \<Rightarrow> string" where
  "str_join sep [] = []"
| "str_join sep [x] = x"
| "str_join sep (x # y # xs) = x @ sep @ str_join sep (y # xs)"

text \<open>\<^verbatim>\<open>str.lower()\<close> on ASCII letters.\<close>

definition lower_char :: "char \<Rightarrow> char" where
  "lower_char c = (let n = (of_char c :: nat) in
     if 65 \<le> n \<and> n \<le> 90 then char_of (n + 32) else c)"

definition str_lower :: "string \<Rightarrow> string" where
  "str_lower s = map lower_char s"

text \<open>\<^verbatim>\<open>str.strip()\<close>: ASCII white space at both ends.\<close>

definition is_space :: "char \<Rightarrow> bool" where
  "is_space c = (let n = (of_char c :: nat) in n = 32 \<or> (9 \<le> n \<and> n \<le> 13) \<or> (28 \<le> n \<and> n \<le> 31))"

definition str_strip :: "string \<Rightarrow> string" where
  "str_strip s = rev (dropWhile is_space (rev (dropWhile is_space s)))"

text \<open>\<^verbatim>\<open>str(n)\<close> in decimal.\<close>

definition digit_char :: "nat \<Rightarrow> char" where
  "digit_char d = char_of (48 + d)"

fun str_of_nat :: "nat \<Rightarrow> string" where
  "str_of_nat n = (if n < 10 then [digit_char n] else str_of_nat (n div 10) @ [digit_char (n mod 10)])"

declare str_of_nat.simps [simp del]

definition str_of_int :: "int \<Rightarrow> string" where
  "str_of_int i = (if i < 0 then CHR ''-'' # str_of_nat (nat (- i)) else str_of_nat (nat i))"

text \<open>Joining the pieces of a split gives the string back.\<close>

lemma split_loop_not_Nil: "split_loop sep acc s \<noteq> []"
  by (induction sep acc s rule: split_loop.induct) (simp add: split_loop.simps)

lemma str_join_Cons: "xs \<noteq> [] \<Longrightarrow> str_join sep (x # xs) = x @ sep @ str_join sep xs"
  by (cases xs) auto

lemma str_join_split_loop: "str_join sep (split_loop sep acc s) = rev acc @ s"
proof (induction sep acc s rule: split_loop.induct)
  case (1 sep acc s)
  show ?case
  proof (cases "s = []")
    case False
    show ?thesis
    proof (cases "sep \<noteq> [] \<and> take (length sep) s = sep")
      case True
      have "sep @ drop (length sep) s = s" using True by (metis append_take_drop_id)
      then show ?thesis
        using 1(1) [OF False True] False True
        by (simp add: split_loop.simps [of sep acc s] str_join_Cons split_loop_not_Nil)
    next
      case no: False
      then show ?thesis
        using 1(2) [OF False no] False by (auto simp: split_loop.simps [of sep acc s])
    qed
  qed (simp add: split_loop.simps)
qed

lemma str_join_split: "str_join sep (str_split sep s) = s"
  by (simp add: str_split_def str_join_split_loop)

text \<open>Splitting on one character: a string without it is one piece, and splitting inverts joining.\<close>

lemma split_loop_absent: "c \<notin> set s \<Longrightarrow> split_loop [c] acc s = [rev acc @ s]"
  by (induction s arbitrary: acc) (auto simp: split_loop.simps)

lemma split_loop_at: "c \<notin> set s \<Longrightarrow> split_loop [c] acc (s @ c # t) = (rev acc @ s) # split_loop [c] [] t"
  by (induction s arbitrary: acc) (auto simp: split_loop.simps)

lemma str_split_absent: "c \<notin> set s \<Longrightarrow> str_split [c] s = [s]"
  by (simp add: str_split_def split_loop_absent)

lemma str_split_at: "c \<notin> set s \<Longrightarrow> str_split [c] (s @ c # t) = s # str_split [c] t"
  by (simp add: str_split_def split_loop_at)

lemma str_split_join:
  "xs \<noteq> [] \<Longrightarrow> \<forall>x \<in> set xs. c \<notin> set x \<Longrightarrow> str_split [c] (str_join [c] xs) = xs"
proof (induction "[c]" xs rule: str_join.induct)
  case (3 x y xs)
  then show ?case by (simp add: str_split_at)
qed (simp_all add: str_split_absent)

lemma split_loop_char_Cons:
  "split_loop [c] acc (d # s) =
     (if d = c then rev acc # split_loop [c] [] s else split_loop [c] (d # acc) s)"
  by (subst split_loop.simps) auto

lemma split_loop_pieces: "c \<notin> set acc \<Longrightarrow> x \<in> set (split_loop [c] acc s) \<Longrightarrow> c \<notin> set x"
proof (induction s arbitrary: acc)
  case Nil
  then show ?case by (auto simp: split_loop.simps)
next
  case (Cons d s)
  show ?case
  proof (cases "d = c")
    case True
    then show ?thesis using Cons.IH [of "[]"] Cons.prems by (auto simp: split_loop_char_Cons)
  next
    case False
    then show ?thesis using Cons.IH [of "d # acc"] Cons.prems by (auto simp: split_loop_char_Cons)
  qed
qed

lemma str_split_pieces: "x \<in> set (str_split [c] s) \<Longrightarrow> c \<notin> set x"
  by (auto simp: str_split_def dest: split_loop_pieces [rotated])

text \<open>Decimal digits.\<close>

lemma of_char_digit_char: "d < 10 \<Longrightarrow> (of_char (digit_char d) :: nat) = 48 + d"
  by (simp add: digit_char_def)

lemma str_of_nat_not_Nil: "str_of_nat n \<noteq> []"
  by (subst str_of_nat.simps) simp

lemma str_of_nat_digits: "c \<in> set (str_of_nat n) \<Longrightarrow> \<exists>d < 10. c = digit_char d"
proof (induction n rule: str_of_nat.induct)
  case (1 n)
  then show ?case
    by (cases "n < 10") (auto simp: str_of_nat.simps [of n] intro: exI [of _ "n mod 10"])
qed

end
