(* ===== verification/Endpoints.thy ===== *)
theory Endpoints
  imports Prelude
begin

text \<open>
  Serving endpoints and the models they offer: \<^verbatim>\<open>ModelInfo\<close> and \<^verbatim>\<open>EndpointInfo\<close> of
  \<^verbatim>\<open>src/src/vllm_router/service_discovery.py\<close>. Values that come from an engine's JSON answer
  keep their JSON type.
\<close>

section \<open>Truthiness\<close>

text \<open>\<^verbatim>\<open>bool(x)\<close> of a JSON value.\<close>

fun py_truthy :: "json \<Rightarrow> bool" where
  "py_truthy JNull = False"
| "py_truthy (JBool b) = b"
| "py_truthy (JInt i) = (i \<noteq> 0)"
| "py_truthy (JFloat r) = (r \<noteq> 0)"
| "py_truthy (JStr s) = (s \<noteq> [])"
| "py_truthy (JList l) = (l \<noteq> [])"
| "py_truthy (JObj d) = (d \<noteq> [])"

section \<open>Models\<close>

record ModelInfo =
  mi_id :: json
  mi_object :: json
  mi_created :: json
  mi_owned_by :: json
  mi_root :: json
  mi_parent :: json
  mi_is_adapter :: bool
  mi_extra_fields :: "(string, json) dict option"

definition MODEL_INFO_KNOWN_FIELDS :: "string list" where
  "MODEL_INFO_KNOWN_FIELDS = [''id'', ''object'', ''created'', ''owned_by'', ''root'', ''parent'']"

text \<open>\<^verbatim>\<open>int(time.time())\<close> is the argument \<open>now\<close>.\<close>

definition model_info_from_dict :: "int \<Rightarrow> (string, json) dict \<Rightarrow> ModelInfo" where
  "model_info_from_dict now data =
     \<lparr>mi_id = dict_get data ''id'' JNull,
      mi_object = dict_get data ''object'' (JStr ''model''),
      mi_created = dict_get data ''created'' (JInt now),
      mi_owned_by = dict_get data ''owned_by'' (JStr ''vllm''),
      mi_root = dict_get data ''root'' JNull,
      mi_parent = dict_get data ''parent'' JNull,
      mi_is_adapter = (dict_get data ''parent'' JNull \<noteq> JNull),
      mi_extra_fields = Some (filter (\<lambda>(k, v). k \<notin> set MODEL_INFO_KNOWN_FIELDS) data)\<rparr>"

text \<open>\<^verbatim>\<open>d.update(e)\<close>: assignment key by key.\<close>

definition dict_update_all :: "('k, 'v) dict \<Rightarrow> ('k, 'v) dict \<Rightarrow> ('k, 'v) dict" where
  "dict_update_all d e = fold (\<lambda>(k, v) d. dict_set d k v) e d"

definition model_info_to_dict :: "ModelInfo \<Rightarrow> (string, json) dict" where
  "model_info_to_dict m =
     (let data = [(''id'', mi_id m), (''object'', mi_object m), (''created'', mi_created m),
                  (''owned_by'', mi_owned_by m), (''root'', mi_root m), (''parent'', mi_parent m)]
      in case mi_extra_fields m of
           None \<Rightarrow> data
         | Some e \<Rightarrow> if e \<noteq> [] then dict_update_all data e else data)"

section \<open>Endpoints\<close>

record EndpointInfo =
  ep_url :: url
  model_names :: "string list"
  ep_Id :: string
  added_timestamp :: real
  model_label :: "string option"
  sleep :: bool
  healthy :: bool
  pod_name :: "string option"
  service_name :: "string option"
  ep_namespace :: "string option"
  model_info :: "(string, ModelInfo) dict option"

text \<open>The entries of the model table; a missing or empty table gives none.\<close>

definition model_entries :: "EndpointInfo \<Rightarrow> (string, ModelInfo) dict" where
  "model_entries e = (case model_info e of None \<Rightarrow> [] | Some d \<Rightarrow> d)"

definition get_base_models :: "EndpointInfo \<Rightarrow> string list" where
  "get_base_models e = [k. (k, info) \<leftarrow> model_entries e, \<not> py_truthy (mi_parent info)]"

definition get_adapters :: "EndpointInfo \<Rightarrow> string list" where
  "get_adapters e = [k. (k, info) \<leftarrow> model_entries e, py_truthy (mi_parent info)]"

definition get_adapters_for_model :: "EndpointInfo \<Rightarrow> string \<Rightarrow> string list" where
  "get_adapters_for_model e base =
     [k. (k, info) \<leftarrow> model_entries e, mi_parent info = JStr base]"

definition has_model :: "EndpointInfo \<Rightarrow> string \<Rightarrow> bool" where
  "has_model e m = (m \<in> set (model_names e))"

definition get_model_info :: "EndpointInfo \<Rightarrow> string \<Rightarrow> ModelInfo option" where
  "get_model_info e m = map_of (model_entries e) m"

section \<open>Facts\<close>

lemma dict_update_all_Nil [simp]: "dict_update_all d [] = d"
  by (simp add: dict_update_all_def)

lemma dict_update_all_Cons [simp]:
  "dict_update_all d ((k, v) # e) = dict_update_all (dict_set d k v) e"
  by (simp add: dict_update_all_def)

lemma dict_update_all_fresh:
  "distinct (keys e) \<Longrightarrow> fst ` set d \<inter> fst ` set e = {} \<Longrightarrow> dict_update_all d e = d @ e"
proof (induction e arbitrary: d)
  case (Cons p e)
  obtain k v where p: "p = (k, v)" by fastforce
  have "dict_update_all (dict_set d k v) e = dict_set d k v @ e"
    using Cons.prems p by (intro Cons.IH) auto
  then show ?case using Cons.prems p by (auto simp: dict_set_fresh)
qed simp

lemma map_of_filter_in: "P k \<Longrightarrow> map_of (filter (\<lambda>(k, v). P k) d) k = map_of d k"
  by (induction d) auto

text \<open>Model records as the parser builds them.\<close>

definition model_info_ok :: "ModelInfo \<Rightarrow> bool" where
  "model_info_ok m \<longleftrightarrow> mi_is_adapter m = (mi_parent m \<noteq> JNull) \<and>
     (\<exists>e. mi_extra_fields m = Some e \<and> distinct (keys e) \<and>
          fst ` set e \<inter> set MODEL_INFO_KNOWN_FIELDS = {})"

lemma distinct_keys_filter: "distinct (keys d) \<Longrightarrow> distinct (keys (filter P d))"
  by (induction d) auto

lemma model_info_from_dict_ok:
  "distinct (keys d) \<Longrightarrow> model_info_ok (model_info_from_dict now d)"
  by (auto simp: model_info_ok_def model_info_from_dict_def distinct_keys_filter)

lemma to_dict_append:
  assumes "model_info_ok m" "mi_extra_fields m = Some e"
  shows "model_info_to_dict m =
    [(''id'', mi_id m), (''object'', mi_object m), (''created'', mi_created m),
     (''owned_by'', mi_owned_by m), (''root'', mi_root m), (''parent'', mi_parent m)] @ e"
proof -
  let ?d = "[(''id'', mi_id m), (''object'', mi_object m), (''created'', mi_created m),
     (''owned_by'', mi_owned_by m), (''root'', mi_root m), (''parent'', mi_parent m)]"
  have "dict_update_all ?d e = ?d @ e"
    using assms by (intro dict_update_all_fresh) (auto simp: model_info_ok_def MODEL_INFO_KNOWN_FIELDS_def)
  then show ?thesis using assms by (auto simp: model_info_to_dict_def)
qed

lemma known_field_iff:
  "k \<in> set MODEL_INFO_KNOWN_FIELDS \<longleftrightarrow> k = ''id'' \<or> k = ''object'' \<or> k = ''created'' \<or>
     k = ''owned_by'' \<or> k = ''root'' \<or> k = ''parent''"
  by (simp add: MODEL_INFO_KNOWN_FIELDS_def)

lemma map_of_to_dict_other:
  "k \<notin> set MODEL_INFO_KNOWN_FIELDS \<Longrightarrow>
   map_of ([(''id'', a), (''object'', b), (''created'', c), (''owned_by'', d), (''root'', f),
     (''parent'', g)] @ e) k = map_of e k"
  by (simp add: known_field_iff)

lemma model_info_roundtrip:
  assumes "model_info_ok m"
  shows "model_info_from_dict now (model_info_to_dict m) = m"
proof -
  obtain e where e: "mi_extra_fields m = Some e" "fst ` set e \<inter> set MODEL_INFO_KNOWN_FIELDS = {}"
    "mi_is_adapter m = (mi_parent m \<noteq> JNull)"
    using assms by (auto simp: model_info_ok_def)
  have "filter (\<lambda>(k, v). k \<notin> set MODEL_INFO_KNOWN_FIELDS) e = e"
    using e(2) by (auto simp: filter_id_conv)
  then show ?thesis
    using e by (simp add: to_dict_append [OF assms e(1)] model_info_from_dict_def dict_get_def
        MODEL_INFO_KNOWN_FIELDS_def)
qed

section \<open>Properties\<close>

text \<open>Serialising a model record and parsing it again gives the record back, with its adapter flag
  and all fields the router does not know; so republishing an engine's answer to \<^verbatim>\<open>/v1/models\<close>
  loses nothing, whatever the clock reads at the second parse.\<close>

theorem model_info_republish:
  assumes "distinct (keys d)"
  shows "model_info_from_dict now' (model_info_to_dict (model_info_from_dict now d)) =
           model_info_from_dict now d \<and>
         (\<forall>k v. map_of d k = Some v \<longrightarrow>
            map_of (model_info_to_dict (model_info_from_dict now d)) k = Some v)"
proof -
  let ?m = "model_info_from_dict now d"
  have ok: "model_info_ok ?m" using assms by (rule model_info_from_dict_ok)
  have e: "mi_extra_fields ?m = Some (filter (\<lambda>(k, v). k \<notin> set MODEL_INFO_KNOWN_FIELDS) d)"
    by (simp add: model_info_from_dict_def)
  have ex: "k \<notin> set MODEL_INFO_KNOWN_FIELDS \<Longrightarrow>
      map_of (filter (\<lambda>(k, v). k \<notin> set MODEL_INFO_KNOWN_FIELDS) d) k = map_of d k" for k
    by (rule map_of_filter_in)
  have keep: "map_of (model_info_to_dict ?m) k = Some v" if v: "map_of d k = Some v" for k v
  proof (cases "k \<in> set MODEL_INFO_KNOWN_FIELDS")
    case True
    then show ?thesis
      using v unfolding to_dict_append [OF ok e] known_field_iff
      by (elim disjE) (simp_all add: model_info_from_dict_def dict_get_Some)
  next
    case False
    then show ?thesis
      unfolding to_dict_append [OF ok e] map_of_to_dict_other [OF False]
      using ex [OF False] v by simp
  qed
  show ?thesis
    by (intro conjI allI impI model_info_roundtrip [OF ok]) (rule keep)
qed

theorem model_info_republish_witness:
  "map_of (model_info_to_dict (model_info_from_dict 7
     [(''id'', JStr ''m''), (''max_model_len'', JInt 4096), (''parent'', JStr ''base'')]))
     ''max_model_len'' = Some (JInt 4096)"
  using model_info_republish [of "[(''id'', JStr ''m''), (''max_model_len'', JInt 4096),
    (''parent'', JStr ''base'')]" 9 7] by simp

end
