(* ===== verification/Request_Stats.thy ===== *)
theory Request_Stats
  imports Prelude
begin

text \<open>
  The request statistics monitor, \<^verbatim>\<open>src/src/vllm_router/stats/request_stats.py\<close>: the sliding
  window average, the per-attempt lifecycle records with their per-engine stage counters,
  and the snapshot that routers read. The invariant ties every counter to the live records.
\<close>

section \<open>Sliding windows\<close>

text \<open>The two deques of \<^verbatim>\<open>MovingAverageMonitor\<close>; they are appended to and popped together.\<close>

record MovingAverageMonitor =
  mam_window :: real
  mam_timestamps :: "time list"
  mam_values :: "real list"

definition mam_init :: "real \<Rightarrow> MovingAverageMonitor" where
  "mam_init w = \<lparr>mam_window = w, mam_timestamps = [], mam_values = []\<rparr>"

text \<open>The loop that pops both deques while the oldest timestamp is before the cutoff.\<close>

fun popleft_old :: "time \<Rightarrow> time list \<Rightarrow> real list \<Rightarrow> time list \<times> real list" where
  "popleft_old c (t # ts) (v # vs) =
     (if t < c then popleft_old c ts vs else (t # ts, v # vs))"
| "popleft_old c ts vs = (ts, vs)"

definition mam_update_no_value :: "MovingAverageMonitor \<Rightarrow> time \<Rightarrow> MovingAverageMonitor" where
  "mam_update_no_value m t =
     (let (ts, vs) = popleft_old (t - mam_window m) (mam_timestamps m) (mam_values m)
      in m\<lparr>mam_timestamps := ts, mam_values := vs\<rparr>)"

definition mam_update :: "MovingAverageMonitor \<Rightarrow> time \<Rightarrow> real \<Rightarrow> MovingAverageMonitor" where
  "mam_update m t v =
     (let ts = mam_timestamps m @ [t]; vs = mam_values m @ [v];
          (ts', vs') = popleft_old (t - mam_window m) ts vs
      in m\<lparr>mam_timestamps := ts', mam_values := vs'\<rparr>)"

definition mam_get_sum :: "MovingAverageMonitor \<Rightarrow> real" where
  "mam_get_sum m = sum_list (mam_values m)"

definition mam_get_average :: "MovingAverageMonitor \<Rightarrow> real" where
  "mam_get_average m =
     (if mam_values m \<noteq> [] then sum_list (mam_values m) / real (length (mam_values m)) else -1)"

section \<open>Lifecycle records\<close>

datatype stage = Prefill | Decoding

datatype RequestHandle = RequestHandle (handle_value: nat)

instantiation RequestHandle :: linorder
begin

definition less_eq_RequestHandle :: "RequestHandle \<Rightarrow> RequestHandle \<Rightarrow> bool" where
  "less_eq_RequestHandle a b = (handle_value a \<le> handle_value b)"

definition less_RequestHandle :: "RequestHandle \<Rightarrow> RequestHandle \<Rightarrow> bool" where
  "less_RequestHandle a b = (handle_value a < handle_value b)"

instance
  by standard (auto simp: less_eq_RequestHandle_def less_RequestHandle_def
      intro: RequestHandle.expand)

end

record ActiveRequest =
  ar_stage :: stage
  ar_engine_url :: url
  ar_request_id :: string
  ar_start_time :: time
  ar_first_token_time :: "time option"

record RequestStats =
  st_qps :: real
  st_ttft :: real
  st_in_prefill_requests :: int
  st_in_decoding_requests :: int
  st_finished_requests :: int
  st_uptime :: real
  st_avg_decoding_length :: real
  st_avg_latency :: real
  st_avg_itl :: real
  st_num_swapped_requests :: int

record RequestStatsMonitor =
  sliding_window_size :: real
  next_handle :: nat
  active_requests :: "(RequestHandle, ActiveRequest) dict"
  qps_monitors :: "(url, MovingAverageMonitor) dict"
  ttft_monitors :: "(url, MovingAverageMonitor) dict"
  request_start_time :: "(RequestHandle, time) dict"
  first_token_times :: "(RequestHandle, time) dict"
  in_prefill_requests :: "(url, int) dict"
  in_decoding_requests :: "(url, int) dict"
  finished_requests :: "(url, int) dict"
  latency_monitors :: "(url, MovingAverageMonitor) dict"
  decoding_length_monitors :: "(url, MovingAverageMonitor) dict"
  swapped_requests :: "(url, int) dict"
  first_query_time :: "time option"

definition rsm_init :: "real option \<Rightarrow> RequestStatsMonitor result" where
  "rsm_init w = (case w of
     None \<Rightarrow> Inl (ValueError ''RequestStatsMonitor must be initialized with sliding_window_size'')
   | Some w \<Rightarrow> Inr
      \<lparr>sliding_window_size = w, next_handle = 0, active_requests = [], qps_monitors = [],
       ttft_monitors = [], request_start_time = [], first_token_times = [],
       in_prefill_requests = [], in_decoding_requests = [], finished_requests = [],
       latency_monitors = [], decoding_length_monitors = [], swapped_requests = [],
       first_query_time = None\<rparr>)"

text \<open>\<^verbatim>\<open>d.setdefault(k, 0); d[k] += i\<close>.\<close>

definition counter_add :: "(url, int) dict \<Rightarrow> url \<Rightarrow> int \<Rightarrow> (url, int) dict" where
  "counter_add d u i = dict_set (dict_setdefault d u 0) u (dict_get d u 0 + i)"

text \<open>Create the engine's monitor when it is missing, then record a sample in it.\<close>

definition monitor_touch ::
  "real \<Rightarrow> (url, MovingAverageMonitor) dict \<Rightarrow> url \<Rightarrow> (url, MovingAverageMonitor) dict" where
  "monitor_touch w d u = dict_setdefault d u (mam_init w)"

definition monitor_record ::
  "real \<Rightarrow> (url, MovingAverageMonitor) dict \<Rightarrow> url \<Rightarrow> time \<Rightarrow> real
     \<Rightarrow> (url, MovingAverageMonitor) dict" where
  "monitor_record w d u t v =
     dict_set (monitor_touch w d u) u (mam_update (dict_get d u (mam_init w)) t v)"

definition on_new_request ::
  "RequestStatsMonitor \<Rightarrow> url \<Rightarrow> string \<Rightarrow> time \<Rightarrow> RequestHandle \<times> RequestStatsMonitor" where
  "on_new_request m u rid t =
     (let h = RequestHandle (next_handle m); w = sliding_window_size m in
      (h, m\<lparr>next_handle := next_handle m + 1,
            active_requests := dict_set (active_requests m) h
              \<lparr>ar_stage = Prefill, ar_engine_url = u, ar_request_id = rid,
               ar_start_time = t, ar_first_token_time = None\<rparr>,
            request_start_time := dict_set (request_start_time m) h t,
            in_prefill_requests := counter_add (in_prefill_requests m) u 1,
            qps_monitors := monitor_record w (qps_monitors m) u t 1,
            latency_monitors := monitor_touch w (latency_monitors m) u,
            first_query_time := (case first_query_time m of None \<Rightarrow> Some t | Some t' \<Rightarrow> Some t')\<rparr>))"

definition on_request_response ::
  "RequestStatsMonitor \<Rightarrow> RequestHandle \<Rightarrow> time \<Rightarrow> RequestStatsMonitor" where
  "on_request_response m h t = (case map_of (active_requests m) h of
     None \<Rightarrow> m
   | Some r \<Rightarrow>
       if ar_stage r \<noteq> Prefill then m
       else let u = ar_engine_url r in
         if dict_get (in_prefill_requests m) u 0 \<le> 0 then m
         else m\<lparr>active_requests := dict_set (active_requests m) h
                  (r\<lparr>ar_stage := Decoding, ar_first_token_time := Some t\<rparr>),
                first_token_times := dict_set (first_token_times m) h t,
                in_prefill_requests := counter_add (in_prefill_requests m) u (-1),
                in_decoding_requests := counter_add (in_decoding_requests m) u 1,
                ttft_monitors := monitor_record (sliding_window_size m) (ttft_monitors m) u t
                  (t - ar_start_time r)\<rparr>)"

text \<open>
  \<^verbatim>\<open>_finalize_request\<close>. The last statement indexes \<^verbatim>\<open>latency_monitors\<close> and would raise
  \<^verbatim>\<open>KeyError\<close> on an engine without a monitor; the result component records that.
\<close>

definition retire_stage :: "RequestStatsMonitor \<Rightarrow> ActiveRequest \<Rightarrow> RequestStatsMonitor" where
  "retire_stage m r = (let u = ar_engine_url r in case ar_stage r of
     Prefill \<Rightarrow>
       if dict_get (in_prefill_requests m) u 0 \<le> 0 then m
       else m\<lparr>in_prefill_requests := counter_add (in_prefill_requests m) u (-1)\<rparr>
   | Decoding \<Rightarrow>
       if dict_get (in_decoding_requests m) u 0 \<le> 0 then m
       else m\<lparr>in_decoding_requests := counter_add (in_decoding_requests m) u (-1)\<rparr>)"

definition finalize_request ::
  "RequestStatsMonitor \<Rightarrow> RequestHandle \<Rightarrow> time \<Rightarrow> bool \<Rightarrow> unit result \<times> RequestStatsMonitor" where
  "finalize_request m h t completed = (case map_of (active_requests m) h of
     None \<Rightarrow> (Inr (), m)
   | Some r \<Rightarrow>
       let u = ar_engine_url r;
           m1 = retire_stage
                  (m\<lparr>active_requests := dict_pop (active_requests m) h,
                     request_start_time := dict_pop (request_start_time m) h,
                     first_token_times := dict_pop (first_token_times m) h\<rparr>) r
       in if \<not> completed then (Inr (), m1)
          else let m2 = m1\<lparr>finished_requests := counter_add (finished_requests m1) u 1\<rparr>
               in case map_of (latency_monitors m2) u of
                    None \<Rightarrow> (Inl (KeyError u), m2)
                  | Some lm \<Rightarrow> (Inr (), m2\<lparr>latency_monitors :=
                      dict_set (latency_monitors m2) u (mam_update lm t (t - ar_start_time r))\<rparr>))"

definition on_request_complete ::
  "RequestStatsMonitor \<Rightarrow> RequestHandle \<Rightarrow> time \<Rightarrow> unit result \<times> RequestStatsMonitor" where
  "on_request_complete m h t = finalize_request m h t True"

definition on_request_fail ::
  "RequestStatsMonitor \<Rightarrow> RequestHandle \<Rightarrow> time \<Rightarrow> unit result \<times> RequestStatsMonitor" where
  "on_request_fail m h t = finalize_request m h t False"

definition on_request_abort ::
  "RequestStatsMonitor \<Rightarrow> RequestHandle \<Rightarrow> time \<Rightarrow> unit result \<times> RequestStatsMonitor" where
  "on_request_abort m h t = finalize_request m h t False"

definition on_request_swapped :: "RequestStatsMonitor \<Rightarrow> url \<Rightarrow> RequestStatsMonitor" where
  "on_request_swapped m u = m\<lparr>swapped_requests := counter_add (swapped_requests m) u 1\<rparr>"

section \<open>Snapshots\<close>

text \<open>
  One iteration of the loop of \<^verbatim>\<open>_get_request_stats_locked\<close>. Reading the rate and the
  time-to-first-token prunes their windows; a zero window raises \<^verbatim>\<open>ZeroDivisionError\<close>.
\<close>

definition prune_at ::
  "(url, MovingAverageMonitor) dict \<Rightarrow> url \<Rightarrow> time \<Rightarrow> (url, MovingAverageMonitor) dict" where
  "prune_at d u t = (case map_of d u of
     None \<Rightarrow> d | Some mm \<Rightarrow> dict_set d u (mam_update_no_value mm t))"

definition avg_at :: "(url, MovingAverageMonitor) dict \<Rightarrow> url \<Rightarrow> real" where
  "avg_at d u = (case map_of d u of None \<Rightarrow> -1 | Some mm \<Rightarrow> mam_get_average mm)"

definition uptime_at :: "RequestStatsMonitor \<Rightarrow> time \<Rightarrow> real" where
  "uptime_at m now = (case first_query_time m of
     None \<Rightarrow> 0 | Some t \<Rightarrow> if t = 0 then 0 else now - t)"

definition stats_of_url ::
  "RequestStatsMonitor \<Rightarrow> time \<Rightarrow> url \<Rightarrow> RequestStats result \<times> RequestStatsMonitor" where
  "stats_of_url m now u =
     (let m1 = m\<lparr>qps_monitors := prune_at (qps_monitors m) u now\<rparr> in
      if map_of (qps_monitors m) u \<noteq> None \<and> sliding_window_size m = 0
      then (Inl ZeroDivisionError, m1)
      else
        let qps = (case map_of (qps_monitors m1) u of
                     None \<Rightarrow> -1 | Some mm \<Rightarrow> mam_get_sum mm / sliding_window_size m);
            m2 = m1\<lparr>ttft_monitors := prune_at (ttft_monitors m1) u now\<rparr>
        in (Inr \<lparr>st_qps = qps,
                 st_ttft = avg_at (ttft_monitors m2) u,
                 st_in_prefill_requests = dict_get (in_prefill_requests m2) u 0,
                 st_in_decoding_requests = dict_get (in_decoding_requests m2) u 0,
                 st_finished_requests = dict_get (finished_requests m2) u 0,
                 st_uptime = uptime_at m2 now,
                 st_avg_decoding_length = avg_at (decoding_length_monitors m2) u,
                 st_avg_latency = avg_at (latency_monitors m2) u,
                 st_avg_itl = -1,
                 st_num_swapped_requests = dict_get (swapped_requests m2) u 0\<rparr>, m2))"

fun stats_loop ::
  "RequestStatsMonitor \<Rightarrow> time \<Rightarrow> url list \<Rightarrow> (url, RequestStats) dict
     \<Rightarrow> (url, RequestStats) dict result \<times> RequestStatsMonitor" where
  "stats_loop m now [] ret = (Inr ret, m)"
| "stats_loop m now (u # us) ret = (case stats_of_url m now u of
     (Inl e, m') \<Rightarrow> (Inl e, m')
   | (Inr s, m') \<Rightarrow> stats_loop m' now us (dict_set ret u s))"

text \<open>The set of engine URLs is enumerated in order of first appearance.\<close>

definition get_request_stats ::
  "RequestStatsMonitor \<Rightarrow> time \<Rightarrow> (url, RequestStats) dict result \<times> RequestStatsMonitor" where
  "get_request_stats m now =
     stats_loop m now
       (remdups (keys (in_prefill_requests m) @ keys (in_decoding_requests m))) []"

section \<open>Events and reachable states\<close>

text \<open>One event per entry point of the monitor; the lock makes each of them atomic.\<close>

datatype rs_event =
    NewRequest url string time
  | ResponseToken RequestHandle time
  | Complete RequestHandle time
  | Fail RequestHandle time
  | Abort RequestHandle time
  | Swapped url time
  | Snapshot time

fun event_time :: "rs_event \<Rightarrow> time" where
  "event_time (NewRequest _ _ t) = t"
| "event_time (ResponseToken _ t) = t"
| "event_time (Complete _ t) = t"
| "event_time (Fail _ t) = t"
| "event_time (Abort _ t) = t"
| "event_time (Swapped _ t) = t"
| "event_time (Snapshot t) = t"

fun rs_exec :: "rs_event \<Rightarrow> RequestStatsMonitor \<Rightarrow> RequestStatsMonitor" where
  "rs_exec (NewRequest u rid t) m = snd (on_new_request m u rid t)"
| "rs_exec (ResponseToken h t) m = on_request_response m h t"
| "rs_exec (Complete h t) m = snd (on_request_complete m h t)"
| "rs_exec (Fail h t) m = snd (on_request_fail m h t)"
| "rs_exec (Abort h t) m = snd (on_request_abort m h t)"
| "rs_exec (Swapped u t) m = on_request_swapped m u"
| "rs_exec (Snapshot t) m = snd (get_request_stats m t)"

definition rs_run :: "rs_event list \<Rightarrow> RequestStatsMonitor \<Rightarrow> RequestStatsMonitor" where
  "rs_run evs m = fold rs_exec evs m"

definition rsm_start :: "real \<Rightarrow> RequestStatsMonitor" where
  "rsm_start w = projr (rsm_init (Some w))"

inductive rs_reachable :: "real \<Rightarrow> RequestStatsMonitor \<Rightarrow> bool" for w where
  start: "rs_reachable w (rsm_start w)"
| step: "rs_reachable w m \<Longrightarrow> rs_reachable w (rs_exec e m)"

text \<open>The live records of one engine in one stage.\<close>

definition in_flight :: "(RequestHandle, ActiveRequest) dict \<Rightarrow> stage \<Rightarrow> url \<Rightarrow> nat" where
  "in_flight d s u = dict_count (\<lambda>h r. ar_stage r = s \<and> ar_engine_url r = u) d"

text \<open>
  The monitor's invariant: handles are below the next one, both stage counters count live
  records, the per-handle indexes have the keys they should, and every engine with a live
  record has a latency monitor.
\<close>

definition rsm_inv :: "RequestStatsMonitor \<Rightarrow> bool" where
  "rsm_inv m \<longleftrightarrow>
     distinct (keys (active_requests m)) \<and>
     (\<forall>h r. map_of (active_requests m) h = Some r \<longrightarrow>
        handle_value h < next_handle m \<and> map_of (latency_monitors m) (ar_engine_url r) \<noteq> None) \<and>
     (\<forall>u. dict_get (in_prefill_requests m) u 0 = int (in_flight (active_requests m) Prefill u)) \<and>
     (\<forall>u. dict_get (in_decoding_requests m) u 0 = int (in_flight (active_requests m) Decoding u)) \<and>
     (\<forall>h. map_of (request_start_time m) h =
        map_option ar_start_time (map_of (active_requests m) h)) \<and>
     (\<forall>h. map_of (first_token_times m) h =
        Option.bind (map_of (active_requests m) h) ar_first_token_time) \<and>
     (\<forall>h r. map_of (active_requests m) h = Some r \<longrightarrow>
        (ar_stage r = Decoding \<longleftrightarrow> ar_first_token_time r \<noteq> None)) \<and>
     decoding_length_monitors m = []"

text \<open>
  Ghost quantities of a run: the arrival times of an engine, and the number of failures and
  aborts that retired one of its live records.
\<close>

fun arrival_times :: "url \<Rightarrow> rs_event list \<Rightarrow> time list" where
  "arrival_times u [] = []"
| "arrival_times u (NewRequest v rid t # es) =
     (if v = u then t # arrival_times u es else arrival_times u es)"
| "arrival_times u (_ # es) = arrival_times u es"

definition live_on :: "RequestStatsMonitor \<Rightarrow> RequestHandle \<Rightarrow> url \<Rightarrow> bool" where
  "live_on m h u = (case map_of (active_requests m) h of
     None \<Rightarrow> False | Some r \<Rightarrow> ar_engine_url r = u)"

fun unsuccessful :: "RequestStatsMonitor \<Rightarrow> rs_event list \<Rightarrow> url \<Rightarrow> nat" where
  "unsuccessful m [] u = 0"
| "unsuccessful m (e # es) u =
     (case e of
        Fail h t \<Rightarrow> of_bool (live_on m h u)
      | Abort h t \<Rightarrow> of_bool (live_on m h u)
      | _ \<Rightarrow> 0) + unsuccessful (rs_exec e m) es u"

section \<open>Facts about windows\<close>

named_theorems mam_simps \<open>fields of a window after its operations\<close>

text \<open>A window as the list of its samples, and its well-formedness.\<close>

definition mam_samples :: "MovingAverageMonitor \<Rightarrow> (time \<times> real) list" where
  "mam_samples m = zip (mam_timestamps m) (mam_values m)"

definition mam_ok :: "MovingAverageMonitor \<Rightarrow> bool" where
  "mam_ok m \<longleftrightarrow> length (mam_timestamps m) = length (mam_values m)"

lemma popleft_old_lengths:
  "popleft_old c ts vs = (ts', vs') \<Longrightarrow> length ts = length vs \<Longrightarrow> length ts' = length vs'"
  by (induction c ts vs rule: popleft_old.induct) (auto split: if_splits)

lemma popleft_old_zip:
  "popleft_old c ts vs = (ts', vs') \<Longrightarrow> length ts = length vs \<Longrightarrow>
   zip ts' vs' = dropWhile (\<lambda>(t, v). t < c) (zip ts vs)"
  by (induction c ts vs rule: popleft_old.induct) (auto split: if_splits)

lemma dropWhile_before_sorted:
  "sorted (map fst xs) \<Longrightarrow>
   dropWhile (\<lambda>(t, v). t < c) xs = filter (\<lambda>(t, v). (c::real) \<le> t) xs"
  by (induction xs) (force simp: not_less intro!: filter_True [symmetric])+

lemma mam_update_ok [simp]: "mam_ok m \<Longrightarrow> mam_ok (mam_update m t v)"
  by (auto simp: mam_ok_def mam_update_def Let_def split: prod.splits dest!: popleft_old_lengths)

lemma mam_update_no_value_ok [simp]: "mam_ok m \<Longrightarrow> mam_ok (mam_update_no_value m t)"
  by (auto simp: mam_ok_def mam_update_no_value_def Let_def split: prod.splits
      dest!: popleft_old_lengths)

lemma mam_init_ok [simp]: "mam_ok (mam_init w)"
  by (simp add: mam_ok_def mam_init_def)

lemma mam_window_update [mam_simps, simp]:
  "mam_window (mam_update m t v) = mam_window m"
  "mam_window (mam_update_no_value m t) = mam_window m"
  "mam_window (mam_init w) = w"
  by (simp_all add: mam_update_def mam_update_no_value_def mam_init_def Let_def split: prod.splits)

lemma mam_samples_init [mam_simps, simp]: "mam_samples (mam_init w) = []"
  by (simp add: mam_samples_def mam_init_def)

lemma mam_samples_update_no_value [mam_simps]:
  "mam_ok m \<Longrightarrow> sorted (map fst (mam_samples m)) \<Longrightarrow>
   mam_samples (mam_update_no_value m t) =
     filter (\<lambda>(s, v). t - mam_window m \<le> s) (mam_samples m)"
  using dropWhile_before_sorted [of "mam_samples m" "t - mam_window m"]
  by (auto simp: mam_samples_def mam_update_no_value_def mam_ok_def Let_def
      split: prod.splits dest!: popleft_old_zip)

lemma mam_samples_update [mam_simps]:
  assumes "mam_ok m" "sorted (map fst (mam_samples m @ [(t, v)]))"
  shows "mam_samples (mam_update m t v) =
     filter (\<lambda>(s, v). t - mam_window m \<le> s) (mam_samples m @ [(t, v)])"
proof -
  obtain ts vs where p: "popleft_old (t - mam_window m) (mam_timestamps m @ [t])
      (mam_values m @ [v]) = (ts, vs)" by fastforce
  have "zip ts vs = dropWhile (\<lambda>(s, v). s < t - mam_window m) (mam_samples m @ [(t, v)])"
    using popleft_old_zip [OF p] assms(1) by (simp add: mam_ok_def mam_samples_def)
  then show ?thesis
    using dropWhile_before_sorted [OF assms(2), of "t - mam_window m"] p
    by (simp add: mam_update_def mam_samples_def)
qed

lemma mam_get_sum_samples: "mam_ok m \<Longrightarrow> mam_get_sum m = sum_list (map snd (mam_samples m))"
  by (simp add: mam_get_sum_def mam_samples_def mam_ok_def)

lemma mam_get_average_samples:
  "mam_ok m \<Longrightarrow> mam_get_average m =
     (if mam_samples m = [] then -1
      else sum_list (map snd (mam_samples m)) / real (length (mam_samples m)))"
  by (auto simp: mam_get_average_def mam_samples_def mam_ok_def)

text \<open>
  A window that holds exactly the recent part of a sample history. The cutoff is bounded by
  the current time, so a later prune makes it exact.
\<close>

definition window_of :: "MovingAverageMonitor \<Rightarrow> real \<Rightarrow> time \<Rightarrow> (time \<times> real) list \<Rightarrow> bool" where
  "window_of m w now hist \<longleftrightarrow> mam_ok m \<and> mam_window m = w \<and>
     (\<exists>c \<le> now - w. mam_samples m = filter (\<lambda>(s, v). c \<le> s) hist)"

lemma sorted_fst_filter: "sorted (map fst xs) \<Longrightarrow> sorted (map fst (filter P xs))"
  by (induction xs) auto

lemma window_of_init: "window_of (mam_init w) w now []"
  by (auto simp: window_of_def)

lemma window_of_later: "window_of m w now hist \<Longrightarrow> now \<le> now' \<Longrightarrow> window_of m w now' hist"
  unfolding window_of_def by (meson diff_right_mono order_trans)

lemma filter_cut_twice:
  "c \<le> d \<Longrightarrow> filter (\<lambda>x. (case x of (s, v) \<Rightarrow> c \<le> s) \<and> (case x of (s, v) \<Rightarrow> (d::real) \<le> s)) xs =
     filter (\<lambda>(s, v). d \<le> s) xs"
  by (induction xs) auto

lemma window_of_prune:
  assumes "window_of m w now hist" "sorted (map fst hist)" "now \<le> t"
  shows "window_of (mam_update_no_value m t) w t hist"
    and "mam_samples (mam_update_no_value m t) = filter (\<lambda>(s, v). t - w \<le> s) hist"
proof -
  obtain c where c: "c \<le> now - w" "mam_samples m = filter (\<lambda>(s, v). c \<le> s) hist"
    and ok: "mam_ok m" "mam_window m = w"
    using assms(1) by (auto simp: window_of_def)
  show eq: "mam_samples (mam_update_no_value m t) = filter (\<lambda>(s, v). t - w \<le> s) hist"
    using c ok assms(2,3)
    by (simp add: mam_samples_update_no_value sorted_fst_filter filter_cut_twice)
  show "window_of (mam_update_no_value m t) w t hist"
    using eq ok by (auto simp: window_of_def)
qed

lemma window_of_record:
  assumes "window_of m w now hist" "sorted (map fst (hist @ [(t, v)]))" "now \<le> t"
  shows "window_of (mam_update m t v) w t (hist @ [(t, v)])"
proof -
  obtain c where c: "c \<le> now - w" "mam_samples m = filter (\<lambda>(s, v). c \<le> s) hist"
    and ok: "mam_ok m" "mam_window m = w"
    using assms(1) by (auto simp: window_of_def)
  have "sorted (map fst (mam_samples m @ [(t, v)]))"
    using assms(2) c by (auto simp: sorted_append sorted_fst_filter)
  then have "mam_samples (mam_update m t v) = filter (\<lambda>(s, v). t - w \<le> s) (hist @ [(t, v)])"
    using ok c assms(3) by (simp add: mam_samples_update filter_cut_twice)
  then show ?thesis using ok by (auto simp: window_of_def intro!: exI [of _ "t - w"])
qed

section \<open>Facts about counters and records\<close>

lemma counter_add_get [simp]:
  "dict_get (counter_add d u i) u' 0 = dict_get d u' 0 + (if u' = u then i else 0)"
  by (simp add: counter_add_def)

lemma monitor_touch_Some [simp]:
  "map_of (monitor_touch w d u) u' =
     (if u' = u \<and> map_of d u = None then Some (mam_init w) else map_of d u')"
  by (simp add: monitor_touch_def)

lemma monitor_record_Some [simp]:
  "map_of (monitor_record w d u t v) u' =
     (if u' = u then Some (mam_update (dict_get d u (mam_init w)) t v) else map_of d u')"
  by (simp add: monitor_record_def)

lemma rsm_invD:
  assumes "rsm_inv m"
  shows "distinct (keys (active_requests m))"
    and "map_of (active_requests m) h = Some r \<Longrightarrow> handle_value h < next_handle m"
    and "map_of (active_requests m) h = Some r \<Longrightarrow>
           map_of (latency_monitors m) (ar_engine_url r) \<noteq> None"
    and "dict_get (in_prefill_requests m) u 0 = int (in_flight (active_requests m) Prefill u)"
    and "dict_get (in_decoding_requests m) u 0 = int (in_flight (active_requests m) Decoding u)"
    and "decoding_length_monitors m = []"
  using assms by (auto simp: rsm_inv_def)

lemma rsm_inv_fresh:
  "rsm_inv m \<Longrightarrow> map_of (active_requests m) (RequestHandle (next_handle m)) = None"
  by (metis less_irrefl not_None_eq rsm_invD(2) RequestHandle.sel)

lemma rsm_inv_start: "rsm_inv (rsm_start w)"
  by (simp add: rsm_inv_def rsm_start_def rsm_init_def in_flight_def)

text \<open>Live records of a stage after the three kinds of change of the active table.\<close>

lemma in_flight_pos:
  "map_of d h = Some r \<Longrightarrow> 0 < in_flight d (ar_stage r) (ar_engine_url r)"
  by (auto simp: in_flight_def intro: dict_count_pos)

lemma in_flight_new:
  "map_of d h = None \<Longrightarrow> in_flight (dict_set d h r) s u =
     in_flight d s u + of_bool (ar_stage r = s \<and> ar_engine_url r = u)"
  by (simp add: in_flight_def dict_count_absent map_of_eq_None_iff)

lemma in_flight_set:
  assumes "distinct (keys d)" "map_of d h = Some r"
  shows "int (in_flight (dict_set d h r') s u) = int (in_flight d s u)
     - of_bool (ar_stage r = s \<and> ar_engine_url r = u)
     + of_bool (ar_stage r' = s \<and> ar_engine_url r' = u)"
  using dict_count_set [OF assms, of "\<lambda>h r. ar_stage r = s \<and> ar_engine_url r = u" r']
  by (simp add: in_flight_def of_bool_def split: if_splits)

lemma in_flight_pop:
  assumes "distinct (keys d)" "map_of d h = Some r"
  shows "int (in_flight (dict_pop d h) s u) = int (in_flight d s u)
     - of_bool (ar_stage r = s \<and> ar_engine_url r = u)"
  using dict_count_pop [OF assms, of "\<lambda>h r. ar_stage r = s \<and> ar_engine_url r = u"]
  by (simp add: in_flight_def of_bool_def split: if_splits)

lemmas in_flight_simps = in_flight_new in_flight_set in_flight_pop

text \<open>In a good state the guards of the error branches never fire.\<close>

lemma rsm_inv_stage_pos:
  assumes "rsm_inv m" "map_of (active_requests m) h = Some r"
  shows "ar_stage r = Prefill \<Longrightarrow> 0 < dict_get (in_prefill_requests m) (ar_engine_url r) 0"
    and "ar_stage r = Decoding \<Longrightarrow> 0 < dict_get (in_decoding_requests m) (ar_engine_url r) 0"
  using in_flight_pos [OF assms(2)] rsm_invD(4,5) [OF assms(1)] by auto

lemma on_new_request_inv:
  assumes "rsm_inv m"
  shows "rsm_inv (snd (on_new_request m u rid t))"
  using assms rsm_inv_fresh [OF assms]
  by (auto simp: rsm_inv_def on_new_request_def in_flight_new less_Suc_eq)

lemma on_request_response_effect:
  assumes "rsm_inv m" "map_of (active_requests m) h = Some r" "ar_stage r = Prefill"
  shows "on_request_response m h t = (let u = ar_engine_url r in
     m\<lparr>active_requests := dict_set (active_requests m) h
         (r\<lparr>ar_stage := Decoding, ar_first_token_time := Some t\<rparr>),
       first_token_times := dict_set (first_token_times m) h t,
       in_prefill_requests := counter_add (in_prefill_requests m) u (-1),
       in_decoding_requests := counter_add (in_decoding_requests m) u 1,
       ttft_monitors := monitor_record (sliding_window_size m) (ttft_monitors m) u t
         (t - ar_start_time r)\<rparr>)"
  using assms rsm_inv_stage_pos(1) [OF assms] by (simp add: on_request_response_def)

lemma on_request_response_noop:
  "(\<And>r. map_of (active_requests m) h = Some r \<Longrightarrow> ar_stage r \<noteq> Prefill) \<Longrightarrow>
   on_request_response m h t = m"
  by (auto simp: on_request_response_def split: option.split)

lemma on_request_response_inv:
  assumes "rsm_inv m"
  shows "rsm_inv (on_request_response m h t)"
proof (cases "\<exists>r. map_of (active_requests m) h = Some r \<and> ar_stage r = Prefill")
  case True
  then obtain r where r: "map_of (active_requests m) h = Some r" "ar_stage r = Prefill"
    by blast
  have d: "distinct (keys (active_requests m))" using rsm_invD(1) [OF assms] .
  show ?thesis
    using assms rsm_invD(3) [OF assms r(1)] unfolding on_request_response_effect [OF assms r]
    by (auto simp: rsm_inv_def in_flight_set [OF d r(1)] r)
next
  case False
  then have "on_request_response m h t = m"
    by (intro on_request_response_noop) auto
  then show ?thesis using assms by simp
qed

text \<open>Finalization pops the record, gives the stage slot back and never raises.\<close>

lemma finalize_request_absent:
  "map_of (active_requests m) h = None \<Longrightarrow> finalize_request m h t c = (Inr (), m)"
  by (simp add: finalize_request_def)

lemma retire_stage_fields [simp]:
  "active_requests (retire_stage m r) = active_requests m"
  "request_start_time (retire_stage m r) = request_start_time m"
  "first_token_times (retire_stage m r) = first_token_times m"
  "latency_monitors (retire_stage m r) = latency_monitors m"
  "qps_monitors (retire_stage m r) = qps_monitors m"
  "ttft_monitors (retire_stage m r) = ttft_monitors m"
  "finished_requests (retire_stage m r) = finished_requests m"
  "next_handle (retire_stage m r) = next_handle m"
  "decoding_length_monitors (retire_stage m r) = decoding_length_monitors m"
  "sliding_window_size (retire_stage m r) = sliding_window_size m"
  by (simp_all add: retire_stage_def split: stage.split)

lemma retire_stage_counts:
  assumes "ar_stage r = Prefill \<Longrightarrow> 0 < dict_get (in_prefill_requests m) (ar_engine_url r) 0"
    and "ar_stage r = Decoding \<Longrightarrow> 0 < dict_get (in_decoding_requests m) (ar_engine_url r) 0"
  shows "dict_get (in_prefill_requests (retire_stage m r)) u 0 =
           dict_get (in_prefill_requests m) u 0 - of_bool (ar_stage r = Prefill \<and> ar_engine_url r = u)"
    and "dict_get (in_decoding_requests (retire_stage m r)) u 0 =
           dict_get (in_decoding_requests m) u 0 - of_bool (ar_stage r = Decoding \<and> ar_engine_url r = u)"
  using assms by (auto simp: retire_stage_def split: stage.split)

lemma finalize_request_fields:
  assumes "map_of (active_requests m) h = Some r"
  shows "active_requests (snd (finalize_request m h t c)) = dict_pop (active_requests m) h"
    and "request_start_time (snd (finalize_request m h t c)) = dict_pop (request_start_time m) h"
    and "first_token_times (snd (finalize_request m h t c)) = dict_pop (first_token_times m) h"
    and "next_handle (snd (finalize_request m h t c)) = next_handle m"
    and "decoding_length_monitors (snd (finalize_request m h t c)) = decoding_length_monitors m"
    and "map_of (latency_monitors (snd (finalize_request m h t c))) u = None \<longleftrightarrow>
           map_of (latency_monitors m) u = None"
    and "dict_get (finished_requests (snd (finalize_request m h t c))) u 0 =
           dict_get (finished_requests m) u 0 + of_bool (c \<and> ar_engine_url r = u)"
  using assms by (auto simp: finalize_request_def split: option.split)

lemma finalize_request_counts:
  assumes "rsm_inv m" "map_of (active_requests m) h = Some r"
  shows "dict_get (in_prefill_requests (snd (finalize_request m h t c))) u 0 =
           dict_get (in_prefill_requests m) u 0 - of_bool (ar_stage r = Prefill \<and> ar_engine_url r = u)"
    and "dict_get (in_decoding_requests (snd (finalize_request m h t c))) u 0 =
           dict_get (in_decoding_requests m) u 0 - of_bool (ar_stage r = Decoding \<and> ar_engine_url r = u)"
proof -
  let ?m = "m\<lparr>active_requests := dict_pop (active_requests m) h,
     request_start_time := dict_pop (request_start_time m) h,
     first_token_times := dict_pop (first_token_times m) h\<rparr>"
  have e: "in_prefill_requests (snd (finalize_request m h t c)) = in_prefill_requests (retire_stage ?m r)"
    "in_decoding_requests (snd (finalize_request m h t c)) = in_decoding_requests (retire_stage ?m r)"
    using assms(2) by (simp_all add: finalize_request_def split: option.split)
  show "dict_get (in_prefill_requests (snd (finalize_request m h t c))) u 0 =
           dict_get (in_prefill_requests m) u 0 - of_bool (ar_stage r = Prefill \<and> ar_engine_url r = u)"
    "dict_get (in_decoding_requests (snd (finalize_request m h t c))) u 0 =
           dict_get (in_decoding_requests m) u 0 - of_bool (ar_stage r = Decoding \<and> ar_engine_url r = u)"
    unfolding e using retire_stage_counts [of r ?m u] rsm_inv_stage_pos [OF assms] by simp_all
qed

lemma finalize_request_ok: "rsm_inv m \<Longrightarrow> fst (finalize_request m h t c) = Inr ()"
  using rsm_invD(3) by (fastforce simp: finalize_request_def split: option.split)

lemma finalize_request_inv:
  assumes "rsm_inv m"
  shows "rsm_inv (snd (finalize_request m h t c))"
proof (cases "map_of (active_requests m) h")
  case None
  then show ?thesis using assms by (simp add: finalize_request_absent)
next
  case (Some r)
  have d: "distinct (keys (active_requests m))" using rsm_invD(1) [OF assms] .
  show ?thesis
    using assms
    by (auto simp: rsm_inv_def finalize_request_fields [OF Some] in_flight_pop [OF d Some]
        finalize_request_counts [OF assms Some] distinct_keys_pop
        simp flip: not_None_eq)
qed

text \<open>A snapshot touches only the two windows it prunes.\<close>

lemma stats_of_url_frame:
  "stats_of_url m now u = (r, m') \<Longrightarrow>
   \<exists>q f. m' = m\<lparr>qps_monitors := q, ttft_monitors := f\<rparr>"
  by (cases m) (auto simp: stats_of_url_def split: if_splits)

lemma stats_loop_frame:
  "stats_loop m now us ret = (r, m') \<Longrightarrow>
   \<exists>q f. m' = m\<lparr>qps_monitors := q, ttft_monitors := f\<rparr>"
proof (induction us arbitrary: m ret)
  case Nil
  then show ?case by (cases m) auto
next
  case (Cons u us)
  obtain x m1 where s: "stats_of_url m now u = (x, m1)" by fastforce
  obtain q f where m1: "m1 = m\<lparr>qps_monitors := q, ttft_monitors := f\<rparr>"
    using stats_of_url_frame [OF s] by blast
  show ?case
  proof (cases x)
    case (Inl e)
    then show ?thesis using Cons.prems s m1 by auto
  next
    case (Inr v)
    then have "stats_loop m1 now us (dict_set ret u v) = (r, m')"
      using Cons.prems s by simp
    then show ?thesis using Cons.IH m1 by fastforce
  qed
qed

lemma get_request_stats_frame:
  "\<exists>q f. snd (get_request_stats m now) = m\<lparr>qps_monitors := q, ttft_monitors := f\<rparr>"
  by (metis get_request_stats_def stats_loop_frame prod.collapse)

lemma get_request_stats_inv: "rsm_inv m \<Longrightarrow> rsm_inv (snd (get_request_stats m now))"
  using get_request_stats_frame [of m now] by (auto simp: rsm_inv_def)

lemma rs_exec_inv: "rsm_inv m \<Longrightarrow> rsm_inv (rs_exec e m)"
proof (cases e)
  case (Swapped u t)
  assume "rsm_inv m"
  then show ?thesis by (simp add: Swapped on_request_swapped_def rsm_inv_def)
qed (simp_all add: on_new_request_inv on_request_response_inv finalize_request_inv
    get_request_stats_inv on_request_complete_def on_request_fail_def on_request_abort_def)

lemma rs_reachable_inv: "rs_reachable w m \<Longrightarrow> rsm_inv m"
  by (induction rule: rs_reachable.induct) (simp_all add: rsm_inv_start rs_exec_inv)

lemma rs_run_inv: "rsm_inv m \<Longrightarrow> rsm_inv (rs_run evs m)"
  by (induction evs arbitrary: m) (simp_all add: rs_run_def rs_exec_inv)

section \<open>The lifecycle contract\<close>

text \<open>
  What a proxy relies on when it reports the life of an attempt: a new attempt gets a handle
  that is not live, a token moves only its own attempt, and finishing retires exactly its own
  attempt, once.
\<close>

locale request_lifecycle =
  fixes new :: "'s \<Rightarrow> url \<Rightarrow> string \<Rightarrow> time \<Rightarrow> 'h \<times> 's"
    and token :: "'s \<Rightarrow> 'h \<Rightarrow> time \<Rightarrow> 's"
    and finish :: "'s \<Rightarrow> 'h \<Rightarrow> time \<Rightarrow> bool \<Rightarrow> unit result \<times> 's"
    and live :: "'s \<Rightarrow> 'h \<Rightarrow> (stage \<times> url) option"
    and invar :: "'s \<Rightarrow> bool"
  assumes new_fresh: "invar s \<Longrightarrow> new s u rid t = (h, s') \<Longrightarrow> live s h = None"
    and new_live: "invar s \<Longrightarrow> new s u rid t = (h, s') \<Longrightarrow> live s' = (live s)(h \<mapsto> (Prefill, u))"
    and new_invar: "invar s \<Longrightarrow> new s u rid t = (h, s') \<Longrightarrow> invar s'"
    and token_live: "invar s \<Longrightarrow> live (token s h t) =
          (case live s h of Some (Prefill, u) \<Rightarrow> (live s)(h \<mapsto> (Decoding, u)) | _ \<Rightarrow> live s)"
    and token_invar: "invar s \<Longrightarrow> invar (token s h t)"
    and finish_live: "invar s \<Longrightarrow> live (snd (finish s h t c)) = (live s)(h := None)"
    and finish_absent: "live s h = None \<Longrightarrow> finish s h t c = (Inr (), s)"
    and finish_ok: "invar s \<Longrightarrow> fst (finish s h t c) = Inr ()"
    and finish_invar: "invar s \<Longrightarrow> invar (snd (finish s h t c))"
begin

lemma finish_again:
  "invar s \<Longrightarrow> finish (snd (finish s h t c)) h t' c' = (Inr (), snd (finish s h t c))"
  by (simp add: finish_absent finish_live)

lemma token_other: "invar s \<Longrightarrow> h' \<noteq> h \<Longrightarrow> live (token s h t) h' = live s h'"
  by (auto simp: token_live split: option.split prod.split stage.split)

lemma token_domain: "invar s \<Longrightarrow> (live (token s h t))(h := None) = (live s)(h := None)"
  by (auto simp: token_live split: option.split prod.split stage.split)

lemma tokens_domain:
  "invar s \<Longrightarrow> invar (fold (\<lambda>t s. token s h t) ts s) \<and>
     (live (fold (\<lambda>t s. token s h t) ts s))(h := None) = (live s)(h := None)"
  by (induction ts arbitrary: s) (simp_all add: token_invar token_domain)

lemma attempt_neutral:
  assumes "invar s" "new s u rid t = (h, s1)"
  shows "live (snd (finish (fold (\<lambda>t s. token s h t) ts s1) h t' c)) = live s"
proof -
  have "invar s1" "live s1 = (live s)(h \<mapsto> (Prefill, u))" "live s h = None"
    using assms new_invar new_live new_fresh by blast+
  then show ?thesis using tokens_domain [of s1 h ts] by (simp add: finish_live fun_upd_idem)
qed

lemma finish_all:
  "invar s \<Longrightarrow> invar (fold (\<lambda>h s. snd (finish s h t c)) hs s) \<and>
     live (fold (\<lambda>h s. snd (finish s h t c)) hs s) = (\<lambda>h. if h \<in> set hs then None else live s h)"
  by (induction hs arbitrary: s) (auto simp: finish_invar finish_live)

end

definition rsm_live :: "RequestStatsMonitor \<Rightarrow> RequestHandle \<Rightarrow> (stage \<times> url) option" where
  "rsm_live m h = map_option (\<lambda>r. (ar_stage r, ar_engine_url r)) (map_of (active_requests m) h)"

lemma rsm_live_new:
  assumes "rsm_inv m" "on_new_request m u rid t = (h, m')"
  shows "rsm_live m h = None" "rsm_live m' = (rsm_live m)(h \<mapsto> (Prefill, u))" "rsm_inv m'"
  using assms rsm_inv_fresh [OF assms(1)] on_new_request_inv [OF assms(1), of u rid t]
  by (auto simp: on_new_request_def rsm_live_def)

lemma rsm_live_token:
  assumes "rsm_inv m"
  shows "rsm_live (on_request_response m h t) =
    (case rsm_live m h of Some (Prefill, u) \<Rightarrow> (rsm_live m)(h \<mapsto> (Decoding, u)) | _ \<Rightarrow> rsm_live m)"
proof (cases "map_of (active_requests m) h")
  case None
  then show ?thesis by (simp add: rsm_live_def on_request_response_def)
next
  case (Some r)
  show ?thesis
  proof (cases "ar_stage r")
    case Prefill
    then show ?thesis
      using Some by (auto simp: on_request_response_effect [OF assms Some Prefill] rsm_live_def)
  next
    case Decoding
    then show ?thesis using Some by (simp add: on_request_response_def rsm_live_def)
  qed
qed

lemma rsm_live_finalize:
  "rsm_live (snd (finalize_request m h t c)) = (rsm_live m)(h := None)"
proof (cases "map_of (active_requests m) h")
  case None
  then show ?thesis by (auto simp: finalize_request_absent rsm_live_def)
next
  case (Some r)
  then show ?thesis by (auto simp: rsm_live_def finalize_request_fields)
qed

lemma rsm_live_absent: "rsm_live m h = None \<Longrightarrow> finalize_request m h t c = (Inr (), m)"
  by (simp add: rsm_live_def finalize_request_absent)

interpretation monitor: request_lifecycle on_new_request on_request_response finalize_request
  rsm_live rsm_inv
  by unfold_locales
    (auto simp: rsm_live_new rsm_live_token rsm_live_finalize on_request_response_inv
      finalize_request_ok finalize_request_inv rsm_live_absent)

lemma in_flight_none:
  "rsm_live m = Map.empty \<Longrightarrow> in_flight (active_requests m) s u = 0"
  by (cases "active_requests m") (auto simp: in_flight_def rsm_live_def fun_eq_iff split: if_splits)

section \<open>Conservation\<close>

lemma counters_new:
  "in_prefill_requests (snd (on_new_request m u rid t)) = counter_add (in_prefill_requests m) u 1"
  "in_decoding_requests (snd (on_new_request m u rid t)) = in_decoding_requests m"
  "finished_requests (snd (on_new_request m u rid t)) = finished_requests m"
  by (simp_all add: on_new_request_def)

definition accounted :: "RequestStatsMonitor \<Rightarrow> url \<Rightarrow> int" where
  "accounted m u = dict_get (in_prefill_requests m) u 0 + dict_get (in_decoding_requests m) u 0
     + dict_get (finished_requests m) u 0"

lemma accounted_response: "rsm_inv m \<Longrightarrow> accounted (on_request_response m h t) u = accounted m u"
  by (auto simp: accounted_def on_request_response_def split: option.split)

lemma accounted_finalize:
  assumes "rsm_inv m"
  shows "accounted (snd (finalize_request m h t c)) u = accounted m u - of_bool (\<not> c \<and> live_on m h u)"
proof (cases "map_of (active_requests m) h")
  case None
  then show ?thesis by (simp add: finalize_request_absent live_on_def)
next
  case (Some r)
  then show ?thesis
    by (cases "ar_stage r"; cases c)
      (auto simp: accounted_def finalize_request_fields finalize_request_counts [OF assms] live_on_def)
qed

lemma accounted_snapshot: "accounted (snd (get_request_stats m t)) u = accounted m u"
  using get_request_stats_frame [of m t] by (auto simp: accounted_def)

lemma accounted_exec:
  assumes "rsm_inv m"
  shows "accounted (rs_exec e m) u + int (unsuccessful m [e] u) =
           accounted m u + int (length (arrival_times u [e]))"
  using assms
  by (cases e) (auto simp: accounted_response accounted_finalize accounted_snapshot
      on_request_complete_def on_request_fail_def on_request_abort_def on_request_swapped_def,
      simp_all add: accounted_def counters_new)

lemma unsuccessful_Cons: "unsuccessful m (e # es) u = unsuccessful m [e] u + unsuccessful (rs_exec e m) es u"
  by simp

lemma arrival_times_Cons: "arrival_times u (e # es) = arrival_times u [e] @ arrival_times u es"
  by (cases e) auto

lemma accounted_run:
  "rsm_inv m \<Longrightarrow> accounted (rs_run evs m) u + int (unsuccessful m evs u) =
     accounted m u + int (length (arrival_times u evs))"
proof (induction evs arbitrary: m)
  case (Cons e evs)
  have "accounted (rs_run evs (rs_exec e m)) u + int (unsuccessful (rs_exec e m) evs u) =
     accounted (rs_exec e m) u + int (length (arrival_times u evs))"
    using Cons rs_exec_inv by blast
  then show ?case
    using accounted_exec [OF Cons.prems, of e u]
    by (simp add: rs_run_def arrival_times_Cons [of u e evs] unsuccessful_Cons [of m e evs]
        del: unsuccessful.simps)
qed (simp add: rs_run_def)

section \<open>The reported rate\<close>

text \<open>What a snapshot reads of one engine depends only on that engine's two windows.\<close>

lemma stats_of_url_ok:
  assumes "sliding_window_size m \<noteq> 0"
  obtains s where "stats_of_url m now u = (Inr s,
    m\<lparr>qps_monitors := prune_at (qps_monitors m) u now,
      ttft_monitors := prune_at (ttft_monitors m) u now\<rparr>)"
  using assms by (simp add: stats_of_url_def)

lemma stats_of_url_cong:
  "map_of q u = map_of (qps_monitors m) u \<Longrightarrow> map_of f u = map_of (ttft_monitors m) u \<Longrightarrow>
   fst (stats_of_url (m\<lparr>qps_monitors := q, ttft_monitors := f\<rparr>) now u) = fst (stats_of_url m now u)"
  by (simp add: stats_of_url_def prune_at_def avg_at_def uptime_at_def split: option.split)

lemma prune_at_Some:
  "map_of (prune_at d u now) u' =
     (if u' = u then map_option (\<lambda>mm. mam_update_no_value mm now) (map_of d u) else map_of d u')"
  by (simp add: prune_at_def split: option.split)

lemma stats_loop_spec:
  assumes "sliding_window_size m \<noteq> 0" "distinct us"
  shows "\<exists>d m'. stats_loop m now us ret = (Inr d, m') \<and>
     (\<forall>u. map_of d u = (if u \<in> set us then Some (projr (fst (stats_of_url m now u)))
                         else map_of ret u)) \<and>
     (\<forall>u. map_of (qps_monitors m') u =
        (if u \<in> set us then map_option (\<lambda>mm. mam_update_no_value mm now) (map_of (qps_monitors m) u)
         else map_of (qps_monitors m) u))"
  using assms
proof (induction us arbitrary: m ret)
  case (Cons u us)
  define m1 where "m1 = m\<lparr>qps_monitors := prune_at (qps_monitors m) u now,
     ttft_monitors := prune_at (ttft_monitors m) u now\<rparr>"
  obtain s where s: "stats_of_url m now u = (Inr s, m1)"
    using stats_of_url_ok Cons.prems(1) unfolding m1_def by blast
  have other: "fst (stats_of_url m1 now v) = fst (stats_of_url m now v)" if "v \<in> set us" for v
    unfolding m1_def using that Cons.prems(2)
    by (intro stats_of_url_cong) (auto simp: prune_at_Some)
  obtain d m' where "stats_loop m1 now us (dict_set ret u s) = (Inr d, m')"
    "\<forall>v. map_of d v = (if v \<in> set us then Some (projr (fst (stats_of_url m1 now v)))
                        else map_of (dict_set ret u s) v)"
    "\<forall>v. map_of (qps_monitors m') v =
        (if v \<in> set us then map_option (\<lambda>mm. mam_update_no_value mm now) (map_of (qps_monitors m1) v)
         else map_of (qps_monitors m1) v)"
    using Cons.IH [of m1 "dict_set ret u s"] Cons.prems by (auto simp: m1_def)
  moreover have "qps_monitors m1 = prune_at (qps_monitors m) u now" by (simp add: m1_def)
  ultimately show ?case
    using Cons.prems(2) s other by (auto simp: prune_at_Some)
qed simp

lemma get_request_stats_spec:
  assumes "sliding_window_size m \<noteq> 0"
  shows "\<exists>d m'. get_request_stats m now = (Inr d, m') \<and>
     (\<forall>u. map_of d u =
        (if u \<in> fst ` set (in_prefill_requests m) \<union> fst ` set (in_decoding_requests m)
         then Some (projr (fst (stats_of_url m now u))) else None)) \<and>
     (\<forall>u. map_of (qps_monitors m') u =
        (if u \<in> fst ` set (in_prefill_requests m) \<union> fst ` set (in_decoding_requests m)
         then map_option (\<lambda>mm. mam_update_no_value mm now) (map_of (qps_monitors m) u)
         else map_of (qps_monitors m) u))"
  using stats_loop_spec [OF assms, of "remdups (keys (in_prefill_requests m) @ keys (in_decoding_requests m))" now "[]"]
  unfolding get_request_stats_def by (simp cong: if_cong)

text \<open>The relation between a run's arrivals and the state it leads to.\<close>

definition arrival_samples :: "url \<Rightarrow> rs_event list \<Rightarrow> (time \<times> real) list" where
  "arrival_samples u evs = map (\<lambda>t. (t, 1)) (arrival_times u evs)"

definition tracks_url :: "real \<Rightarrow> time \<Rightarrow> rs_event list \<Rightarrow> RequestStatsMonitor \<Rightarrow> url \<Rightarrow> bool" where
  "tracks_url w now evs m u \<longleftrightarrow>
     arrival_times u evs = [] \<and> map_of (qps_monitors m) u = None \<and>
       u \<notin> fst ` set (in_prefill_requests m) \<and> u \<notin> fst ` set (in_decoding_requests m) \<or>
     arrival_times u evs \<noteq> [] \<and> u \<in> fst ` set (in_prefill_requests m) \<and>
       (\<exists>mm. map_of (qps_monitors m) u = Some mm \<and> window_of mm w now (arrival_samples u evs))"

definition tracks :: "real \<Rightarrow> time \<Rightarrow> rs_event list \<Rightarrow> RequestStatsMonitor \<Rightarrow> bool" where
  "tracks w now evs m \<longleftrightarrow> sliding_window_size m = w \<and> (\<forall>u. tracks_url w now evs m u)"

lemma tracks_start: "tracks w now [] (rsm_start w)"
  by (simp add: tracks_def tracks_url_def rsm_start_def rsm_init_def)

lemma tracks_later: "tracks w now evs m \<Longrightarrow> now \<le> now' \<Longrightarrow> tracks w now' evs m"
  unfolding tracks_def tracks_url_def by (meson window_of_later)

lemma arrival_times_append: "arrival_times u (es @ es') = arrival_times u es @ arrival_times u es'"
  by (induction u es rule: arrival_times.induct) auto

lemma arrival_times_subset: "set (arrival_times u evs) \<subseteq> event_time ` set evs"
  by (induction u evs rule: arrival_times.induct) auto

lemma sorted_arrival_times: "sorted (map event_time evs) \<Longrightarrow> sorted (arrival_times u evs)"
proof (induction u evs rule: arrival_times.induct)
  case (2 u v rid t es)
  then show ?case using arrival_times_subset [of u es] by fastforce
qed auto

lemma sorted_arrival_samples:
  "sorted (map event_time evs) \<Longrightarrow> sorted (map fst (arrival_samples u evs))"
  by (simp add: arrival_samples_def comp_def sorted_arrival_times)

lemma keys_counter_add [simp]: "fst ` set (counter_add d u i) = insert u (fst ` set d)"
  by (auto simp: counter_add_def)

lemma tracks_new:
  assumes "tracks w now evs m" "sorted (map event_time (evs @ [NewRequest u rid t]))" "now \<le> t"
  shows "tracks w t (evs @ [NewRequest u rid t]) (snd (on_new_request m u rid t))"
proof -
  let ?evs = "evs @ [NewRequest u rid t]"
  have w: "sliding_window_size m = w" and tr: "tracks_url w t evs m v" for v
    using assms(1) tracks_later [OF assms(1,3)] by (simp_all add: tracks_def)
  have hist: "arrival_times v ?evs = arrival_times v evs @ (if v = u then [t] else [])"
    "arrival_samples v ?evs = arrival_samples v evs @ (if v = u then [(t, 1)] else [])" for v
    by (simp_all add: arrival_samples_def arrival_times_append)
  have "window_of (dict_get (qps_monitors m) u (mam_init w)) w t (arrival_samples u evs)"
    using tr [of u] window_of_init [of w t]
    by (auto simp: tracks_url_def dict_get_def arrival_samples_def)
  then have new: "window_of (mam_update (dict_get (qps_monitors m) u (mam_init w)) t 1) w t
      (arrival_samples u ?evs)"
    using window_of_record sorted_arrival_samples [OF assms(2), of u] by (simp add: hist)
  have "tracks_url w t ?evs (snd (on_new_request m u rid t)) v" for v
    using new tr [of v] w by (auto simp: tracks_url_def on_new_request_def hist)
  then show ?thesis using w by (simp add: tracks_def on_new_request_def)
qed

lemma tracks_same:
  assumes "tracks w now evs m" "now \<le> t" and e: "\<And>u. arrival_times u [e] = []"
    and "sliding_window_size m' = sliding_window_size m" "qps_monitors m' = qps_monitors m"
    and "fst ` set (in_prefill_requests m') = fst ` set (in_prefill_requests m)"
    and "fst ` set (in_decoding_requests m') - fst ` set (in_decoding_requests m)
           \<subseteq> fst ` set (in_prefill_requests m)"
  shows "tracks w t (evs @ [e]) m'"
proof -
  have h: "arrival_times u (evs @ [e]) = arrival_times u evs"
    "arrival_samples u (evs @ [e]) = arrival_samples u evs" for u
    using e by (simp_all add: arrival_samples_def arrival_times_append)
  have "tracks_url w t (evs @ [e]) m' u" for u
  proof -
    have "tracks_url w t evs m u" using tracks_later [OF assms(1,2)] by (simp add: tracks_def)
    then show ?thesis using assms(4-) unfolding tracks_url_def h by (elim disjE) auto
  qed
  then show ?thesis using assms(1,4) by (simp add: tracks_def)
qed

lemma counter_add_keys_pos: "0 < dict_get d u 0 \<Longrightarrow> u \<in> fst ` set (d :: (url, int) dict)"
  by (auto simp: dict_get_def map_of_eq_None_iff split: option.splits dest: map_of_SomeD
      intro: rev_image_eqI)

lemma counter_add_keys_same:
  "0 < dict_get d u 0 \<Longrightarrow> fst ` set (counter_add d u i) = fst ` set d"
  using counter_add_keys_pos by (simp add: insert_absorb)

lemma tracks_response:
  assumes "tracks w now evs m" "now \<le> t"
  shows "tracks w t (evs @ [ResponseToken h t]) (on_request_response m h t)"
proof (rule tracks_same [OF assms])
  show "fst ` set (in_prefill_requests (on_request_response m h t)) = fst ` set (in_prefill_requests m)"
    by (simp add: on_request_response_def not_le counter_add_keys_same del: keys_counter_add
        split: option.split)
  show "fst ` set (in_decoding_requests (on_request_response m h t)) - fst ` set (in_decoding_requests m)
      \<subseteq> fst ` set (in_prefill_requests m)"
    using counter_add_keys_pos [of "in_prefill_requests m"]
    by (simp add: on_request_response_def not_le insert_Diff_if split: option.split)
qed (simp_all add: on_request_response_def split: option.split)

lemma retire_stage_keys:
  "fst ` set (in_prefill_requests (retire_stage m r)) = fst ` set (in_prefill_requests m)"
  "fst ` set (in_decoding_requests (retire_stage m r)) = fst ` set (in_decoding_requests m)"
  by (simp_all add: retire_stage_def not_le counter_add_keys_same del: keys_counter_add
      split: stage.split)

lemma tracks_finalize:
  assumes "tracks w now evs m" "now \<le> t" "\<And>u. arrival_times u [e] = []"
  shows "tracks w t (evs @ [e]) (snd (finalize_request m h t c))"
  by (rule tracks_same [OF assms])
    (simp_all add: finalize_request_def retire_stage_keys split: option.split)

lemma tracks_snapshot:
  assumes "tracks w now evs m" "now \<le> t" "w \<noteq> 0" "sorted (map event_time evs)"
  shows "tracks w t (evs @ [Snapshot t]) (snd (get_request_stats m t))"
proof -
  have w: "sliding_window_size m = w" using assms(1) by (simp add: tracks_def)
  have h: "arrival_times u (evs @ [Snapshot t]) = arrival_times u evs"
    "arrival_samples u (evs @ [Snapshot t]) = arrival_samples u evs" for u
    by (simp_all add: arrival_samples_def arrival_times_append)
  obtain d m' where m': "get_request_stats m t = (Inr d, m')"
    and q: "\<And>u. map_of (qps_monitors m') u =
        (if u \<in> fst ` set (in_prefill_requests m) \<union> fst ` set (in_decoding_requests m)
         then map_option (\<lambda>mm. mam_update_no_value mm t) (map_of (qps_monitors m) u)
         else map_of (qps_monitors m) u)"
    using get_request_stats_spec [of m t] w assms(3) by blast
  obtain q' f where fr: "m' = m\<lparr>qps_monitors := q', ttft_monitors := f\<rparr>"
    using get_request_stats_frame [of m t] m' by auto
  have "tracks_url w t (evs @ [Snapshot t]) m' u" for u
  proof -
    have tr: "tracks_url w now evs m u" using assms(1) by (simp add: tracks_def)
    show ?thesis
      using tr q [of u] window_of_prune(1) [OF _ sorted_arrival_samples [OF assms(4), of u] assms(2)]
      unfolding tracks_url_def h by (auto simp: fr)
  qed
  then show ?thesis using w m' fr by (simp add: tracks_def)
qed

lemma tracks_run:
  assumes "w \<noteq> 0" "sorted (map event_time evs)" "\<forall>e \<in> set evs. event_time e \<le> now"
  shows "tracks w now evs (rs_run evs (rsm_start w))"
  using assms(2,3)
proof (induction evs arbitrary: now rule: rev_induct)
  case Nil
  then show ?case by (simp add: rs_run_def tracks_start)
next
  case (snoc e evs)
  let ?m = "rs_run evs (rsm_start w)" and ?t = "event_time e"
  have sorted: "sorted (map event_time evs)" "\<forall>e' \<in> set evs. event_time e' \<le> ?t"
    using snoc.prems(1) by (auto simp: sorted_append)
  then have tr: "tracks w ?t evs ?m" using snoc.IH by blast
  have "tracks w ?t (evs @ [e]) (rs_exec e ?m)"
  proof (cases e)
    case (NewRequest u rid t)
    then show ?thesis using tracks_new [OF tr, of u rid t] snoc.prems(1) by simp
  next
    case (ResponseToken h t)
    then show ?thesis using tracks_response [OF tr, of t h] by simp
  next
    case (Swapped u t)
    then show ?thesis
      using tracks_same [OF tr, of t e "rs_exec e ?m"] by (simp add: on_request_swapped_def)
  next
    case (Snapshot t)
    then show ?thesis using tracks_snapshot [OF tr _ assms(1) sorted(1), of t] by simp
  qed (simp_all add: on_request_complete_def on_request_fail_def on_request_abort_def
      tracks_finalize [OF tr])
  then have "tracks w ?t (evs @ [e]) (rs_run (evs @ [e]) (rsm_start w))"
    by (simp add: rs_run_def)
  then show ?case using tracks_later snoc.prems(2) by simp
qed

lemma rs_reachable_run: "rs_reachable w m \<Longrightarrow> rs_reachable w (rs_run evs m)"
  by (induction evs arbitrary: m) (simp_all add: rs_run_def rs_reachable.step)

lemma rs_reachable_from_start: "rs_reachable w (rs_run evs (rsm_start w))"
  by (simp add: rs_reachable_run rs_reachable.start)

lemma qps_of_snapshot:
  assumes "tracks_url w now evs m u" "sliding_window_size m = w" "w \<noteq> 0"
    and "sorted (map event_time evs)" "arrival_times u evs \<noteq> []"
  shows "st_qps (projr (fst (stats_of_url m now u))) =
           real (length (filter (\<lambda>t. now - w \<le> t) (arrival_times u evs))) / w"
proof -
  obtain mm where mm: "map_of (qps_monitors m) u = Some mm"
    "window_of mm w now (arrival_samples u evs)"
    using assms(1,5) by (auto simp: tracks_url_def)
  let ?mm = "mam_update_no_value mm now"
  have "mam_samples ?mm = filter (\<lambda>(s, v). now - w \<le> s) (arrival_samples u evs)"
    using window_of_prune(2) [OF mm(2) sorted_arrival_samples [OF assms(4)] order_refl] .
  then have "mam_get_sum ?mm = real (length (filter (\<lambda>t. now - w \<le> t) (arrival_times u evs)))"
    using mm(2) by (simp add: mam_get_sum_samples window_of_def arrival_samples_def filter_map
        comp_def sum_list_triv)
  then show ?thesis using mm(1) assms(2,3) by (simp add: stats_of_url_def prune_at_def)
qed

section \<open>Properties\<close>

text \<open>C2. In every state the monitor can reach, by any interleaving of its entry points, the
  prefill and decoding counters of every engine are exactly the numbers of live attempts of that
  engine in that stage.\<close>

theorem stage_counters_count_live_attempts:
  assumes "rs_reachable w m"
  shows "dict_get (in_prefill_requests m) u 0 = int (in_flight (active_requests m) Prefill u) \<and>
         dict_get (in_decoding_requests m) u 0 = int (in_flight (active_requests m) Decoding u)"
  using rsm_invD(4,5) [OF rs_reachable_inv [OF assms]] by simp

theorem stage_counters_count_live_attempts_witness:
  "let m = rs_run [NewRequest ''e1'' ''a'' 1, NewRequest ''e1'' ''b'' 2,
                   ResponseToken (RequestHandle 1) 3, Complete (RequestHandle 7) 4] (rsm_start 10)
   in dict_get (in_prefill_requests m) ''e1'' 0 = 1 \<and>
      int (in_flight (active_requests m) Decoding ''e1'') = 1"
  using stage_counters_count_live_attempts
    [OF rs_reachable_from_start [of 10 "[NewRequest ''e1'' ''a'' 1, NewRequest ''e1'' ''b'' 2,
              ResponseToken (RequestHandle 1) 3, Complete (RequestHandle 7) 4]"], of "''e1''"]
  by (simp add: rs_run_def rsm_start_def rsm_init_def on_new_request_def on_request_response_def
      on_request_complete_def finalize_request_def dict_setdefault_def counter_add_def dict_get_def)

text \<open>C3. Retiring an attempt is safe and happens once: in a reachable state finalization never
  raises, it removes the attempt's live record, and any later completion, failure or abort
  with the same handle leaves the monitor unchanged.\<close>

theorem finalization_happens_once:
  assumes "rs_reachable w m"
  shows "fst (finalize_request m h t c) = Inr () \<and>
         rsm_live (snd (finalize_request m h t c)) = (rsm_live m)(h := None) \<and>
         finalize_request (snd (finalize_request m h t c)) h t' c' =
           (Inr (), snd (finalize_request m h t c))"
  using rs_reachable_inv [OF assms] monitor.finish_ok monitor.finish_live monitor.finish_again
  by blast

theorem finalization_happens_once_witness:
  "let m = rs_run [NewRequest ''e1'' ''a'' 1] (rsm_start 10);
       m' = snd (finalize_request m (RequestHandle 0) 5 True)
   in rsm_live m (RequestHandle 0) = Some (Prefill, ''e1'') \<and>
      rsm_live m' (RequestHandle 0) = None \<and>
      finalize_request m' (RequestHandle 0) 6 False = (Inr (), m')"
proof -
  have "rsm_live (rs_run [NewRequest ''e1'' ''a'' 1] (rsm_start 10)) (RequestHandle 0) =
      Some (Prefill, ''e1'')"
    by (simp add: rs_run_def rsm_start_def rsm_init_def on_new_request_def rsm_live_def)
  then show ?thesis
    using finalization_happens_once
      [OF rs_reachable_from_start [of 10 "[NewRequest ''e1'' ''a'' 1]"],
        of "RequestHandle 0" 5 True 6 False]
    by simp
qed

text \<open>C4. Requests are conserved: along any run, the requests that arrived at an engine are those in
  prefill, those in decoding, those finished, and those retired by a failure or an abort.\<close>

theorem arrivals_are_conserved:
  "let m = rs_run evs (rsm_start w) in
   int (length (arrival_times u evs)) =
     dict_get (in_prefill_requests m) u 0 + dict_get (in_decoding_requests m) u 0 +
     dict_get (finished_requests m) u 0 + int (unsuccessful (rsm_start w) evs u)"
  using accounted_run [OF rsm_inv_start, of evs w u]
  by (simp add: accounted_def rsm_start_def rsm_init_def)

text \<open>C5. The snapshot is faithful to the history: after any run with non-decreasing timestamps, the
  dictionary has exactly the engines that received a request, the rate it reports for an engine
  is the number of its arrivals in the last window divided by the window, and the two stage
  figures are the numbers of its live attempts.\<close>

theorem snapshot_reports_history:
  assumes "w \<noteq> 0" "sorted (map event_time evs)" "\<forall>e \<in> set evs. event_time e \<le> now"
  shows "\<exists>d m'. get_request_stats (rs_run evs (rsm_start w)) now = (Inr d, m') \<and>
     (\<forall>u. map_of d u = None \<longleftrightarrow> arrival_times u evs = []) \<and>
     (\<forall>u s. map_of d u = Some s \<longrightarrow>
        st_qps s = real (length (filter (\<lambda>t. now - w \<le> t) (arrival_times u evs))) / w \<and>
        st_in_prefill_requests s =
          int (in_flight (active_requests (rs_run evs (rsm_start w))) Prefill u) \<and>
        st_in_decoding_requests s =
          int (in_flight (active_requests (rs_run evs (rsm_start w))) Decoding u))"
proof -
  let ?m = "rs_run evs (rsm_start w)"
  have tr: "tracks_url w now evs ?m u" "sliding_window_size ?m = w" for u
    using tracks_run [OF assms] by (simp_all add: tracks_def)
  have nz: "sliding_window_size ?m \<noteq> 0" using tr(2) assms(1) by simp
  have inv: "rsm_inv ?m" by (simp add: rs_run_inv rsm_inv_start)
  obtain d m' where d: "get_request_stats ?m now = (Inr d, m')"
    "\<And>u. map_of d u =
       (if u \<in> fst ` set (in_prefill_requests ?m) \<union> fst ` set (in_decoding_requests ?m)
        then Some (projr (fst (stats_of_url ?m now u))) else None)"
    using get_request_stats_spec [OF nz, of now] by blast
  have dom: "map_of d u = None \<longleftrightarrow> arrival_times u evs = []" for u
    using tr(1) [of u] by (auto simp: d(2) tracks_url_def)
  have "st_in_prefill_requests (projr (fst (stats_of_url ?m now u))) =
          int (in_flight (active_requests ?m) Prefill u)"
    "st_in_decoding_requests (projr (fst (stats_of_url ?m now u))) =
          int (in_flight (active_requests ?m) Decoding u)" for u
    using rsm_invD(4,5) [OF inv] tr(2) assms(1) by (simp_all add: stats_of_url_def)
  moreover have "s = projr (fst (stats_of_url ?m now u)) \<and> arrival_times u evs \<noteq> []"
    if "map_of d u = Some s" for u s
    using that dom [of u] by (auto simp: d(2) split: if_splits)
  ultimately show ?thesis
    using d(1) dom qps_of_snapshot [OF tr assms(1,2)] by blast
qed

theorem snapshot_reports_history_witness:
  "\<exists>d m' s. get_request_stats (rs_run [NewRequest ''e1'' ''a'' 1, NewRequest ''e1'' ''b'' 3,
       NewRequest ''e2'' ''c'' 4] (rsm_start 10)) 12 = (Inr d, m') \<and>
     map_of d ''e1'' = Some s \<and> st_qps s = 1 / 10"
proof -
  define evs where
    "evs = [NewRequest ''e1'' ''a'' 1, NewRequest ''e1'' ''b'' 3, NewRequest ''e2'' ''c'' 4]"
  have "sorted (map event_time evs)" "\<forall>e \<in> set evs. event_time e \<le> 12"
    by (simp_all add: evs_def)
  from snapshot_reports_history [OF _ this, of 10]
  obtain d m' where d: "get_request_stats (rs_run evs (rsm_start 10)) 12 = (Inr d, m')"
    and dom: "\<forall>u. map_of d u = None \<longleftrightarrow> arrival_times u evs = []"
    and qps: "\<forall>u s. map_of d u = Some s \<longrightarrow>
       st_qps s = real (length (filter (\<lambda>t. 12 - 10 \<le> t) (arrival_times u evs))) / 10"
    by (elim impE exE conjE meta_impE) (simp, blast)
  have times: "arrival_times ''e1'' evs = [1, 3]" by (simp add: evs_def)
  then obtain s where s: "map_of d ''e1'' = Some s" using spec [OF dom, of "''e1''"] by auto
  then have "st_qps s = 1 / 10" using qps times by simp
  then show ?thesis using d s unfolding evs_def by blast
qed

text \<open>C6. No attempt leaks: from a reachable state, retiring every live handle, in any order, with any
  outcome and with any superfluous handles, brings all in-flight counters of all engines to zero.\<close>

theorem retiring_all_handles_drains_counters:
  assumes "rs_reachable w m" "fst ` set (active_requests m) \<subseteq> set hs"
  shows "let m' = fold (\<lambda>h m. snd (finalize_request m h t c)) hs m in
         dict_get (in_prefill_requests m') u 0 = 0 \<and> dict_get (in_decoding_requests m') u 0 = 0"
proof -
  let ?m' = "fold (\<lambda>h m. snd (finalize_request m h t c)) hs m"
  have inv: "rsm_inv ?m'"
    and live: "rsm_live ?m' = (\<lambda>h. if h \<in> set hs then None else rsm_live m h)"
    using monitor.finish_all [OF rs_reachable_inv [OF assms(1)], of t c hs] by auto
  have "rsm_live ?m' = Map.empty"
    using assms(2) by (auto simp: live rsm_live_def map_of_eq_None_iff fun_eq_iff)
  then show ?thesis
    using rsm_invD(4,5) [OF inv, of u] by (simp add: in_flight_none)
qed

theorem retiring_all_handles_drains_counters_witness:
  "let m = rs_run [NewRequest ''e1'' ''a'' 1, NewRequest ''e1'' ''b'' 2,
                   ResponseToken (RequestHandle 1) 3] (rsm_start 10);
       m' = fold (\<lambda>h m. snd (finalize_request m h 9 False)) [RequestHandle 1, RequestHandle 0] m
   in dict_get (in_prefill_requests m) ''e1'' 0 = 1 \<and>
      dict_get (in_prefill_requests m') ''e1'' 0 = 0 \<and>
      dict_get (in_decoding_requests m') ''e1'' 0 = 0"
  using retiring_all_handles_drains_counters
    [OF rs_reachable_from_start [of 10 "[NewRequest ''e1'' ''a'' 1, NewRequest ''e1'' ''b'' 2,
              ResponseToken (RequestHandle 1) 3]"], where u = "''e1''" and hs = "[RequestHandle 1, RequestHandle 0]" and t = 9 and c = False]
  by (simp add: rs_run_def rsm_start_def rsm_init_def on_new_request_def on_request_response_def
      dict_setdefault_def counter_add_def dict_get_def)

end
