(* ===== verification/Routing_Base.thy ===== *)
theory Routing_Base
  imports Endpoints Request_Stats
begin

text \<open>
  The routing interface and the two routers that need nothing but the endpoint list and the
  request: \<^verbatim>\<open>RoutingInterface\<close>, \<^verbatim>\<open>RoundRobinRouter\<close> and \<^verbatim>\<open>SessionRouter\<close> of
  \<^verbatim>\<open>src/src/vllm_router/routers/routing_logic.py\<close>. The consistent hash ring is a third-party
  class: it is a record of its operations, with what the router relies on as the predicate
  \<open>ring_laws\<close>. The locale \<open>routing_policy\<close> is the contract every router keeps towards the
  proxy.
\<close>

section \<open>Requests\<close>

type_synonym headers = "(string \<times> string) list"

text \<open>\<^verbatim>\<open>request.headers.get(name)\<close>: the first header with that name, ignoring case.\<close>

definition header_get :: "headers \<Rightarrow> string \<Rightarrow> string option" where
  "header_get hs k = map_of (map (\<lambda>(n, v). (str_lower n, v)) hs) (str_lower k)"

type_synonym body = "(string, json) dict"

type_synonym request_stats = "(url, RequestStats) dict"

abbreviation urls_of :: "EndpointInfo list \<Rightarrow> url list" where
  "urls_of eps \<equiv> map ep_url eps"

section \<open>Lowest request rate\<close>

text \<open>The loop of \<^verbatim>\<open>_qps_routing\<close>; \<open>None\<close> in the first accumulator is positive infinity.\<close>

fun qps_loop :: "request_stats \<Rightarrow> EndpointInfo list \<Rightarrow> real option \<Rightarrow> url option \<Rightarrow> url option" where
  "qps_loop stats [] low ret = ret"
| "qps_loop stats (e # es) low ret = (case map_of stats (ep_url e) of
     None \<Rightarrow> Some (ep_url e)
   | Some st \<Rightarrow>
       if (case low of None \<Rightarrow> True | Some l \<Rightarrow> st_qps st < l)
       then qps_loop stats es (Some (st_qps st)) (Some (ep_url e))
       else qps_loop stats es low ret)"

definition qps_routing :: "EndpointInfo list \<Rightarrow> request_stats \<Rightarrow> url option" where
  "qps_routing eps stats = qps_loop stats eps None None"

section \<open>Hash rings\<close>

record 'r ring_ops =
  ring_empty :: 'r
  ring_get_nodes :: "'r \<Rightarrow> string list"
  ring_add_node :: "string \<Rightarrow> 'r \<Rightarrow> 'r"
  ring_remove_node :: "string \<Rightarrow> 'r \<Rightarrow> 'r"
  ring_get_node :: "'r \<Rightarrow> json \<Rightarrow> string option"

text \<open>
  Documented behaviour of the ring: its node set follows additions and removals, a key of a
  non-empty ring is owned by one of its nodes, a key of an empty ring by none, and the owner
  depends on the node set alone.
\<close>

definition ring_laws :: "'r ring_ops \<Rightarrow> bool" where
  "ring_laws R \<longleftrightarrow>
     ring_get_nodes R (ring_empty R) = [] \<and>
     (\<forall>n r. set (ring_get_nodes R (ring_add_node R n r)) = insert n (set (ring_get_nodes R r))) \<and>
     (\<forall>n r. set (ring_get_nodes R (ring_remove_node R n r)) = set (ring_get_nodes R r) - {n}) \<and>
     (\<forall>r k. set (ring_get_nodes R r) = {} \<longrightarrow> ring_get_node R r k = None) \<and>
     (\<forall>r k. set (ring_get_nodes R r) \<noteq> {} \<longrightarrow>
        (\<exists>n \<in> set (ring_get_nodes R r). ring_get_node R r k = Some n)) \<and>
     (\<forall>r r' k. set (ring_get_nodes R r) = set (ring_get_nodes R r') \<longrightarrow>
        ring_get_node R r k = ring_get_node R r' k)"

definition update_hash_ring :: "'r ring_ops \<Rightarrow> 'r \<Rightarrow> EndpointInfo list \<Rightarrow> 'r" where
  "update_hash_ring R ring eps =
     (let current = remdups (ring_get_nodes R ring);
          new = remdups (urls_of eps);
          ring1 = fold (ring_remove_node R) (filter (\<lambda>n. n \<notin> set new) current) ring
      in fold (ring_add_node R) (filter (\<lambda>n. n \<notin> set current) new) ring1)"

text \<open>\<^verbatim>\<open>extract_session_id\<close>: the header wins over the body field. A body value may be any JSON.\<close>

definition extract_session_id :: "string option \<Rightarrow> headers \<Rightarrow> body \<Rightarrow> json option" where
  "extract_session_id session_key hs b = (case session_key of
     None \<Rightarrow> None
   | Some k \<Rightarrow> (case header_get hs k of
       Some v \<Rightarrow> Some (JStr v)
     | None \<Rightarrow> (case map_of b k of
         None \<Rightarrow> None | Some JNull \<Rightarrow> None | Some v \<Rightarrow> Some v)))"

section \<open>Round robin\<close>

record RoundRobinRouter =
  rr_next_index :: "(url list, int) dict"
  rr_sorted_cache :: "(url set, url list) dict"

definition rr_init :: RoundRobinRouter where
  "rr_init = \<lparr>rr_next_index = [], rr_sorted_cache = []\<rparr>"

definition MAX_CACHE_SIZE :: nat where
  "MAX_CACHE_SIZE = 1024"

definition rr_endpoint_key ::
  "RoundRobinRouter \<Rightarrow> EndpointInfo list \<Rightarrow> url list result \<times> RoundRobinRouter" where
  "rr_endpoint_key s eps =
     (if eps = [] then (Inl (ValueError ''RoundRobinRouter requires at least one endpoint''), s)
      else let urls = set (urls_of eps) in
        case map_of (rr_sorted_cache s) urls of
          Some key \<Rightarrow> (Inr key, s)
        | None \<Rightarrow>
            let cache = (if MAX_CACHE_SIZE \<le> length (rr_sorted_cache s) then []
                         else rr_sorted_cache s);
                key = sort (remdups (urls_of eps))
            in (Inr key, s\<lparr>rr_sorted_cache := dict_set cache urls key\<rparr>))"

definition rr_route ::
  "RoundRobinRouter \<Rightarrow> EndpointInfo list \<Rightarrow> url option result \<times> RoundRobinRouter" where
  "rr_route s eps = (case rr_endpoint_key s eps of
     (Inl e, s1) \<Rightarrow> (Inl e, s1)
   | (Inr key, s1) \<Rightarrow>
       let idx = dict_get (rr_next_index s1) key 0;
           table = (if MAX_CACHE_SIZE \<le> length (rr_next_index s1) \<and>
                       key \<notin> fst ` set (rr_next_index s1)
                    then [] else rr_next_index s1)
       in (Inr (Some (key ! nat (idx mod int (length key)))),
           s1\<lparr>rr_next_index := dict_set table key (idx + 1)\<rparr>))"

section \<open>Session affinity\<close>

record 'r SessionRouter =
  ses_session_key :: string
  ses_hash_ring :: 'r

definition session_init :: "'r ring_ops \<Rightarrow> string option \<Rightarrow> 'r SessionRouter result" where
  "session_init R key = (case key of
     None \<Rightarrow> Inl (ValueError ''SessionRouter must be initialized with a session_key'')
   | Some k \<Rightarrow> Inr \<lparr>ses_session_key = k, ses_hash_ring = ring_empty R\<rparr>)"

definition session_route ::
  "'r ring_ops \<Rightarrow> 'r SessionRouter \<Rightarrow> EndpointInfo list \<Rightarrow> request_stats \<Rightarrow> headers \<Rightarrow> body
     \<Rightarrow> url option result \<times> 'r SessionRouter" where
  "session_route R s eps stats hs b =
     (let sid = extract_session_id (Some (ses_session_key s)) hs b;
          ring = update_hash_ring R (ses_hash_ring s) eps;
          s' = s\<lparr>ses_hash_ring := ring\<rparr>
      in (case sid of
            None \<Rightarrow> Inr (qps_routing eps stats)
          | Some k \<Rightarrow> Inr (ring_get_node R ring k), s'))"

section \<open>Facts about the lowest rate\<close>

lemma qps_loop_result:
  "qps_loop stats eps low ret = Some u \<Longrightarrow> Some u = ret \<or> u \<in> set (urls_of eps)"
  by (induction stats eps low ret rule: qps_loop.induct) (auto split: option.splits if_splits)

lemma qps_loop_Some: "\<exists>u. qps_loop stats eps low (Some r) = Some u"
  by (induction stats eps low "Some r" arbitrary: r rule: qps_loop.induct)
    (auto split: option.split)

lemma qps_routing_in: "qps_routing eps stats = Some u \<Longrightarrow> u \<in> set (urls_of eps)"
  unfolding qps_routing_def by (drule qps_loop_result) simp

lemma qps_routing_total: "eps \<noteq> [] \<Longrightarrow> \<exists>u. qps_routing eps stats = Some u"
  by (cases eps) (auto simp: qps_routing_def qps_loop_Some split: option.split)

text \<open>The result is an engine without statistics, or one of minimal rate among all.\<close>

lemma qps_loop_min:
  assumes "qps_loop stats eps low ret = Some u"
    and "\<And>l. low = Some l \<Longrightarrow> \<exists>r st. ret = Some r \<and> map_of stats r = Some st \<and> st_qps st = l"
    and "low = None \<Longrightarrow> ret = None"
  shows "map_of stats u = None \<or>
    (\<exists>st. map_of stats u = Some st \<and> (\<forall>l. low = Some l \<longrightarrow> st_qps st \<le> l) \<and>
       (\<forall>v \<in> set (urls_of eps). \<exists>st'. map_of stats v = Some st' \<and> st_qps st \<le> st_qps st'))"
  using assms
proof (induction stats eps low ret rule: qps_loop.induct)
  case (1 stats low ret)
  then show ?case by (cases low) auto
next
  case (2 stats e es low ret)
  show ?case
  proof (cases "map_of stats (ep_url e)")
    case None
    then show ?thesis using 2(3) by simp
  next
    case (Some st)
    show ?thesis
    proof (cases "case low of None \<Rightarrow> True | Some l \<Rightarrow> st_qps st < l")
      case True
      have "qps_loop stats es (Some (st_qps st)) (Some (ep_url e)) = Some u"
        using 2(3) Some True by simp
      from 2(1) [OF Some True this] show ?thesis
        using Some True by (fastforce split: option.splits)
    next
      case False
      have "qps_loop stats es low ret = Some u" using 2(3) Some False by simp
      from 2(2) [OF Some False this 2(4,5)] show ?thesis
        using Some False by (fastforce split: option.splits)
    qed
  qed
qed

lemma qps_routing_min:
  assumes "qps_routing eps stats = Some u"
  shows "map_of stats u = None \<or>
    (\<exists>st. map_of stats u = Some st \<and>
       (\<forall>v \<in> set (urls_of eps). \<exists>st'. map_of stats v = Some st' \<and> st_qps st \<le> st_qps st'))"
  using qps_loop_min [of stats eps None None u] assms by (auto simp: qps_routing_def)

section \<open>Facts about the ring\<close>

lemma ring_lawsD:
  assumes "ring_laws R"
  shows "set (ring_get_nodes R (ring_add_node R n r)) = insert n (set (ring_get_nodes R r))"
    and "set (ring_get_nodes R (ring_remove_node R n r)) = set (ring_get_nodes R r) - {n}"
    and "set (ring_get_nodes R r) \<noteq> {} \<Longrightarrow>
           \<exists>n \<in> set (ring_get_nodes R r). ring_get_node R r k = Some n"
    and "set (ring_get_nodes R r) = set (ring_get_nodes R r') \<Longrightarrow>
           ring_get_node R r k = ring_get_node R r' k"
    and "ring_get_nodes R (ring_empty R) = []"
    and "set (ring_get_nodes R r) = {} \<Longrightarrow> ring_get_node R r k = None"
  using assms unfolding ring_laws_def by (blast, blast, blast, blast, blast, blast)

lemma fold_remove_nodes:
  "ring_laws R \<Longrightarrow> set (ring_get_nodes R (fold (ring_remove_node R) ns r)) =
     set (ring_get_nodes R r) - set ns"
  by (induction ns arbitrary: r) (auto simp: ring_lawsD)

lemma fold_add_nodes:
  "ring_laws R \<Longrightarrow> set (ring_get_nodes R (fold (ring_add_node R) ns r)) =
     set (ring_get_nodes R r) \<union> set ns"
  by (induction ns arbitrary: r) (auto simp: ring_lawsD)

lemma update_hash_ring_nodes:
  "ring_laws R \<Longrightarrow> set (ring_get_nodes R (update_hash_ring R r eps)) = set (urls_of eps)"
  by (auto simp: update_hash_ring_def fold_remove_nodes fold_add_nodes)

lemma ring_owner_in:
  assumes "ring_laws R" "eps \<noteq> []"
  shows "\<exists>u \<in> set (urls_of eps). ring_get_node R (update_hash_ring R r eps) k = Some u"
  using ring_lawsD(3) [OF assms(1), of "update_hash_ring R r eps" k] assms
  by (simp add: update_hash_ring_nodes)

lemma ring_owner_sound:
  assumes "ring_laws R" "ring_get_node R (update_hash_ring R r eps) k = Some u"
  shows "u \<in> set (urls_of eps)"
  using ring_owner_in [OF assms(1), of eps r k] ring_lawsD(6) [OF assms(1)] assms
  by (cases "eps = []") (auto simp: update_hash_ring_nodes simp del: set_empty)

lemma ring_owner_stable:
  assumes "ring_laws R" "set (urls_of eps) = set (urls_of eps')"
  shows "ring_get_node R (update_hash_ring R r eps) k = ring_get_node R (update_hash_ring R r' eps') k"
  using assms by (intro ring_lawsD(4)) (simp_all add: update_hash_ring_nodes)

section \<open>The contract of a router\<close>

text \<open>
  What the proxy relies on. The context \<open>'c\<close> is whatever a router reads besides its state
  and the endpoints (statistics, headers, body, answers of external services). A router may
  raise; when it answers, the answer is one of the endpoints it was offered, and it does not
  answer with nothing when it was offered something.
\<close>

locale routing_policy =
  fixes route :: "'s \<Rightarrow> EndpointInfo list \<Rightarrow> 'c \<Rightarrow> url option result \<times> 's"
    and invar :: "'s \<Rightarrow> 'c \<Rightarrow> bool"
  assumes route_sound: "invar s c \<Longrightarrow> route s eps c = (Inr (Some u), s') \<Longrightarrow> u \<in> set (urls_of eps)"
    and route_some: "invar s c \<Longrightarrow> eps \<noteq> [] \<Longrightarrow> fst (route s eps c) \<noteq> Inr None"
    and route_invar: "invar s c \<Longrightarrow> invar (snd (route s eps c)) c"
begin

text \<open>Removing the endpoints that failed keeps the answer off them.\<close>

lemma route_avoids:
  assumes "invar s c" "route s (filter (\<lambda>e. ep_url e \<notin> B) eps) c = (Inr (Some u), s')"
  shows "u \<in> set (urls_of eps) \<and> u \<notin> B"
  using route_sound [OF assms] by auto

end

text \<open>Routers that always answer when there is an endpoint.\<close>

locale total_routing_policy = routing_policy +
  assumes route_total: "invar s c \<Longrightarrow> eps \<noteq> [] \<Longrightarrow> \<exists>u s'. route s eps c = (Inr (Some u), s')"
begin

lemma route_answer:
  assumes "invar s c" "eps \<noteq> []"
  shows "\<exists>u s'. route s eps c = (Inr (Some u), s') \<and> u \<in> set (urls_of eps) \<and> invar s' c"
  using route_total [OF assms] route_sound [OF assms(1)] route_invar [OF assms(1), of eps] by fastforce

end

subsection \<open>Round robin keeps it\<close>

text \<open>Both tables stay bounded, cached keys are the sorted URL sets, and indices are natural.\<close>

definition rr_ok :: "RoundRobinRouter \<Rightarrow> bool" where
  "rr_ok s \<longleftrightarrow>
     length (rr_sorted_cache s) \<le> MAX_CACHE_SIZE \<and> length (rr_next_index s) \<le> MAX_CACHE_SIZE \<and>
     (\<forall>us key. map_of (rr_sorted_cache s) us = Some key \<longrightarrow>
        sorted key \<and> distinct key \<and> set key = us) \<and>
     (\<forall>key i. map_of (rr_next_index s) key = Some i \<longrightarrow> 0 \<le> i)"

lemma length_dict_set:
  "length (dict_set d k v) = (if k \<in> fst ` set d then length d else Suc (length d))"
  by (induction d) auto

lemma map_of_in_keys: "map_of d k = Some v \<Longrightarrow> k \<in> fst ` set d"
  by (force dest: map_of_SomeD)

lemma rr_ok_init: "rr_ok rr_init"
  by (simp add: rr_ok_def rr_init_def)

definition rr_key :: "EndpointInfo list \<Rightarrow> url list" where
  "rr_key eps = sort (remdups (urls_of eps))"

lemma rr_key_props [simp]:
  "sorted (rr_key eps)" "distinct (rr_key eps)" "set (rr_key eps) = set (urls_of eps)"
  by (simp_all add: rr_key_def)

lemma rr_key_empty_iff [simp]: "rr_key eps = [] \<longleftrightarrow> eps = []"
  by (metis rr_key_props(3) set_empty list.map_disc_iff)

text \<open>The cached key is the key that would have been computed.\<close>

lemma rr_endpoint_key_value:
  assumes "rr_ok s" "eps \<noteq> []"
  shows "fst (rr_endpoint_key s eps) = Inr (rr_key eps)"
proof -
  have "key = rr_key eps" if "map_of (rr_sorted_cache s) (set (urls_of eps)) = Some key" for key
  proof -
    have "sorted key" "distinct key" "set key = set (rr_key eps)"
      using assms(1) that by (auto simp: rr_ok_def)
    then show ?thesis by (intro sorted_distinct_set_unique) simp_all
  qed
  then show ?thesis
    using assms(2) by (auto simp: rr_endpoint_key_def rr_key_def split: option.split)
qed

lemma rr_endpoint_key_ok:
  assumes "rr_ok s"
  shows "rr_ok (snd (rr_endpoint_key s eps))"
    and "rr_next_index (snd (rr_endpoint_key s eps)) = rr_next_index s"
proof -
  show "rr_next_index (snd (rr_endpoint_key s eps)) = rr_next_index s"
    by (simp add: rr_endpoint_key_def split: option.split)
  have "length (dict_set d us key) \<le> MAX_CACHE_SIZE"
    if "d = (if MAX_CACHE_SIZE \<le> length (rr_sorted_cache s) then [] else rr_sorted_cache s)"
    for d us key
    using that by (auto simp: length_dict_set MAX_CACHE_SIZE_def)
  then show "rr_ok (snd (rr_endpoint_key s eps))"
    using assms by (auto simp: rr_ok_def rr_endpoint_key_def split: option.split)
qed

text \<open>One request: the answer and the new index.\<close>

lemma rr_route_step:
  assumes "rr_ok s" "eps \<noteq> []"
  defines "i \<equiv> dict_get (rr_next_index s) (rr_key eps) 0"
  shows "\<exists>s'. rr_route s eps = (Inr (Some (rr_key eps ! nat (i mod int (length (rr_key eps))))), s') \<and>
     rr_ok s' \<and> dict_get (rr_next_index s') (rr_key eps) 0 = i + 1 \<and> 0 \<le> i"
proof -
  obtain s1 where s1: "rr_endpoint_key s eps = (Inr (rr_key eps), s1)"
    using rr_endpoint_key_value [OF assms(1,2)] by (metis prod.collapse)
  have ok: "rr_ok s1" "rr_next_index s1 = rr_next_index s"
    using rr_endpoint_key_ok [OF assms(1), of eps] s1 by auto
  have i: "0 \<le> i"
    using assms(1) by (auto simp: i_def rr_ok_def dict_get_def split: option.split)
  define table where "table = (if MAX_CACHE_SIZE \<le> length (rr_next_index s1) \<and>
      rr_key eps \<notin> fst ` set (rr_next_index s1) then [] else rr_next_index s1)"
  define s' where "s' = s1\<lparr>rr_next_index := dict_set table (rr_key eps) (i + 1)\<rparr>"
  have r: "rr_route s eps = (Inr (Some (rr_key eps ! nat (i mod int (length (rr_key eps))))), s')"
    using s1 ok(2) by (simp add: rr_route_def i_def s'_def table_def)
  have "length (dict_set table (rr_key eps) (i + 1)) \<le> MAX_CACHE_SIZE"
    using ok(1) by (auto simp: table_def length_dict_set rr_ok_def MAX_CACHE_SIZE_def)
  then have "rr_ok s'"
    using ok(1) i by (auto simp: rr_ok_def s'_def table_def split: if_splits)
  then show ?thesis using r i by (simp add: s'_def)
qed

lemma rr_route_ok: "rr_ok s \<Longrightarrow> rr_ok (snd (rr_route s eps))"
proof (cases "eps = []")
  case False
  assume "rr_ok s"
  from rr_route_step [OF this False] show ?thesis by (elim exE conjE) simp
qed (simp add: rr_route_def rr_endpoint_key_def)

interpretation round_robin: total_routing_policy "\<lambda>s eps (c::unit). rr_route s eps" "\<lambda>s c. rr_ok s"
proof (unfold_locales, goal_cases)
  case (1 s c eps u s')
  then show ?case
  proof (cases "eps = []")
    case False
    then have "0 < length (rr_key eps)" by simp
    then have "rr_key eps ! nat (i mod int (length (rr_key eps))) \<in> set (rr_key eps)" for i
      by (intro nth_mem) (simp add: nat_less_iff)
    then show ?thesis using rr_route_step [OF 1(1) False] 1(2) by auto
  qed (simp add: rr_route_def rr_endpoint_key_def)
next
  case (2 s c eps)
  then show ?case using rr_route_step [of s eps] by fastforce
next
  case (3 s c eps)
  then show ?case by (rule rr_route_ok)
next
  case (4 s c eps)
  then show ?case using rr_route_step [of s eps] by blast
qed

subsection \<open>Session affinity keeps it\<close>

lemma session_route_ring:
  "session_route R s eps stats hs b = (r, s') \<Longrightarrow>
   ses_hash_ring s' = update_hash_ring R (ses_hash_ring s) eps \<and>
   ses_session_key s' = ses_session_key s"
  by (auto simp: session_route_def)

lemma session_route_answer:
  assumes "ring_laws R" "eps \<noteq> []"
  shows "\<exists>u s'. session_route R s eps stats hs b = (Inr (Some u), s')"
proof (cases "extract_session_id (Some (ses_session_key s)) hs b")
  case None
  then show ?thesis
    using qps_routing_total [OF assms(2), of stats] by (auto simp: session_route_def)
next
  case (Some k)
  then show ?thesis
    using ring_owner_in [OF assms, of "ses_hash_ring s" k] by (auto simp: session_route_def)
qed

interpretation session: total_routing_policy
  "\<lambda>s eps (stats, hs, b). session_route R s eps stats hs b" "\<lambda>s c. ring_laws R" for R
proof (unfold_locales, goal_cases)
  case (1 s c eps u s')
  then show ?case
    using qps_routing_in ring_owner_sound [OF 1(1)]
    by (cases c) (auto simp: session_route_def split: option.splits)
next
  case (2 s c eps)
  then show ?case
    using session_route_answer [of R eps s "fst c" "fst (snd c)" "snd (snd c)"]
    by (auto simp: case_prod_unfold)
next
  case (3 s c eps)
  then show ?case by simp
next
  case (4 s c eps)
  then show ?case using session_route_answer by (simp add: case_prod_unfold)
qed

section \<open>Fairness of round robin\<close>

text \<open>The answers to consecutive requests over one endpoint list, and the state after a history
  of requests over arbitrary endpoint lists.\<close>

fun rr_run :: "RoundRobinRouter \<Rightarrow> EndpointInfo list \<Rightarrow> nat \<Rightarrow> url list" where
  "rr_run s eps 0 = []"
| "rr_run s eps (Suc m) = (case rr_route s eps of
     (Inr (Some u), s') \<Rightarrow> u # rr_run s' eps m
   | (_, s') \<Rightarrow> rr_run s' eps m)"

definition rr_after :: "EndpointInfo list list \<Rightarrow> RoundRobinRouter" where
  "rr_after hist = fold (\<lambda>eps s. snd (rr_route s eps)) hist rr_init"

lemma rr_after_ok: "rr_ok (rr_after hist)"
proof (induction hist rule: rev_induct)
  case Nil
  then show ?case by (simp add: rr_after_def rr_ok_init)
next
  case (snoc eps hist)
  then show ?case
    using round_robin.route_invar [OF snoc, of eps] by (simp add: rr_after_def)
qed

lemma rr_run_answers:
  assumes "rr_ok s" "eps \<noteq> []"
  defines "n \<equiv> length (rr_key eps)"
    and "i \<equiv> nat (dict_get (rr_next_index s) (rr_key eps) 0)"
  shows "rr_run s eps m = map (\<lambda>j. rr_key eps ! ((i + j) mod n)) [0..<m]"
  using assms(1) unfolding i_def
proof (induction m arbitrary: s)
  case (Suc m)
  let ?i = "dict_get (rr_next_index s) (rr_key eps) 0"
  obtain s' where s': "rr_route s eps = (Inr (Some (rr_key eps ! nat (?i mod int n))), s')"
    "rr_ok s'" "dict_get (rr_next_index s') (rr_key eps) 0 = ?i + 1" "0 \<le> ?i"
    using rr_route_step [OF Suc.prems assms(2)] unfolding n_def by blast
  have "nat (?i mod int n) = nat ?i mod n" "nat (?i + 1) = Suc (nat ?i)"
    using s'(4) by (simp_all add: nat_mod_distrib)
  then show ?case
    using s' Suc.IH [OF s'(2)] by (simp add: upt_conv_Cons map_Suc_upt [symmetric] del: upt_Suc)
qed simp

text \<open>How often a residue occurs among consecutive numbers.\<close>

lemma residue_count_from_0:
  assumes "p < n"
  shows "length (filter (\<lambda>x. x mod n = p) [0..<m]) = (m + n - 1 - p) div n"
proof (induction m)
  case (Suc m)
  let ?k = "m + n - 1 - p"
  have k: "Suc m + n - 1 - p = Suc ?k" using assms by simp
  have "Suc ?k mod n = 0 \<longleftrightarrow> m mod n = p"
  proof -
    have "Suc ?k + p = m + n" using assms by simp
    then have "Suc ?k mod n = 0 \<longleftrightarrow> (m + n) mod n = p mod n"
      by (metis add_left_cancel diff_add_inverse2 mod_add_left_eq mod_eq_dvd_iff_nat mod_0_imp_dvd
          dvd_imp_mod_0 le_add2)
    then show ?thesis using assms by simp
  qed
  then show ?case using Suc unfolding k by (simp add: div_Suc)
qed (use assms in simp)

lemma residue_count:
  assumes "p < n"
  shows "length (filter (\<lambda>j. (a + j) mod n = p) [0..<m]) \<in> {m div n, m div n + 1}"
proof -
  let ?c = "n - 1 - p" and ?f = "\<lambda>x. length (filter (\<lambda>x. x mod n = p) [0..<x])"
  have shift: "[a..<a + m] = map (\<lambda>j. a + j) [0..<m]"
    by (simp add: map_add_upt add.commute)
  have "?f (a + m) = ?f a + length (filter (\<lambda>j. (a + j) mod n = p) [0..<m])"
    using upt_add_eq_append [of 0 a m] by (simp add: shift filter_map comp_def)
  moreover have "?f x = (x + ?c) div n" for x
    using residue_count_from_0 [OF assms, of x] assms by simp
  ultimately have "(a + m + ?c) div n = (a + ?c) div n +
      length (filter (\<lambda>j. (a + j) mod n = p) [0..<m])"
    by metis
  moreover have "(a + m + ?c) div n = (a + ?c) div n + m div n + ((a + ?c) mod n + m mod n) div n"
    using div_add1_eq [of "a + ?c" m n] by (simp add: ac_simps)
  moreover have "((a + ?c) mod n + m mod n) div n \<in> {0, 1}"
  proof -
    have "(a + ?c) mod n < n" "m mod n < n" using assms by simp_all
    then have "((a + ?c) mod n + m mod n) div n < 2"
      by (intro less_mult_imp_div_less) linarith
    then show ?thesis by auto
  qed
  ultimately show ?thesis by auto
qed

lemma count_list_map_nth:
  assumes "distinct key" "p < length key" "\<And>j. f j < length key"
  shows "count_list (map (\<lambda>j. key ! f j) js) (key ! p) = length (filter (\<lambda>j. f j = p) js)"
  using assms by (induction js) (auto simp: nth_eq_iff_index_eq)

section \<open>Properties\<close>

text \<open>C18. Round robin is fair: after any history of requests over any endpoint lists, \<open>m\<close> consecutive
  requests over one list send each of its \<open>n\<close> URLs either \<open>m div n\<close> or \<open>m div n + 1\<close>
  requests, so any two engines differ by at most one.\<close>

theorem round_robin_fair:
  assumes "u \<in> set (urls_of eps)"
  shows "let n = card (set (urls_of eps)); c = count_list (rr_run (rr_after hist) eps m) u
         in c = m div n \<or> c = m div n + 1"
proof -
  let ?n = "length (rr_key eps)"
  let ?i = "nat (dict_get (rr_next_index (rr_after hist)) (rr_key eps) 0)"
  have eps: "eps \<noteq> []" using assms by auto
  have n: "?n = card (set (urls_of eps))" using distinct_card [OF rr_key_props(2), of eps] by simp
  obtain p where p: "p < ?n" "u = rr_key eps ! p"
    using assms by (metis in_set_conv_nth rr_key_props(3))
  have "count_list (rr_run (rr_after hist) eps m) u =
      length (filter (\<lambda>j. (?i + j) mod ?n = p) [0..<m])"
    unfolding rr_run_answers [OF rr_after_ok eps] p(2)
    using p(1) by (intro count_list_map_nth) (simp_all add: eps)
  then show ?thesis using residue_count [OF p(1), of ?i m] n by auto
qed

definition ep_example :: "url \<Rightarrow> EndpointInfo" where
  "ep_example u = \<lparr>ep_url = u, model_names = [''m''], ep_Id = ''id'', added_timestamp = 0,
     model_label = None, sleep = False, healthy = True, pod_name = None, service_name = None,
     ep_namespace = None, model_info = None\<rparr>"

lemma ep_example_url [simp]: "ep_url (ep_example u) = u"
  by (simp add: ep_example_def)

theorem round_robin_fair_witness:
  "let c = count_list (rr_run (rr_after [[ep_example ''a'']]) [ep_example ''a'', ep_example ''b''] 5) ''a''
   in c = 2 \<or> c = 3"
  using round_robin_fair [of "''a''" "[ep_example ''a'', ep_example ''b'']" "[[ep_example ''a'']]" 5]
  by (simp flip: numeral_2_eq_2)

text \<open>Round robin's memory is bounded: whatever endpoint sets come and go, neither its index table
  nor its cache of sorted keys ever has more than 1024 entries.\<close>

theorem round_robin_tables_bounded:
  "length (rr_next_index (rr_after hist)) \<le> MAX_CACHE_SIZE \<and>
   length (rr_sorted_cache (rr_after hist)) \<le> MAX_CACHE_SIZE"
  using rr_after_ok [of hist] by (simp add: rr_ok_def)

text \<open>C23. Sessions stick: over a hash ring with its documented behaviour, two requests with the same
  session id are sent to the same engine whenever the sets of engine URLs are the same, whatever
  the router routed in between, and that engine is one of those offered.\<close>

theorem session_affinity:
  assumes "ring_laws R" "eps \<noteq> []" "set (urls_of eps) = set (urls_of eps')"
    and "extract_session_id (Some (ses_session_key s)) hs b = Some sid"
    and "extract_session_id (Some (ses_session_key s')) hs' b' = Some sid"
  shows "\<exists>u \<in> set (urls_of eps).
     fst (session_route R s eps stats hs b) = Inr (Some u) \<and>
     fst (session_route R s' eps' stats' hs' b') = Inr (Some u)"
  using ring_owner_in [OF assms(1,2), of "ses_hash_ring s" sid]
    ring_owner_stable [OF assms(1,3), of "ses_hash_ring s" sid "ses_hash_ring s'"] assms(4,5)
  by (auto simp: session_route_def)

text \<open>A ring that gives every key to its first node in alphabetical order.\<close>

definition first_ring :: "string list ring_ops" where
  "first_ring = \<lparr>ring_empty = [], ring_get_nodes = (\<lambda>r. r), ring_add_node = (#),
     ring_remove_node = (\<lambda>n. filter (\<lambda>x. x \<noteq> n)),
     ring_get_node = (\<lambda>r k. if r = [] then None else Some (Min (set r)))\<rparr>"

lemma first_ring_laws: "ring_laws first_ring"
  by (auto simp: ring_laws_def first_ring_def)

theorem session_affinity_witness:
  "\<exists>u. fst (session_route first_ring \<lparr>ses_session_key = ''X-S'', ses_hash_ring = []\<rparr>
       [ep_example ''a'', ep_example ''b''] [] [(''x-s'', ''7'')] []) = Inr (Some u) \<and>
     fst (session_route first_ring \<lparr>ses_session_key = ''X-S'', ses_hash_ring = [''c'']\<rparr>
       [ep_example ''b'', ep_example ''a''] [] [] [(''X-S'', JStr ''7'')]) = Inr (Some u)"
proof -
  have "extract_session_id (Some ''X-S'') [(''x-s'', ''7'')] [] = Some (JStr ''7'')"
    "extract_session_id (Some ''X-S'') [] [(''X-S'', JStr ''7'')] = Some (JStr ''7'')"
    by code_simp+
  then show ?thesis
    using session_affinity [OF first_ring_laws, of "[ep_example ''a'', ep_example ''b'']"
        "[ep_example ''b'', ep_example ''a'']" "\<lparr>ses_session_key = ''X-S'', ses_hash_ring = []\<rparr>"
        "[(''x-s'', ''7'')]" "[]" "JStr ''7''"
        "\<lparr>ses_session_key = ''X-S'', ses_hash_ring = [''c'']\<rparr>" "[]" "[(''X-S'', JStr ''7'')]" "[]" "[]"]
    by auto
qed

text \<open>The rate-based fallback balances: on a non-empty endpoint list it answers with an offered
  engine that has no statistics yet, or with one whose rate is minimal among all of them.\<close>

theorem qps_routing_is_minimal:
  assumes "eps \<noteq> []"
  shows "\<exists>u \<in> set (urls_of eps). qps_routing eps stats = Some u \<and>
    (map_of stats u = None \<or>
     (\<exists>st. map_of stats u = Some st \<and>
        (\<forall>v \<in> set (urls_of eps). \<exists>st'. map_of stats v = Some st' \<and> st_qps st \<le> st_qps st')))"
  using qps_routing_total [OF assms, of stats] qps_routing_in qps_routing_min by blast

theorem qps_routing_is_minimal_witness:
  "\<exists>u. qps_routing [ep_example ''a'', ep_example ''b''] [] = Some u \<and> (u = ''a'' \<or> u = ''b'')"
  using qps_routing_is_minimal [of "[ep_example ''a'', ep_example ''b'']" "[]"]
  by auto

end
