(* ===== verification/Backend.thy ===== *)
theory Backend
  imports Routing_Base
begin

text \<open>
  What the proxy says to a backend and about a failed one: the client timeouts of
  \<^verbatim>\<open>src/src/vllm_router/aiohttp_client.py\<close> and the header filters and error envelopes of
  \<^verbatim>\<open>src/src/vllm_router/services/request_service/request.py\<close>. Python's \<^verbatim>\<open>:g\<close> float format is a
  parameter of the messages that use it.
\<close>

section \<open>Timeouts\<close>

text \<open>\<open>None\<close> is an unset bound; the total bound is never set.\<close>

record ClientTimeout =
  to_connect :: "real option"
  to_sock_connect :: "real option"
  to_sock_read :: "real option"

definition positive_bound :: "real option \<Rightarrow> real option" where
  "positive_bound b = (case b of None \<Rightarrow> None | Some x \<Rightarrow> if 0 < x then Some x else None)"

definition build_backend_client_timeout :: "real option \<Rightarrow> real option \<Rightarrow> ClientTimeout" where
  "build_backend_client_timeout connect_timeout read_timeout =
     \<lparr>to_connect = positive_bound connect_timeout, to_sock_connect = positive_bound connect_timeout,
      to_sock_read = positive_bound read_timeout\<rparr>"

definition backend_entry_deadline :: "ClientTimeout \<Rightarrow> real option" where
  "backend_entry_deadline t = (case to_sock_read t of
     None \<Rightarrow> None
   | Some r \<Rightarrow>
       if r \<le> 0 then None
       else (case to_sock_connect t of
               None \<Rightarrow> Some r
             | Some c \<Rightarrow> if 0 < c then Some (r + c) else Some r))"

definition DEFAULT_BACKEND_CLIENT_TIMEOUT :: ClientTimeout where
  "DEFAULT_BACKEND_CLIENT_TIMEOUT = build_backend_client_timeout (Some 10) (Some 300)"

definition resolve_backend_client_timeout :: "ClientTimeout option \<Rightarrow> ClientTimeout" where
  "resolve_backend_client_timeout t =
     (case t of None \<Rightarrow> DEFAULT_BACKEND_CLIENT_TIMEOUT | Some t \<Rightarrow> t)"

definition format_bound :: "(real \<Rightarrow> string) \<Rightarrow> real option \<Rightarrow> string" where
  "format_bound fmt_g b = (case b of
     None \<Rightarrow> ''the configured bound''
   | Some x \<Rightarrow> if 0 < x then fmt_g x @ ''s'' else ''the configured bound'')"

section \<open>Failures of a backend call\<close>

text \<open>
  The exceptions a backend call ends with, by the classes the proxy distinguishes.
  \<open>ConnTimeout\<close> is \<^verbatim>\<open>ConnectionTimeoutError\<close> (also a \<^verbatim>\<open>TimeoutError\<close>), \<open>ConnError\<close> is
  \<^verbatim>\<open>ClientConnectorError\<close>, \<open>ReadTimeout\<close> any other \<^verbatim>\<open>ServerTimeoutError\<close>, \<open>EntryTimeout\<close> the
  plain \<^verbatim>\<open>TimeoutError\<close> of the entry deadline, and \<open>Cancelled\<close> a cancellation, which is no
  \<^verbatim>\<open>Exception\<close>; its flag says that the entry deadline had expired.
\<close>

datatype backend_exn =
    ConnTimeout
  | ConnError
  | ReadTimeout
  | EntryTimeout
  | OtherExn py_exn
  | Cancelled bool

fun is_connect_error :: "backend_exn \<Rightarrow> bool" where
  "is_connect_error ConnTimeout = True"
| "is_connect_error ConnError = True"
| "is_connect_error _ = False"

fun is_timeout_error :: "backend_exn \<Rightarrow> bool" where
  "is_timeout_error ConnTimeout = True"
| "is_timeout_error ReadTimeout = True"
| "is_timeout_error EntryTimeout = True"
| "is_timeout_error _ = False"

section \<open>Responses\<close>

datatype response =
    JSONResponse (resp_status: int) (resp_content: json) (resp_headers: headers)

definition backend_error_response :: "string \<Rightarrow> int \<Rightarrow> string \<Rightarrow> string \<Rightarrow> string \<Rightarrow> response" where
  "backend_error_response request_id status_code error_type code message =
     JSONResponse status_code
       (JObj [(''error'', JObj [(''message'', JStr message), (''type'', JStr error_type),
                               (''code'', JStr code), (''param'', JNull)])])
       [(''X-Request-Id'', request_id), (''Retry-After'', ''1'')]"

definition pre_header_timeout_response ::
  "(real \<Rightarrow> string) \<Rightarrow> string \<Rightarrow> ClientTimeout \<Rightarrow> backend_exn \<Rightarrow> response" where
  "pre_header_timeout_response fmt_g request_id t e =
     (case e of
        ReadTimeout \<Rightarrow>
          backend_error_response request_id 504 ''gateway_timeout'' ''backend_read_timeout''
            (''Upstream LLM backend timed out after '' @ format_bound fmt_g (to_sock_read t) @
             '' with no data received. The request was not completed and may be safely retried.'')
      | ConnTimeout \<Rightarrow>
          backend_error_response request_id 504 ''gateway_timeout'' ''backend_read_timeout''
            (''Upstream LLM backend timed out after '' @ format_bound fmt_g (to_sock_read t) @
             '' with no data received. The request was not completed and may be safely retried.'')
      | _ \<Rightarrow>
          backend_error_response request_id 504 ''gateway_timeout'' ''backend_entry_timeout''
            (''Upstream LLM backend timed out after '' @
             format_bound fmt_g (backend_entry_deadline t) @
             '' before returning response headers. The request was not completed and may be safely retried.''))"

definition backend_connect_error_response :: "string \<Rightarrow> response" where
  "backend_connect_error_response request_id =
     backend_error_response request_id 502 ''bad_gateway'' ''backend_connect_error''
       (''Could not establish a connection to the upstream LLM backend within '' @
        ''the permitted failover attempts. The request was not completed and '' @
        ''may be safely retried.'')"

text \<open>The two server-sent events that close a stalled stream; the payload is kept as JSON.\<close>

datatype sse_frame = DataFrame json | DoneFrame

definition sse_stall_frames :: "(real \<Rightarrow> string) \<Rightarrow> ClientTimeout \<Rightarrow> sse_frame list" where
  "sse_stall_frames fmt_g t =
     [DataFrame (JObj [(''error'', JObj
        [(''message'', JStr (''Upstream backend stalled mid-stream (read gap exceeded '' @
            format_bound fmt_g (to_sock_read t) @ ''). Partial output above is incomplete.'')),
         (''type'', JStr ''gateway_timeout''), (''code'', JStr ''backend_stream_stall'')])]),
      DoneFrame]"

text \<open>\<^verbatim>\<open>_is_json_media_type\<close>: the part before the first semicolon.\<close>

definition is_json_media_type :: "string \<Rightarrow> bool" where
  "is_json_media_type content_type =
     (let media = str_lower (str_strip (takeWhile (\<lambda>c. c \<noteq> CHR '';'') content_type))
      in media = ''application/json'' \<or> endswith media ''+json'')"

section \<open>Headers\<close>

definition HOP_BY_HOP_HEADERS :: "string set" where
  "HOP_BY_HOP_HEADERS = {''host'', ''connection'', ''keep-alive'', ''proxy-connection'',
     ''transfer-encoding'', ''content-length'', ''upgrade'', ''te'', ''trailer''}"

definition HEADERS_TO_STRIP_FROM_RESPONSE :: "string set" where
  "HEADERS_TO_STRIP_FROM_RESPONSE =
     {''content-length'', ''content-encoding'', ''transfer-encoding'', ''connection'', ''server''}"

definition keep_request_header :: "bool \<Rightarrow> string \<Rightarrow> bool" where
  "keep_request_header include_content_type key =
     (let k = str_lower key in
      k \<notin> HOP_BY_HOP_HEADERS \<and> \<not> (\<not> include_content_type \<and> k = ''content-type'') \<and>
      k \<noteq> ''x-request-id'')"

definition build_backend_request_headers :: "headers \<Rightarrow> string \<Rightarrow> bool \<Rightarrow> headers" where
  "build_backend_request_headers hs request_id include_content_type =
     dict_set
       (fold (\<lambda>(k, v) d. if keep_request_header include_content_type k then dict_set d k v else d)
          hs [])
       ''X-Request-Id'' request_id"

text \<open>The headers of a proxied response: those of the backend that may pass, and the request id.\<close>

definition response_headers_of :: "headers \<Rightarrow> string \<Rightarrow> headers" where
  "response_headers_of hs request_id =
     dict_set
       (fold (\<lambda>(k, v) d.
           if str_lower k \<notin> HEADERS_TO_STRIP_FROM_RESPONSE \<and> str_lower k \<noteq> ''content-type''
           then dict_set d k v else d) hs [])
       ''X-Request-Id'' request_id"

section \<open>Facts\<close>

lemma build_timeout_positive:
  "to_connect (build_backend_client_timeout c r) = Some x \<Longrightarrow> 0 < x"
  "to_sock_connect (build_backend_client_timeout c r) = Some x \<Longrightarrow> 0 < x"
  "to_sock_read (build_backend_client_timeout c r) = Some x \<Longrightarrow> 0 < x"
  by (auto simp: build_backend_client_timeout_def positive_bound_def split: option.splits if_splits)

lemma fold_filter_keys:
  "fst ` set (fold (\<lambda>(k, v) d. if P k then dict_set d k v else d) hs d) =
     fst ` set d \<union> {k \<in> fst ` set hs. P k}"
proof (induction hs arbitrary: d)
  case (Cons p hs)
  obtain a b where "p = (a, b)" by fastforce
  then show ?case using Cons by (cases "P a") auto
qed simp

lemma fold_filter_other:
  "k \<notin> fst ` set hs \<Longrightarrow>
   map_of (fold (\<lambda>(k, v) d. if P k then dict_set d k v else d) hs d) k = map_of d k"
  by (induction hs arbitrary: d) auto

lemma fold_filter_value:
  "distinct (keys hs) \<Longrightarrow> P k \<Longrightarrow> map_of hs k = Some v \<Longrightarrow>
   map_of (fold (\<lambda>(k, v) d. if P k then dict_set d k v else d) hs d) k = Some v"
proof (induction hs arbitrary: d)
  case (Cons p hs)
  then show ?case by (cases p) (auto simp: fold_filter_other split: if_splits)
qed simp

lemma backend_request_header_keys:
  "fst ` set (build_backend_request_headers hs rid ct) =
     insert ''X-Request-Id'' {k \<in> fst ` set hs. keep_request_header ct k}"
  by (simp add: build_backend_request_headers_def fold_filter_keys)

lemma distinct_fold_filter:
  "distinct (keys d) \<Longrightarrow>
   distinct (keys (fold (\<lambda>(k, v) d. if P k then dict_set d k v else d) hs d))"
  by (induction hs arbitrary: d) auto

lemma keep_request_header_id: "\<not> keep_request_header ct ''X-Request-Id''"
proof -
  have "str_lower ''X-Request-Id'' = ''x-request-id''" by code_simp
  then show ?thesis by (simp add: keep_request_header_def)
qed

lemma backend_request_headers_distinct: "distinct (keys (build_backend_request_headers hs rid ct))"
  by (simp add: build_backend_request_headers_def distinct_fold_filter)

section \<open>Properties\<close>

text \<open>Requests to a backend are sanitised: no forwarded header is a hop-by-hop header, under any
  spelling; the only request-id header is the one the router set, with the router's id; and every
  other header of the client reaches the backend unchanged.\<close>

theorem backend_headers_sanitised:
  assumes "distinct (keys hs)"
  shows "(\<forall>(k, v) \<in> set (build_backend_request_headers hs rid True).
            str_lower k \<notin> HOP_BY_HOP_HEADERS \<and>
            (str_lower k = ''x-request-id'' \<longrightarrow> k = ''X-Request-Id'' \<and> v = rid)) \<and>
         map_of (build_backend_request_headers hs rid True) ''X-Request-Id'' = Some rid \<and>
         (\<forall>k v. map_of hs k = Some v \<longrightarrow> str_lower k \<notin> HOP_BY_HOP_HEADERS \<longrightarrow>
            str_lower k \<noteq> ''x-request-id'' \<longrightarrow>
            map_of (build_backend_request_headers hs rid True) k = Some v)"
proof (intro conjI ballI allI impI)
  let ?out = "build_backend_request_headers hs rid True"
  have x: "str_lower ''X-Request-Id'' = ''x-request-id''" by code_simp
  have hop: "''x-request-id'' \<notin> HOP_BY_HOP_HEADERS" by (simp add: HOP_BY_HOP_HEADERS_def)
  show id: "map_of ?out ''X-Request-Id'' = Some rid"
    by (simp add: build_backend_request_headers_def)
  show "map_of ?out k = Some v"
    if "map_of hs k = Some v" "str_lower k \<notin> HOP_BY_HOP_HEADERS" "str_lower k \<noteq> ''x-request-id''" for k v
    using that x fold_filter_value [OF assms, of "keep_request_header True" k v "[]"]
    by (auto simp: build_backend_request_headers_def keep_request_header_def)
  fix p assume p: "p \<in> set ?out"
  obtain k v where kv: "p = (k, v)" by fastforce
  have "k \<in> fst ` set ?out" using p kv by force
  then have "k = ''X-Request-Id'' \<or> keep_request_header True k"
    by (auto simp: backend_request_header_keys)
  moreover have "k = ''X-Request-Id'' \<Longrightarrow> v = rid"
    using p kv id backend_request_headers_distinct [of hs rid True] by (auto simp: map_of_eq_Some_iff)
  ultimately show "case p of (k, v) \<Rightarrow> str_lower k \<notin> HOP_BY_HOP_HEADERS \<and>
      (str_lower k = ''x-request-id'' \<longrightarrow> k = ''X-Request-Id'' \<and> v = rid)"
    using x hop by (auto simp: kv keep_request_header_def)
qed

theorem backend_headers_sanitised_witness:
  "map_of (build_backend_request_headers
     [(''Accept'', ''*/*''), (''Connection'', ''close''), (''x-request-id'', ''theirs'')] ''ours'' True)
     ''Accept'' = Some ''*/*''"
proof -
  let ?hs = "[(''Accept'', ''*/*''), (''Connection'', ''close''), (''x-request-id'', ''theirs'')]"
  have "str_lower ''Accept'' = ''accept''" by code_simp
  then show ?thesis
    using backend_headers_sanitised [of ?hs "''ours''"] by (simp add: HOP_BY_HOP_HEADERS_def)
qed

text \<open>The entry deadline closes the gap between the two socket bounds: with the timeouts the router
  builds it exists exactly when the read bound is enabled, and then it is the read bound plus the
  connect bound if that one is enabled.\<close>

theorem entry_deadline_exact:
  "backend_entry_deadline (build_backend_client_timeout c r) =
     (case positive_bound r of
        None \<Rightarrow> None
      | Some x \<Rightarrow> Some (x + (case positive_bound c of None \<Rightarrow> 0 | Some y \<Rightarrow> y)))"
  by (auto simp: backend_entry_deadline_def build_backend_client_timeout_def positive_bound_def
      split: option.split)

end
