(* ===== verification/Attempt.thy ===== *)
theory Attempt
  imports Backend
begin

text \<open>
  One attempt against one backend: the asynchronous generator \<^verbatim>\<open>process_request\<close> of
  \<^verbatim>\<open>src/src/vllm_router/services/request_service/request.py\<close>. The generator is cut at its first
  yield: \<open>attempt_start\<close> runs up to the response headers, \<open>attempt_rest\<close> streams the body to a
  consumer that may close the generator at any yield. The backend's behaviour and the clock
  readings are inputs. A body is represented by what \<^verbatim>\<open>json.loads\<close> makes of it.
\<close>

section \<open>Bodies\<close>

text \<open>A request or response body: the JSON value it parses to, or not JSON.\<close>

datatype payload = JsonText json | NotJson

fun json_loads :: "payload \<Rightarrow> json option" where
  "json_loads (JsonText j) = Some j"
| "json_loads NotJson = None"

definition json_dumps :: "json \<Rightarrow> payload" where
  "json_dumps j = JsonText j"

section \<open>Token accounting\<close>

text \<open>\<^verbatim>\<open>key in usage\<close> and \<^verbatim>\<open>usage[key]\<close> for any JSON value.\<close>

fun json_contains :: "json \<Rightarrow> string \<Rightarrow> bool result" where
  "json_contains (JObj d) k = Inr (k \<in> fst ` set d)"
| "json_contains (JList l) k = Inr (JStr k \<in> set l)"
| "json_contains (JStr s) k = Inr (contains_str s k)"
| "json_contains _ k = Inl (TypeError ''argument is not iterable'')"

fun json_index :: "json \<Rightarrow> string \<Rightarrow> json result" where
  "json_index (JObj d) k = (case map_of d k of None \<Rightarrow> Inl (KeyError k) | Some v \<Rightarrow> Inr v)"
| "json_index (JList l) k = Inl (TypeError ''list indices must be integers or slices'')"
| "json_index (JStr s) k = Inl (TypeError ''string indices must be integers'')"
| "json_index _ k = Inl (TypeError ''object is not subscriptable'')"

text \<open>\<^verbatim>\<open>Counter.inc\<close> takes a non-negative number; it raises \<^verbatim>\<open>ValueError\<close> below zero.\<close>

fun counter_inc :: "json \<Rightarrow> real result" where
  "counter_inc (JInt i) = (if i < 0 then Inl (ValueError ''counter'') else Inr (real_of_int i))"
| "counter_inc (JFloat r) = (if r < 0 then Inl (ValueError ''counter'') else Inr r)"
| "counter_inc (JBool b) = Inr (of_bool b)"
| "counter_inc _ = Inl (TypeError ''counter'')"

definition track_key :: "json \<Rightarrow> string \<Rightarrow> real option result" where
  "track_key usage k = result_bind (json_contains usage k) (\<lambda>c.
     if c then result_bind (json_index usage k) (\<lambda>v. result_bind (counter_inc v) (\<lambda>n. Inr (Some n)))
     else Inr None)"

fun json_get_usage :: "json \<Rightarrow> json result" where
  "json_get_usage (JObj d) = Inr (dict_get d ''usage'' (JObj []))"
| "json_get_usage _ = Inl (AttributeError ''get'')"

text \<open>
  The token-tracking block of a non-streaming response. \<^verbatim>\<open>ValueError\<close> (which covers a body
  that is not JSON) is swallowed; other exceptions leave the block.
\<close>

definition track_tokens :: "payload \<Rightarrow> unit result" where
  "track_tokens body = (case json_loads body of
     None \<Rightarrow> Inr ()
   | Some j \<Rightarrow>
      (case result_bind (json_get_usage j) (\<lambda>usage.
              result_bind (track_key usage ''prompt_tokens'') (\<lambda>_.
              result_bind (track_key usage ''completion_tokens'') (\<lambda>_. Inr ()))) of
         Inr _ \<Rightarrow> Inr ()
       | Inl (ValueError s) \<Rightarrow> Inr ()
       | Inl x \<Rightarrow> Inl x))"

section \<open>Outcomes\<close>

datatype terminal_outcome = OutComplete | OutFail | OutAbort

text \<open>The \<^verbatim>\<open>finally\<close> block: the hook named by the outcome.\<close>

fun terminal_hook ::
  "terminal_outcome \<Rightarrow> RequestStatsMonitor \<Rightarrow> RequestHandle \<Rightarrow> time \<Rightarrow> unit result \<times> RequestStatsMonitor" where
  "terminal_hook OutComplete m h t = on_request_complete m h t"
| "terminal_hook OutFail m h t = on_request_fail m h t"
| "terminal_hook OutAbort m h t = on_request_abort m h t"

text \<open>The two exception handlers: a cancellation is an abort unless the entry deadline expired.\<close>

fun outcome_of_exn :: "backend_exn \<Rightarrow> terminal_outcome" where
  "outcome_of_exn (Cancelled expired) = (if expired then OutFail else OutAbort)"
| "outcome_of_exn _ = OutFail"

section \<open>Up to the response headers\<close>

datatype entry = EntryOk int headers | EntryRaises backend_exn

record attempt_env =
  ae_start_time :: time
  ae_fail_time :: time
  ae_entry :: entry

datatype start_result =
    Started RequestHandle bool int headers
  | StartHttp py_exn
  | StartRaised backend_exn

definition attempt_start ::
  "RequestStatsMonitor \<Rightarrow> payload \<Rightarrow> url \<Rightarrow> string \<Rightarrow> attempt_env \<Rightarrow> start_result \<times> RequestStatsMonitor" where
  "attempt_start m body url request_id env = (case json_loads body of
     None \<Rightarrow> (StartHttp (HTTPException 400 ''Request body is not JSON parsable.''), m)
   | Some (JObj d) \<Rightarrow>
       let is_streaming = py_truthy (dict_get d ''stream'' (JBool False));
           (h, m1) = on_new_request m url request_id (ae_start_time env)
       in (case ae_entry env of
             EntryOk status hs \<Rightarrow> (Started h is_streaming status hs, m1)
           | EntryRaises x \<Rightarrow>
               (StartRaised x, snd (terminal_hook (outcome_of_exn x) m1 h (ae_fail_time env))))
   | Some _ \<Rightarrow> (StartRaised (OtherExn (AttributeError ''get'')), m))"

section \<open>Streaming the body\<close>

text \<open>
  What the backend sends after the headers: chunks, then the end of the body or an exception.
  \<open>bd_full\<close> is the concatenation of the chunks as a body. The consumer takes everything, or
  closes the generator after it has received the given number of chunks.
\<close>

record body_script =
  bd_chunks :: "string list"
  bd_end :: "backend_exn option"
  bd_content_type :: string
  bd_full :: payload
  bd_token_time :: time
  bd_end_time :: time

datatype item = Chunk string | Frame sse_frame

datatype stream_end = Exhausted | Raised backend_exn | Closed

text \<open>\<^verbatim>\<open>on_request_response\<close> is called at the first chunk.\<close>

definition note_first_token ::
  "RequestStatsMonitor \<Rightarrow> RequestHandle \<Rightarrow> body_script \<Rightarrow> nat \<Rightarrow> RequestStatsMonitor" where
  "note_first_token m h b delivered =
     (if delivered = 0 then m else on_request_response m h (bd_token_time b))"

definition is_event_stream :: "string \<Rightarrow> bool" where
  "is_event_stream ct = startswith (str_lower ct) ''text/event-stream''"

text \<open>
  What follows the last chunk: items the generator still yields, how it ends, and the outcome
  it reports. A timeout after the headers of an event stream is turned into two final frames.
\<close>

definition after_chunks ::
  "(real \<Rightarrow> string) \<Rightarrow> ClientTimeout \<Rightarrow> bool \<Rightarrow> body_script \<Rightarrow> item list \<times> stream_end \<times> terminal_outcome" where
  "after_chunks fmt_g timeout is_streaming b = (case bd_end b of
     Some x \<Rightarrow>
       if is_timeout_error x \<and> is_event_stream (bd_content_type b)
       then (map Frame (sse_stall_frames fmt_g timeout), Exhausted, outcome_of_exn x)
       else ([], Raised x, outcome_of_exn x)
   | None \<Rightarrow>
       if \<not> is_streaming \<and> concat (bd_chunks b) \<noteq> []
       then (case track_tokens (bd_full b) of
               Inr _ \<Rightarrow> ([], Exhausted, OutComplete)
             | Inl x \<Rightarrow> ([], Raised (OtherExn x), OutFail))
       else ([], Exhausted, OutComplete))"

definition attempt_yields ::
  "(real \<Rightarrow> string) \<Rightarrow> ClientTimeout \<Rightarrow> bool \<Rightarrow> body_script \<Rightarrow> nat option
     \<Rightarrow> item list \<times> stream_end \<times> terminal_outcome" where
  "attempt_yields fmt_g timeout is_streaming b closes_after =
     (let n = length (bd_chunks b);
          (frames, e, out) = after_chunks fmt_g timeout is_streaming b
      in case closes_after of
           None \<Rightarrow> (map Chunk (bd_chunks b) @ frames, e, out)
         | Some k \<Rightarrow>
             if k \<le> n then (map Chunk (take k (bd_chunks b)), Closed, OutAbort)
             else (map Chunk (bd_chunks b) @ take (k - n) frames,
                   if k - n \<le> length frames then Closed else e, out))"

definition attempt_rest ::
  "(real \<Rightarrow> string) \<Rightarrow> ClientTimeout \<Rightarrow> RequestStatsMonitor \<Rightarrow> RequestHandle \<Rightarrow> bool \<Rightarrow> body_script
     \<Rightarrow> nat option \<Rightarrow> (item list \<times> stream_end \<times> terminal_outcome) \<times> RequestStatsMonitor" where
  "attempt_rest fmt_g timeout m h is_streaming b closes_after =
     (let (items, e, out) = attempt_yields fmt_g timeout is_streaming b closes_after;
          delivered = (case closes_after of
            None \<Rightarrow> length (bd_chunks b) | Some k \<Rightarrow> min k (length (bd_chunks b)))
      in ((items, e, out),
          snd (terminal_hook out (note_first_token m h b delivered) h (bd_end_time b))))"

section \<open>Facts\<close>

lemma terminal_hook_finalize: "terminal_hook out m h t = finalize_request m h t (out = OutComplete)"
  by (cases out) (simp_all add: on_request_complete_def on_request_fail_def on_request_abort_def)

lemma note_first_token_inv: "rsm_inv m \<Longrightarrow> rsm_inv (note_first_token m h b k)"
  by (simp add: note_first_token_def on_request_response_inv)

lemma note_first_token_live:
  "rsm_inv m \<Longrightarrow> (rsm_live (note_first_token m h b k))(h := None) = (rsm_live m)(h := None)"
  by (simp add: note_first_token_def monitor.token_domain)

text \<open>Before the headers: a started attempt is live, any other left no trace.\<close>

lemma attempt_start_inv:
  assumes "rsm_inv m" "attempt_start m body url rid env = (r, m')"
  shows "rsm_inv m'"
proof -
  obtain h m1 where n: "on_new_request m url rid (ae_start_time env) = (h, m1)" by fastforce
  have "rsm_inv m1" using monitor.new_invar [OF assms(1) n] .
  then show ?thesis
    using assms n monitor.finish_invar
    by (auto simp: attempt_start_def terminal_hook_finalize split: option.splits json.splits entry.splits)
qed

lemma attempt_start_live:
  assumes "rsm_inv m" "attempt_start m body url rid env = (r, m')"
  shows "case r of
      Started h is_streaming status hs \<Rightarrow>
        rsm_live m h = None \<and> rsm_live m' = (rsm_live m)(h \<mapsto> (Prefill, url))
    | _ \<Rightarrow> rsm_live m' = rsm_live m"
proof -
  obtain h m1 where n: "on_new_request m url rid (ae_start_time env) = (h, m1)" by fastforce
  have m1: "rsm_inv m1" "rsm_live m h = None" "rsm_live m1 = (rsm_live m)(h \<mapsto> (Prefill, url))"
    using monitor.new_invar [OF assms(1) n] monitor.new_fresh [OF assms(1) n]
      monitor.new_live [OF assms(1) n] by blast+
  have "rsm_live (snd (finalize_request m1 h t c)) = rsm_live m" for t c
    using m1 by (simp add: rsm_live_finalize fun_upd_idem)
  then show ?thesis
    using assms(2) n m1
    by (auto simp: attempt_start_def terminal_hook_finalize split: option.splits json.splits entry.splits)
qed

lemma attempt_rest_state:
  assumes "rsm_inv m" "attempt_rest fmt_g timeout m h is_streaming b closes = (r, m')"
  shows "rsm_inv m'" "rsm_live m' = (rsm_live m)(h := None)"
proof -
  obtain out k where m': "m' = snd (finalize_request (note_first_token m h b k) h (bd_end_time b) (out = OutComplete))"
    using assms(2) by (auto simp: attempt_rest_def terminal_hook_finalize split: prod.splits)
  show "rsm_inv m'" using assms(1) m' monitor.finish_invar note_first_token_inv by blast
  show "rsm_live m' = (rsm_live m)(h := None)"
    using assms(1) m' by (simp add: rsm_live_finalize note_first_token_live)
qed

section \<open>Properties\<close>

text \<open>C12. Every attempt is retired, however it ends. An attempt that does not reach the response headers
  leaves the set of live attempts as it was; one that reaches them is live on its backend; and
  whenever its stream ends, by exhaustion, by an exception, by a stall or by the client closing it
  at any yield, with other requests served in between, exactly its own record is retired.\<close>

theorem attempt_is_retired:
  assumes "rsm_inv m" "attempt_start m body url rid env = (r, m1)"
  shows "case r of
      Started h is_streaming status hs \<Rightarrow>
        rsm_live m1 = (rsm_live m)(h \<mapsto> (Prefill, url)) \<and>
        (\<forall>fmt_g timeout evs b closes.
           rsm_live (snd (attempt_rest fmt_g timeout (rs_run evs m1) h is_streaming b closes)) =
             (rsm_live (rs_run evs m1))(h := None))
    | _ \<Rightarrow> rsm_live m1 = rsm_live m"
proof -
  have inv: "rsm_inv (rs_run evs m1)" for evs
    using rs_run_inv attempt_start_inv [OF assms] by blast
  have rest: "rsm_live (snd (attempt_rest fmt_g timeout (rs_run evs m1) h is_streaming b closes)) =
      (rsm_live (rs_run evs m1))(h := None)" for fmt_g timeout evs h is_streaming b closes
    using attempt_rest_state(2) [OF inv prod.collapse [symmetric]] .
  show ?thesis
    using attempt_start_live [OF assms] rest by (cases r) simp_all
qed

theorem attempt_is_retired_witness:
  "\<exists>h m1. attempt_start (rsm_start 10) (JsonText (JObj [])) ''u'' ''r''
       \<lparr>ae_start_time = 1, ae_fail_time = 2, ae_entry = EntryOk 200 []\<rparr> =
     (Started h False 200 [], m1) \<and>
     rsm_live m1 = (rsm_live (rsm_start 10))(h \<mapsto> (Prefill, ''u''))"
proof -
  obtain h m1 where n: "on_new_request (rsm_start 10) ''u'' ''r'' 1 = (h, m1)" by fastforce
  have s: "attempt_start (rsm_start 10) (JsonText (JObj [])) ''u'' ''r''
       \<lparr>ae_start_time = 1, ae_fail_time = 2, ae_entry = EntryOk 200 []\<rparr> =
     (Started h False 200 [], m1)"
    by (simp add: attempt_start_def n)
  from attempt_is_retired [OF rsm_inv_start s] s show ?thesis by auto
qed

text \<open>A stalled event stream is closed honestly: when the backend times out after its headers, the
  client of an event stream receives every chunk, then an error event and the end marker, and the
  stream ends cleanly; any other client sees the exception; and in both cases the attempt is
  retired as a failure, never as a completion.\<close>

theorem stalled_stream_outcome:
  assumes "bd_end b = Some x" "is_timeout_error x"
  shows "attempt_yields fmt_g timeout is_streaming b None =
    (if is_event_stream (bd_content_type b)
     then (map Chunk (bd_chunks b) @ map Frame (sse_stall_frames fmt_g timeout), Exhausted, OutFail)
     else (map Chunk (bd_chunks b), Raised x, OutFail))"
  using assms by (cases x) (auto simp: attempt_yields_def after_chunks_def)

theorem stalled_stream_outcome_witness:
  "attempt_yields (\<lambda>_. ''300'') DEFAULT_BACKEND_CLIENT_TIMEOUT True
     \<lparr>bd_chunks = [''a''], bd_end = Some ReadTimeout, bd_content_type = ''Text/Event-Stream; charset=utf-8'',
      bd_full = NotJson, bd_token_time = 1, bd_end_time = 2\<rparr> None =
   ([Chunk ''a''] @ map Frame (sse_stall_frames (\<lambda>_. ''300'') DEFAULT_BACKEND_CLIENT_TIMEOUT), Exhausted, OutFail)"
proof -
  have "is_event_stream ''Text/Event-Stream; charset=utf-8''" by code_simp
  then show ?thesis
    using stalled_stream_outcome [of "\<lparr>bd_chunks = [''a''], bd_end = Some ReadTimeout,
        bd_content_type = ''Text/Event-Stream; charset=utf-8'', bd_full = NotJson, bd_token_time = 1,
        bd_end_time = 2\<rparr>" ReadTimeout "\<lambda>_. ''300''" DEFAULT_BACKEND_CLIENT_TIMEOUT True]
    by simp
qed

text \<open>A complete answer can still be reported as a failure: a non-streaming response that is a JSON
  object with a null usage entry is delivered in full, and then the token accounting raises, so
  the generator ends with an exception and the attempt is retired as failed.\<close>

theorem null_usage_fails_delivered_response:
  assumes "bd_end b = None" "concat (bd_chunks b) \<noteq> []"
    and "bd_full b = JsonText (JObj d)" "map_of d ''usage'' = Some JNull"
  shows "\<exists>x. attempt_yields fmt_g timeout False b None =
     (map Chunk (bd_chunks b), Raised (OtherExn (TypeError x)), OutFail)"
  using assms
  by (simp add: attempt_yields_def after_chunks_def track_tokens_def track_key_def dict_get_def)

theorem null_usage_fails_delivered_response_witness:
  "\<exists>x. attempt_yields (\<lambda>_. []) DEFAULT_BACKEND_CLIENT_TIMEOUT False
     \<lparr>bd_chunks = [''...''], bd_end = None, bd_content_type = ''application/json'',
      bd_full = JsonText (JObj [(''usage'', JNull)]), bd_token_time = 1, bd_end_time = 2\<rparr> None =
     ([Chunk ''...''], Raised (OtherExn (TypeError x)), OutFail)"
  using null_usage_fails_delivered_response [of "\<lparr>bd_chunks = [''...''], bd_end = None,
      bd_content_type = ''application/json'', bd_full = JsonText (JObj [(''usage'', JNull)]),
      bd_token_time = 1, bd_end_time = 2\<rparr>" "[(''usage'', JNull)]" "\<lambda>_. []" DEFAULT_BACKEND_CLIENT_TIMEOUT]
  by simp

end
