(* ===== verification/Hash_Trie.thy ===== *)
theory Hash_Trie
  imports Prelude
begin

text \<open>
  The prefix index of the prefix-aware router, \<^verbatim>\<open>src/src/vllm_router/prefix/hashtrie.py\<close>. The
  digest \<^verbatim>\<open>xxhash.xxh64(...).intdigest()\<close> is a parameter. No critical section of a node lock
  contains an await, so the locks are never contended and an operation runs without being
  interleaved with another; it is a function of the trie.
\<close>

section \<open>Definitions\<close>

datatype TrieNode = TrieNode (children: "(int, TrieNode) dict") (endpoints: "url set")

record HashTrie =
  root :: TrieNode
  chunk_size :: nat

definition trie_node_init :: TrieNode where
  "trie_node_init = TrieNode [] {}"

definition hash_trie_init :: "nat \<Rightarrow> HashTrie" where
  "hash_trie_init n = \<lparr>root = trie_node_init, chunk_size = n\<rparr>"

definition default_chunk_size :: nat where
  "default_chunk_size = 128"

text \<open>The slices of a request at the positions of \<^verbatim>\<open>range(0, len(request), chunk_size)\<close>.\<close>

function chunks :: "nat \<Rightarrow> string \<Rightarrow> string list" where
  "chunks n s = (if n = 0 \<or> s = [] then [] else take n s # chunks n (drop n s))"
  by pat_completeness auto
termination
  by (relation "measure (\<lambda>(n, s). length s)") auto

definition chunk_and_hash :: "(string \<Rightarrow> int) \<Rightarrow> HashTrie \<Rightarrow> string \<Rightarrow> int list" where
  "chunk_and_hash xxh t request = map xxh (chunks (chunk_size t) request)"

text \<open>The walk of \<^verbatim>\<open>insert\<close>: the endpoint is added at every node of the path, root included.\<close>

fun insert_path :: "int list \<Rightarrow> url \<Rightarrow> TrieNode \<Rightarrow> TrieNode" where
  "insert_path [] e n = TrieNode (children n) (insert e (endpoints n))"
| "insert_path (k # ks) e n =
     TrieNode
       (dict_set (children n) k
          (insert_path ks e (case map_of (children n) k of None \<Rightarrow> trie_node_init | Some c \<Rightarrow> c)))
       (insert e (endpoints n))"

definition trie_insert :: "(string \<Rightarrow> int) \<Rightarrow> HashTrie \<Rightarrow> string \<Rightarrow> url \<Rightarrow> HashTrie" where
  "trie_insert xxh t request e = t\<lparr>root := insert_path (chunk_and_hash xxh t request) e (root t)\<rparr>"

text \<open>The loop of \<^verbatim>\<open>longest_prefix_match\<close> with its two accumulators.\<close>

fun match_path :: "nat \<Rightarrow> int list \<Rightarrow> TrieNode \<Rightarrow> nat \<Rightarrow> url set \<Rightarrow> nat \<times> url set" where
  "match_path c [] n len sel = (len, sel)"
| "match_path c (k # ks) n len sel = (case map_of (children n) k of
     None \<Rightarrow> (len, sel)
   | Some n' \<Rightarrow>
       let inter = endpoints n' \<inter> sel
       in if inter = {} then (len, sel) else match_path c ks n' (len + c) inter)"

definition longest_prefix_match ::
  "(string \<Rightarrow> int) \<Rightarrow> HashTrie \<Rightarrow> string \<Rightarrow> url set \<Rightarrow> nat \<times> url set" where
  "longest_prefix_match xxh t request available =
     match_path (chunk_size t) (chunk_and_hash xxh t request) (root t) 0 available"

declare chunks.simps [simp del]

section \<open>What a trie records\<close>

text \<open>The endpoints at the node reached by a path of hashes; none when there is no such node.\<close>

fun endpoints_at :: "TrieNode \<Rightarrow> int list \<Rightarrow> url set" where
  "endpoints_at n [] = endpoints n"
| "endpoints_at n (k # ks) = (case map_of (children n) k of
     None \<Rightarrow> {} | Some c \<Rightarrow> endpoints_at c ks)"

text \<open>An endpoint is recorded along a path only if it is recorded along every shorter one.\<close>

definition downward :: "TrieNode \<Rightarrow> bool" where
  "downward n \<longleftrightarrow> (\<forall>p q. endpoints_at n (p @ q) \<subseteq> endpoints_at n p)"

lemma endpoints_at_init [simp]: "endpoints_at trie_node_init p = {}"
  by (cases p) (simp_all add: trie_node_init_def)

lemma endpoints_at_insert:
  "endpoints_at (insert_path ks e n) p =
     (if \<exists>q. ks = p @ q then insert e (endpoints_at n p) else endpoints_at n p)"
proof (induction ks e n arbitrary: p rule: insert_path.induct)
  case (1 e n)
  then show ?case by (cases p) auto
next
  case (2 k ks e n)
  then show ?case by (cases p) (auto split: option.split)
qed

lemma downward_init: "downward trie_node_init"
  by (simp add: downward_def)

lemma downward_insert: "downward n \<Longrightarrow> downward (insert_path ks e n)"
  by (fastforce simp: downward_def endpoints_at_insert)

lemma downward_root: "downward n \<Longrightarrow> endpoints_at n p \<subseteq> endpoints n"
  unfolding downward_def by (metis append_Nil endpoints_at.simps(1))

lemma downward_child: "downward n \<Longrightarrow> map_of (children n) k = Some c \<Longrightarrow> downward c"
  unfolding downward_def by (metis append_Cons endpoints_at.simps(2) option.simps(5))

text \<open>
  The accumulating loop computes the last non-empty intersection along the path: the number
  of matched chunks is maximal and the selected set is the set recorded there.
\<close>

lemma match_path_spec:
  assumes "downward n" "match_path c ks n len sel = (len', sel')"
  shows "\<exists>k \<le> length ks. len' = len + k * c \<and>
     sel' = (if k = 0 then sel else endpoints_at n (take k ks) \<inter> sel) \<and>
     (0 < k \<longrightarrow> sel' \<noteq> {}) \<and>
     (k < length ks \<longrightarrow> endpoints_at n (take (Suc k) ks) \<inter> sel = {})"
  using assms
proof (induction c ks n len sel arbitrary: len' sel' rule: match_path.induct)
  case (2 c h hs n len sel)
  show ?case
  proof (cases "map_of (children n) h")
    case None
    then show ?thesis using 2 by (intro exI [of _ 0]) simp
  next
    case (Some n')
    let ?inter = "endpoints n' \<inter> sel"
    show ?thesis
    proof (cases "?inter = {}")
      case True
      then show ?thesis using 2 Some by (intro exI [of _ 0]) auto
    next
      case False
      have d: "downward n'" using downward_child [OF 2(2) Some] .
      have absorb: "endpoints_at n' p \<inter> ?inter = endpoints_at n' p \<inter> sel" for p
        using downward_root [OF d] by blast
      have "match_path c hs n' (len + c) ?inter = (len', sel')"
        using 2(3) Some False by simp
      from 2(1) [OF Some refl False d this]
      obtain k where k: "k \<le> length hs" "len' = len + c + k * c"
        "sel' = (if k = 0 then ?inter else endpoints_at n' (take k hs) \<inter> ?inter)"
        "0 < k \<longrightarrow> sel' \<noteq> {}"
        "k < length hs \<longrightarrow> endpoints_at n' (take (Suc k) hs) \<inter> ?inter = {}"
        by blast
      then show ?thesis
        using Some False by (intro exI [of _ "Suc k"]) (simp add: absorb split: if_splits)
    qed
  qed
qed (auto intro: exI [of _ 0])

text \<open>A trie built by a sequence of insertions, and the endpoints that were given a request whose
  first \<open>k\<close> chunk hashes are those of a given request.\<close>

definition trie_of :: "(string \<Rightarrow> int) \<Rightarrow> nat \<Rightarrow> (string \<times> url) list \<Rightarrow> HashTrie" where
  "trie_of xxh n ins = fold (\<lambda>(r, e) t. trie_insert xxh t r e) ins (hash_trie_init n)"

definition holders :: "(string \<Rightarrow> int) \<Rightarrow> nat \<Rightarrow> (string \<times> url) list \<Rightarrow> string \<Rightarrow> nat \<Rightarrow> url set" where
  "holders xxh n ins r k =
     {e. \<exists>r'. (r', e) \<in> set ins \<and> k \<le> length (chunks n r') \<and>
              map xxh (take k (chunks n r')) = map xxh (take k (chunks n r))}"

lemma chunk_size_insert [simp]: "chunk_size (trie_insert xxh t r e) = chunk_size t"
  by (simp add: trie_insert_def)

lemma trie_of_snoc:
  "trie_of xxh n (ins @ [(r, e)]) = trie_insert xxh (trie_of xxh n ins) r e"
  by (simp add: trie_of_def)

lemma trie_of_chunk_size [simp]: "chunk_size (trie_of xxh n ins) = n"
  by (induction ins rule: rev_induct)
    (auto simp: trie_of_def hash_trie_init_def)

lemma trie_of_downward: "downward (root (trie_of xxh n ins))"
proof (induction ins rule: rev_induct)
  case Nil
  then show ?case by (simp add: trie_of_def hash_trie_init_def downward_init)
next
  case (snoc p ins)
  then show ?case by (cases p) (simp add: trie_of_snoc trie_insert_def downward_insert)
qed

lemma trie_of_endpoints:
  "endpoints_at (root (trie_of xxh n ins)) p =
     {e. \<exists>r. (r, e) \<in> set ins \<and> (\<exists>q. map xxh (chunks n r) = p @ q)}"
proof (induction ins rule: rev_induct)
  case Nil
  then show ?case by (simp add: trie_of_def hash_trie_init_def)
next
  case (snoc x ins)
  obtain r e where x: "x = (r, e)" by fastforce
  show ?case
    unfolding x trie_of_snoc
    by (auto simp: trie_insert_def endpoints_at_insert snoc chunk_and_hash_def)
qed

lemma prefix_take_iff:
  "k \<le> length xs \<Longrightarrow> (\<exists>q. ys = take k xs @ q) \<longleftrightarrow> k \<le> length ys \<and> take k ys = take k xs"
  by (metis append_take_drop_id append_eq_conv_conj length_take min.absorb2 nle_le take_all_iff
      length_append trans_le_add1)

lemma trie_of_holders:
  "k \<le> length (chunks n r) \<Longrightarrow>
   endpoints_at (root (trie_of xxh n ins)) (take k (map xxh (chunks n r))) = holders xxh n ins r k"
  by (simp add: trie_of_endpoints prefix_take_iff holders_def flip: take_map)

lemma chunks_cover: "0 < n \<Longrightarrow> length s \<le> length (chunks n s) * n"
proof (induction n s rule: chunks.induct)
  case (1 n s)
  then show ?case by (cases "s = []") (auto simp: chunks.simps [of n s])
qed

section \<open>The contract of a prefix index\<close>

text \<open>
  What the prefix-aware router relies on: a match selects among the available endpoints and
  never selects nothing, and a request that was just recorded for an available endpoint is
  matched in full, with that endpoint selected.
\<close>

locale prefix_index =
  fixes add :: "'i \<Rightarrow> string \<Rightarrow> url \<Rightarrow> 'i"
    and lookup :: "'i \<Rightarrow> string \<Rightarrow> url set \<Rightarrow> nat \<times> url set"
    and invar :: "'i \<Rightarrow> bool"
  assumes lookup_available: "invar i \<Longrightarrow> snd (lookup i r A) \<subseteq> A"
    and lookup_nonempty: "invar i \<Longrightarrow> A \<noteq> {} \<Longrightarrow> snd (lookup i r A) \<noteq> {}"
    and lookup_added: "invar i \<Longrightarrow> e \<in> A \<Longrightarrow>
          length r \<le> fst (lookup (add i r e) r A) \<and> e \<in> snd (lookup (add i r e) r A)"
    and add_invar: "invar i \<Longrightarrow> invar (add i r e)"
begin

lemma choice_available:
  assumes "invar i" "A \<noteq> {}" "\<And>S. S \<noteq> {} \<Longrightarrow> pick S \<in> S"
  shows "pick (snd (lookup i r A)) \<in> A"
  using assms(3) [OF lookup_nonempty [OF assms(1,2), of r]] lookup_available [OF assms(1), of r A]
  by (rule rev_subsetD)

lemma repeat_unique:
  assumes "invar i" "e \<in> A" "A = {e}"
  shows "snd (lookup (add i r e) r A) = {e}"
  using assms(3) lookup_added [OF assms(1,2), of r] lookup_available [OF add_invar [OF assms(1)], of r e r A]
  by auto

end

definition trie_ok :: "HashTrie \<Rightarrow> bool" where
  "trie_ok t \<longleftrightarrow> 0 < chunk_size t \<and> downward (root t)"

lemma longest_prefix_match_spec:
  assumes "downward (root t)" "longest_prefix_match xxh t r A = (len, S)"
  shows "\<exists>k \<le> length (chunk_and_hash xxh t r). len = k * chunk_size t \<and>
     S = (if k = 0 then A else endpoints_at (root t) (take k (chunk_and_hash xxh t r)) \<inter> A) \<and>
     (0 < k \<longrightarrow> S \<noteq> {}) \<and>
     (k < length (chunk_and_hash xxh t r) \<longrightarrow>
        endpoints_at (root t) (take (Suc k) (chunk_and_hash xxh t r)) \<inter> A = {})"
  using match_path_spec [OF assms(1) assms(2) [unfolded longest_prefix_match_def]] by simp

lemma longest_prefix_match_selects:
  assumes "downward (root t)"
  shows "snd (longest_prefix_match xxh t r A) \<subseteq> A"
    and "A \<noteq> {} \<Longrightarrow> snd (longest_prefix_match xxh t r A) \<noteq> {}"
proof -
  obtain len S where m: "longest_prefix_match xxh t r A = (len, S)" by fastforce
  obtain k where k:
    "S = (if k = 0 then A else endpoints_at (root t) (take k (chunk_and_hash xxh t r)) \<inter> A)"
    "0 < k \<longrightarrow> S \<noteq> {}"
    using longest_prefix_match_spec [OF assms m] by blast
  show "snd (longest_prefix_match xxh t r A) \<subseteq> A"
    using k(1) m by (cases "k = 0") simp_all
  show "A \<noteq> {} \<Longrightarrow> snd (longest_prefix_match xxh t r A) \<noteq> {}"
    using k m by (cases "k = 0") simp_all
qed

lemma longest_prefix_match_inserted:
  assumes "trie_ok t" "e \<in> A"
  shows "length r \<le> fst (longest_prefix_match xxh (trie_insert xxh t r e) r A) \<and>
         e \<in> snd (longest_prefix_match xxh (trie_insert xxh t r e) r A)"
proof -
  let ?t = "trie_insert xxh t r e" and ?hs = "map xxh (chunks (chunk_size t) r)"
  have d: "downward (root ?t)"
    using assms(1) by (simp add: trie_insert_def trie_ok_def downward_insert)
  have hs: "chunk_and_hash xxh ?t r = ?hs" by (simp add: chunk_and_hash_def)
  have e: "e \<in> endpoints_at (root ?t) (take k ?hs)" for k
  proof -
    have "\<exists>q. ?hs = take k ?hs @ q" by (metis append_take_drop_id)
    then show ?thesis by (simp add: trie_insert_def endpoints_at_insert chunk_and_hash_def)
  qed
  obtain len S where m: "longest_prefix_match xxh ?t r A = (len, S)" by fastforce
  obtain k where k: "k \<le> length ?hs" "len = k * chunk_size t"
    "S = (if k = 0 then A else endpoints_at (root ?t) (take k ?hs) \<inter> A)"
    "k < length ?hs \<longrightarrow> endpoints_at (root ?t) (take (Suc k) ?hs) \<inter> A = {}"
    using longest_prefix_match_spec [OF d m] unfolding hs chunk_size_insert by blast
  have "k = length ?hs" using k(1,4) e [of "Suc k"] assms(2) by force
  then show ?thesis
    using m k(2,3) e [of k] assms chunks_cover [of "chunk_size t" r]
    by (auto simp: trie_ok_def)
qed

interpretation trie: prefix_index "trie_insert xxh" "longest_prefix_match xxh" trie_ok for xxh
proof (unfold_locales, goal_cases)
  case (1 i r A)
  then show ?case by (simp add: trie_ok_def longest_prefix_match_selects)
next
  case (2 i A r)
  then show ?case by (simp add: trie_ok_def longest_prefix_match_selects)
next
  case (3 i e A r)
  then show ?case by (rule longest_prefix_match_inserted)
next
  case (4 i r e)
  then show ?case by (simp add: trie_ok_def trie_insert_def downward_insert)
qed

section \<open>Properties\<close>

text \<open>C19. A prefix match is exact: on a trie built by any sequence of insertions, the reported length
  is a whole number \<open>k\<close> of chunks, the selected endpoints are exactly the available ones that
  were given a request with the same first \<open>k\<close> chunk hashes (all available ones when nothing
  matches), and no available endpoint was given a request that agrees on one more chunk.\<close>

theorem longest_prefix_match_exact:
  "\<exists>k \<le> length (chunks n r).
     longest_prefix_match xxh (trie_of xxh n ins) r A =
       (k * n, if k = 0 then A else holders xxh n ins r k \<inter> A) \<and>
     (k = 0 \<or> holders xxh n ins r k \<inter> A \<noteq> {}) \<and>
     (k = length (chunks n r) \<or> holders xxh n ins r (Suc k) \<inter> A = {})"
proof -
  let ?t = "trie_of xxh n ins" and ?hs = "map xxh (chunks n r)"
  obtain len S where m: "longest_prefix_match xxh ?t r A = (len, S)" by fastforce
  have hs: "chunk_and_hash xxh ?t r = ?hs" by (simp add: chunk_and_hash_def)
  obtain k where k: "k \<le> length ?hs" "len = k * n"
    "S = (if k = 0 then A else endpoints_at (root ?t) (take k ?hs) \<inter> A)"
    "0 < k \<longrightarrow> S \<noteq> {}"
    "k < length ?hs \<longrightarrow> endpoints_at (root ?t) (take (Suc k) ?hs) \<inter> A = {}"
    using longest_prefix_match_spec [OF trie_of_downward m] unfolding hs trie_of_chunk_size by blast
  have "S = (if k = 0 then A else holders xxh n ins r k \<inter> A)"
    "k < length (chunks n r) \<longrightarrow> holders xxh n ins r (Suc k) \<inter> A = {}"
    using k(1,3,5) by (simp_all add: trie_of_holders)
  then show ?thesis
    using k(1,2,4) m by (intro exI [of _ k]) auto
qed

theorem longest_prefix_match_exact_witness:
  "longest_prefix_match (\<lambda>s. of_char (hd s)) (trie_of (\<lambda>s. of_char (hd s)) 2 [(''abcd'', ''u'')]) ''abxy'' {''u''} =
     (2, {''u''})"
proof -
  let ?x = "\<lambda>s. of_char (hd s) :: int" and ?ins = "[(''abcd'', ''u'')]"
  have c: "chunks 2 ''abxy'' = [''ab'', ''xy'']" "chunks 2 ''abcd'' = [''ab'', ''cd'']"
    by (simp_all add: chunks.simps)
  have h: "holders ?x 2 ?ins ''abxy'' (Suc 0) = {''u''}" "holders ?x 2 ?ins ''abxy'' 2 = {}"
    by (auto simp: holders_def c)
  have l: "length (chunks 2 ''abxy'') = 2" by (simp add: c)
  obtain k where k: "k \<le> 2" "longest_prefix_match ?x (trie_of ?x 2 ?ins) ''abxy'' {''u''} =
       (k * 2, if k = 0 then {''u''} else holders ?x 2 ?ins ''abxy'' k \<inter> {''u''})"
    "k = 0 \<or> holders ?x 2 ?ins ''abxy'' k \<inter> {''u''} \<noteq> {}"
    "k = 2 \<or> holders ?x 2 ?ins ''abxy'' (Suc k) \<inter> {''u''} = {}"
    using longest_prefix_match_exact [of 2 "''abxy''" ?x ?ins "{''u''}"] unfolding l by blast
  have "k = 1" using k(1,3,4) h by (cases k; cases "k = 1") (auto simp: le_Suc_eq numeral_2_eq_2)
  then show ?thesis using k(2) h by simp
qed

end
