(* ===== verification/Routing_Policies.thy ===== *)
theory Routing_Policies
  imports Routing_Base Hash_Trie
begin

text \<open>
  The remaining routers of \<^verbatim>\<open>src/src/vllm_router/routers/routing_logic.py\<close>:
  \<^verbatim>\<open>PrefixAwareRouter\<close> over the prefix index, \<^verbatim>\<open>PriorityRouter\<close>, and the two routers for
  disaggregated prefill. \<^verbatim>\<open>random.choice\<close> is a function from a set to one of its elements.
\<close>

section \<open>Prefix affinity\<close>

text \<open>
  Reading the prompt out of a request body. A part that has not the expected shape raises the
  exception Python raises.
\<close>

fun json_get :: "json \<Rightarrow> string \<Rightarrow> json \<Rightarrow> json result" where
  "json_get (JObj d) k dflt = Inr (dict_get d k dflt)"
| "json_get _ k dflt = Inl (AttributeError ''get'')"

fun join_strs :: "string \<Rightarrow> json list \<Rightarrow> string result" where
  "join_strs sep js =
     (if list_all (\<lambda>j. case j of JStr _ \<Rightarrow> True | _ \<Rightarrow> False) js
      then Inr (str_join sep (map (\<lambda>j. case j of JStr s \<Rightarrow> s | _ \<Rightarrow> []) js))
      else Inl (TypeError ''sequence item: expected str instance''))"

declare join_strs.simps [simp del]

fun text_parts :: "json list \<Rightarrow> json list result" where
  "text_parts [] = Inr []"
| "text_parts (p # ps) = result_bind (json_get p ''type'' JNull) (\<lambda>ty.
     if ty = JStr ''text''
     then result_bind (json_get p ''text'' (JStr [])) (\<lambda>t.
            result_bind (text_parts ps) (\<lambda>ts. Inr (t # ts)))
     else text_parts ps)"

definition message_part :: "json \<Rightarrow> json list result" where
  "message_part message = result_bind (json_get message ''content'' (JStr [])) (\<lambda>content.
     case content of
       JList parts \<Rightarrow>
         result_bind (text_parts parts) (\<lambda>ts. result_bind (join_strs '' '' ts) (\<lambda>t. Inr [JStr t]))
     | JNull \<Rightarrow> Inr []
     | c \<Rightarrow> Inr [c])"

fun message_parts :: "json list \<Rightarrow> json list result" where
  "message_parts [] = Inr []"
| "message_parts (m # ms) = result_bind (message_part m) (\<lambda>p.
     result_bind (message_parts ms) (\<lambda>ps. Inr (p @ ps)))"

text \<open>Iterating a JSON value: the items of a list, the keys of an object, the characters of a string.\<close>

fun json_iter :: "json \<Rightarrow> json list result" where
  "json_iter (JList l) = Inr l"
| "json_iter (JObj d) = Inr (map JStr (keys d))"
| "json_iter (JStr s) = Inr (map (\<lambda>c. JStr [c]) s)"
| "json_iter _ = Inl (TypeError ''object is not iterable'')"

text \<open>
  A prompt that is not a string fails in the trie, except for an empty container, which has
  no chunk to hash and behaves like the empty string.
\<close>

fun prompt_string :: "json \<Rightarrow> string result" where
  "prompt_string (JStr s) = Inr s"
| "prompt_string (JList []) = Inr []"
| "prompt_string (JObj []) = Inr []"
| "prompt_string _ = Inl (TypeError ''prompt'')"

definition prompt_of_body :: "body \<Rightarrow> string result" where
  "prompt_of_body b = (case map_of b ''messages'' of
     Some messages \<Rightarrow>
       if py_truthy messages
       then result_bind (json_iter messages) (\<lambda>ms.
              result_bind (message_parts ms) (\<lambda>ps. join_strs [CHR 0x0A] ps))
       else Inr []
   | None \<Rightarrow> (case map_of b ''prompt'' of
       None \<Rightarrow> Inl (KeyError ''prompt'')
     | Some p \<Rightarrow> prompt_string p))"

record PrefixAwareRouter =
  pa_hashtrie :: HashTrie
  prefix_min_match_length :: int

definition prefixaware_init :: "int \<Rightarrow> PrefixAwareRouter" where
  "prefixaware_init n =
     \<lparr>pa_hashtrie = hash_trie_init default_chunk_size, prefix_min_match_length = n\<rparr>"

definition prefixaware_route ::
  "(string \<Rightarrow> int) \<Rightarrow> (url set \<Rightarrow> url) \<Rightarrow> PrefixAwareRouter \<Rightarrow> EndpointInfo list \<Rightarrow> request_stats \<Rightarrow> body
     \<Rightarrow> url option result \<times> PrefixAwareRouter" where
  "prefixaware_route xxh pick s eps stats b = (case prompt_of_body b of
     Inl x \<Rightarrow> (Inl x, s)
   | Inr prompt \<Rightarrow>
       let (len, matched) = longest_prefix_match xxh (pa_hashtrie s) prompt (set (urls_of eps)) in
       if int len < prefix_min_match_length s
       then (case qps_routing eps stats of
               None \<Rightarrow> (Inr None, s)
             | Some u \<Rightarrow> (Inr (Some u), s\<lparr>pa_hashtrie := trie_insert xxh (pa_hashtrie s) prompt u\<rparr>))
       else if matched = {} then (Inl IndexError, s)
       else let u = pick matched
            in (Inr (Some u), s\<lparr>pa_hashtrie := trie_insert xxh (pa_hashtrie s) prompt u\<rparr>))"

section \<open>Priorities\<close>

text \<open>
  \<^verbatim>\<open>int(text)\<close>: surrounding white space, an optional sign, then decimal digits in which single
  underscores may separate digits.
\<close>

definition is_digit :: "char \<Rightarrow> bool" where
  "is_digit c = (let n = (of_char c :: nat) in 48 \<le> n \<and> n \<le> 57)"

fun digits_value :: "string \<Rightarrow> nat \<Rightarrow> nat" where
  "digits_value [] acc = acc"
| "digits_value (c # cs) acc =
     (if is_digit c then digits_value cs (acc * 10 + (of_char c - 48)) else digits_value cs acc)"

definition parse_digits :: "string \<Rightarrow> nat option" where
  "parse_digits s =
     (if list_all (\<lambda>p. p \<noteq> [] \<and> list_all is_digit p) (str_split ''_'' s)
      then Some (digits_value s 0) else None)"

definition parse_int :: "string \<Rightarrow> int option" where
  "parse_int s = (case str_strip s of
     [] \<Rightarrow> None
   | c # cs \<Rightarrow>
       if c = CHR ''-'' then map_option (\<lambda>n. - int n) (parse_digits cs)
       else if c = CHR ''+'' then map_option int (parse_digits cs)
       else map_option int (parse_digits (c # cs)))"

text \<open>\<^verbatim>\<open>int(value)\<close> of a JSON value other than null; \<open>None\<close> when it raises.\<close>

fun json_int :: "json \<Rightarrow> int option" where
  "json_int (JInt i) = Some i"
| "json_int (JBool b) = Some (if b then 1 else 0)"
| "json_int (JFloat r) = Some (if 0 \<le> r then \<lfloor>r\<rfloor> else \<lceil>r\<rceil>)"
| "json_int (JStr s) = parse_int s"
| "json_int _ = None"

record PriorityRouter =
  priority_header :: string
  priority_field :: string
  priority_default :: int
  priority_threshold :: int
  pr_next_index :: "(url list, int) dict"
  warned_scheduling_policy :: bool

definition priority_init :: "string \<Rightarrow> string \<Rightarrow> int \<Rightarrow> int option \<Rightarrow> PriorityRouter" where
  "priority_init header field dflt threshold =
     \<lparr>priority_header = header, priority_field = field, priority_default = dflt,
      priority_threshold = (case threshold of None \<Rightarrow> dflt | Some t \<Rightarrow> t),
      pr_next_index = [], warned_scheduling_policy = False\<rparr>"

definition body_priority :: "PriorityRouter \<Rightarrow> body \<Rightarrow> int" where
  "body_priority s b = (case map_of b (priority_field s) of
     None \<Rightarrow> priority_default s
   | Some JNull \<Rightarrow> priority_default s
   | Some v \<Rightarrow> (case json_int v of Some i \<Rightarrow> i | None \<Rightarrow> priority_default s))"

definition extract_priority :: "PriorityRouter \<Rightarrow> headers \<Rightarrow> body \<Rightarrow> int" where
  "extract_priority s hs b = (case header_get hs (priority_header s) of
     None \<Rightarrow> body_priority s b
   | Some v \<Rightarrow> (case parse_int v of Some i \<Rightarrow> i | None \<Rightarrow> body_priority s b))"

definition engine_load :: "request_stats \<Rightarrow> url \<Rightarrow> int" where
  "engine_load stats u = (case map_of stats u of
     None \<Rightarrow> 0 | Some st \<Rightarrow> st_in_prefill_requests st + st_in_decoding_requests st)"

text \<open>\<^verbatim>\<open>min(xs, key=f)\<close>: the first element of minimal key.\<close>

fun min_by :: "('a \<Rightarrow> int) \<Rightarrow> 'a \<Rightarrow> 'a list \<Rightarrow> 'a" where
  "min_by f x [] = x"
| "min_by f x (y # ys) = min_by f (if f y < f x then y else x) ys"

definition priority_route ::
  "PriorityRouter \<Rightarrow> EndpointInfo list \<Rightarrow> request_stats \<Rightarrow> headers \<Rightarrow> body
     \<Rightarrow> (url option \<times> body) result \<times> PriorityRouter" where
  "priority_route s eps stats hs b =
     (if eps = [] then (Inl (ValueError ''PriorityRouter requires at least one endpoint''), s)
      else
        let s1 = s\<lparr>warned_scheduling_policy := True\<rparr>;
            p = extract_priority s1 hs b;
            b' = dict_set b (priority_field s1) (JInt p);
            urls = sort (urls_of eps)
        in if p < priority_threshold s1
           then (Inr (Some (min_by (engine_load stats) (hd urls) (tl urls)), b'), s1)
           else let idx = dict_get (pr_next_index s1) urls 0
                in (Inr (Some (urls ! nat (idx mod int (length urls))), b'),
                    s1\<lparr>pr_next_index := dict_set (pr_next_index s1) urls (idx + 1)\<rparr>))"

section \<open>Disaggregated prefill\<close>

text \<open>
  Label collections. The command line hands the raw comma-separated text to the router, for
  which Python's \<^verbatim>\<open>in\<close> is substring search; the dynamic configuration hands a list.
\<close>

datatype labels = NoLabels | LabelText string | LabelList "string list"

fun label_in :: "string option \<Rightarrow> labels \<Rightarrow> bool result" where
  "label_in l NoLabels = Inl (TypeError ''argument of type NoneType is not iterable'')"
| "label_in None (LabelText s) = Inl (TypeError ''requires string as left operand'')"
| "label_in (Some l) (LabelText s) = Inr (contains_str s l)"
| "label_in None (LabelList ls) = Inr False"
| "label_in (Some l) (LabelList ls) = Inr (l \<in> set ls)"

fun select_labelled :: "labels \<Rightarrow> EndpointInfo list \<Rightarrow> EndpointInfo list result" where
  "select_labelled ls [] = Inr []"
| "select_labelled ls (e # es) = result_bind (label_in (model_label e) ls) (\<lambda>keep.
     result_bind (select_labelled ls es) (\<lambda>r. Inr (if keep then e # r else r)))"

record DisaggregatedPrefillRouter =
  dp_prefill_labels :: labels
  dp_decode_labels :: labels

text \<open>\<^verbatim>\<open>value == 1\<close> in Python, where \<^verbatim>\<open>True == 1\<close> and \<^verbatim>\<open>1.0 == 1\<close>.\<close>

fun json_eq_one :: "json \<Rightarrow> bool" where
  "json_eq_one (JInt i) = (i = 1)"
| "json_eq_one (JFloat r) = (r = 1)"
| "json_eq_one (JBool b) = b"
| "json_eq_one _ = False"

definition first_url :: "EndpointInfo list \<Rightarrow> url option result" where
  "first_url eps = (case eps of [] \<Rightarrow> Inl IndexError | e # _ \<Rightarrow> Inr (Some (ep_url e)))"

definition disagg_route ::
  "DisaggregatedPrefillRouter \<Rightarrow> EndpointInfo list \<Rightarrow> body \<Rightarrow> url option result" where
  "disagg_route s eps b =
     (let is_prefill = json_eq_one (dict_get b ''max_tokens'' (JInt 0)) in
      result_bind (select_labelled (dp_prefill_labels s) eps) (\<lambda>ps.
      result_bind (select_labelled (dp_decode_labels s) eps) (\<lambda>ds.
        if is_prefill then first_url ps else first_url ds)))"

record OrchestratedRouter =
  or_prefill_labels :: labels
  or_decode_labels :: labels
  prefill_idx :: int
  decode_idx :: int

text \<open>\<^verbatim>\<open>labels or []\<close>.\<close>

fun labels_or_empty :: "labels \<Rightarrow> labels" where
  "labels_or_empty NoLabels = LabelList []"
| "labels_or_empty (LabelText s) = (if s = [] then LabelList [] else LabelText s)"
| "labels_or_empty (LabelList ls) = LabelList ls"

definition orchestrated_init :: "labels \<Rightarrow> labels \<Rightarrow> OrchestratedRouter" where
  "orchestrated_init p d = \<lparr>or_prefill_labels = labels_or_empty p,
     or_decode_labels = labels_or_empty d, prefill_idx = 0, decode_idx = 0\<rparr>"

definition find_endpoints ::
  "OrchestratedRouter \<Rightarrow> EndpointInfo list \<Rightarrow> (EndpointInfo list \<times> EndpointInfo list) result" where
  "find_endpoints s eps =
     result_bind (select_labelled (or_prefill_labels s) eps) (\<lambda>ps.
     result_bind (select_labelled (or_decode_labels s) eps) (\<lambda>ds.
       if ps = [] then Inl (HTTPException 503
         ''PREFILL_SERVICE_UNAVAILABLE: No prefill endpoints discovered'')
       else if ds = [] then Inl (HTTPException 503
         ''DECODE_SERVICE_UNAVAILABLE: No decode endpoints discovered'')
       else Inr (ps, ds)))"

definition select_prefill_endpoint ::
  "OrchestratedRouter \<Rightarrow> EndpointInfo list \<Rightarrow> EndpointInfo result \<times> OrchestratedRouter" where
  "select_prefill_endpoint s eps =
     (if eps = [] then (Inl (ValueError ''No prefill endpoints available''), s)
      else (Inr (sort_key ep_url eps ! nat (prefill_idx s mod int (length eps))),
            s\<lparr>prefill_idx := prefill_idx s + 1\<rparr>))"

definition select_decode_endpoint ::
  "OrchestratedRouter \<Rightarrow> EndpointInfo list \<Rightarrow> EndpointInfo result \<times> OrchestratedRouter" where
  "select_decode_endpoint s eps =
     (if eps = [] then (Inl (ValueError ''No decode endpoints available''), s)
      else (Inr (sort_key ep_url eps ! nat (decode_idx s mod int (length eps))),
            s\<lparr>decode_idx := decode_idx s + 1\<rparr>))"

definition orchestrated_route :: "OrchestratedRouter \<Rightarrow> EndpointInfo list \<Rightarrow> url option result" where
  "orchestrated_route s eps = result_bind (find_endpoints s eps) (\<lambda>(ps, ds). first_url ps)"

section \<open>Facts about prefix affinity\<close>

definition pick_laws :: "(url set \<Rightarrow> url) \<Rightarrow> bool" where
  "pick_laws pick \<longleftrightarrow> (\<forall>S. finite S \<longrightarrow> S \<noteq> {} \<longrightarrow> pick S \<in> S)"

lemma pick_lawsD: "pick_laws pick \<Longrightarrow> S \<noteq> {} \<Longrightarrow> S \<subseteq> set xs \<Longrightarrow> pick S \<in> S"
  by (simp add: pick_laws_def finite_subset)

lemma pick_laws_Min: "pick_laws Min"
  by (simp add: pick_laws_def)

text \<open>Whatever branch answers, the answer is offered and the prompt is recorded for it.\<close>

lemma prefixaware_route_effect:
  assumes "pick_laws pick" "trie_ok (pa_hashtrie s)"
    and "prefixaware_route xxh pick s eps stats b = (Inr (Some u), s')"
  shows "\<exists>p. prompt_of_body b = Inr p \<and> u \<in> set (urls_of eps) \<and>
     s' = s\<lparr>pa_hashtrie := trie_insert xxh (pa_hashtrie s) p u\<rparr>"
proof -
  obtain p where p: "prompt_of_body b = Inr p"
    using assms(3) by (auto simp: prefixaware_route_def split: sum.splits)
  obtain len S where m: "longest_prefix_match xxh (pa_hashtrie s) p (set (urls_of eps)) = (len, S)"
    by fastforce
  have S: "S \<subseteq> set (urls_of eps)"
    using trie.lookup_available [OF assms(2), of xxh p "set (urls_of eps)"] m by simp
  have pick: "pick S \<in> set (urls_of eps)" if "S \<noteq> {}"
    using pick_lawsD [OF assms(1) that S] S by (rule rev_subsetD)
  show ?thesis
    using assms(3) p m qps_routing_in [of eps stats u] pick
    by (auto simp: prefixaware_route_def split: if_splits option.splits)
qed

lemma prefixaware_route_total:
  assumes "pick_laws pick" "trie_ok (pa_hashtrie s)" "prompt_of_body b = Inr p" "eps \<noteq> []"
  shows "\<exists>u s'. prefixaware_route xxh pick s eps stats b = (Inr (Some u), s')"
proof -
  obtain len S where m: "longest_prefix_match xxh (pa_hashtrie s) p (set (urls_of eps)) = (len, S)"
    by fastforce
  have "S \<noteq> {}"
    using trie.lookup_nonempty [OF assms(2), of "set (urls_of eps)" xxh p] m assms(4) by simp
  then show ?thesis
    using assms(3) m qps_routing_total [OF assms(4), of stats]
    by (auto simp: prefixaware_route_def)
qed

lemma prefixaware_route_ok:
  "trie_ok (pa_hashtrie s) \<Longrightarrow> trie_ok (pa_hashtrie (snd (prefixaware_route xxh pick s eps stats b)))"
  using trie.add_invar
  by (auto simp: prefixaware_route_def split: sum.splits if_splits option.splits prod.splits)

interpretation prefixaware: total_routing_policy
  "\<lambda>s eps (stats, b). prefixaware_route xxh pick s eps stats b"
  "\<lambda>s (stats, b). pick_laws pick \<and> trie_ok (pa_hashtrie s) \<and> is_ok (prompt_of_body b)" for xxh pick
proof (unfold_locales, goal_cases)
  case (1 s c eps u s')
  then show ?case using prefixaware_route_effect by (cases c) fastforce
next
  case (2 s c eps)
  then show ?case
    using prefixaware_route_total [of pick s "snd c" _ eps xxh "fst c"]
    by (fastforce simp: is_ok_iff case_prod_unfold)
next
  case (3 s c eps)
  then show ?case by (simp add: prefixaware_route_ok case_prod_unfold)
next
  case (4 s c eps)
  then show ?case using prefixaware_route_total by (cases c) (fastforce simp: is_ok_iff)
qed

section \<open>Facts about priorities\<close>

lemma min_by_in: "min_by f x xs \<in> insert x (set xs)"
proof (induction f x xs rule: min_by.induct)
  case (2 f x y ys)
  then show ?case by (auto split: if_splits)
qed simp

lemma min_by_least:
  assumes "sorted (x # xs)" "y \<in> insert x (set xs)"
  shows "f (min_by f x xs) < f y \<or> f (min_by f x xs) = f y \<and> min_by f x xs \<le> y"
  using assms
proof (induction f x xs arbitrary: y rule: min_by.induct)
  case (2 f x z zs)
  show ?case
  proof (cases "f z < f x")
    case True
    then show ?thesis using 2 by (cases "y = x") fastforce+
  next
    case False
    have s: "sorted (x # zs)" using 2(2) by simp
    then have ih: "v \<in> insert x (set zs) \<Longrightarrow>
        f (min_by f x zs) < f v \<or> f (min_by f x zs) = f v \<and> min_by f x zs \<le> v" for v
      using 2(1) False by simp
    show ?thesis
    proof (cases "y = z")
      case True
      then show ?thesis using ih [of x] False 2(2) by auto
    next
      case neq: False
      then show ?thesis using ih [of y] 2(3) False by auto
    qed
  qed
qed simp

text \<open>The index table holds natural numbers.\<close>

definition pr_ok :: "PriorityRouter \<Rightarrow> bool" where
  "pr_ok s \<longleftrightarrow> (\<forall>k i. map_of (pr_next_index s) k = Some i \<longrightarrow> 0 \<le> i)"

definition priority_route_url ::
  "PriorityRouter \<Rightarrow> EndpointInfo list \<Rightarrow> request_stats \<times> headers \<times> body
     \<Rightarrow> url option result \<times> PriorityRouter" where
  "priority_route_url s eps c = (case c of (stats, hs, b) \<Rightarrow>
     (case priority_route s eps stats hs b of
        (Inl x, s') \<Rightarrow> (Inl x, s') | (Inr (u, b'), s') \<Rightarrow> (Inr u, s')))"

lemma extract_priority_warned [simp]:
  "body_priority (s\<lparr>warned_scheduling_policy := w\<rparr>) b = body_priority s b"
  "extract_priority (s\<lparr>warned_scheduling_policy := w\<rparr>) hs b = extract_priority s hs b"
proof -
  show b: "body_priority (s\<lparr>warned_scheduling_policy := w\<rparr>) b = body_priority s b"
    by (simp add: body_priority_def split: option.split json.split)
  show "extract_priority (s\<lparr>warned_scheduling_policy := w\<rparr>) hs b = extract_priority s hs b"
    by (simp add: extract_priority_def b split: option.split)
qed

lemma priority_pick_in:
  assumes "eps \<noteq> []"
  shows "min_by f (hd (sort (urls_of eps))) (tl (sort (urls_of eps))) \<in> set (urls_of eps)"
    and "sort (urls_of eps) ! nat (i mod int (length (sort (urls_of eps)))) \<in> set (urls_of eps)"
proof -
  have ne: "sort (urls_of eps) \<noteq> []" using assms by (metis length_0_conv length_sort list.map_disc_iff)
  show "min_by f (hd (sort (urls_of eps))) (tl (sort (urls_of eps))) \<in> set (urls_of eps)"
    using min_by_in [of f "hd (sort (urls_of eps))" "tl (sort (urls_of eps))"] ne
    by (metis list.collapse list.simps(15) set_sort)
  have "nat (i mod int (length (sort (urls_of eps)))) < length (sort (urls_of eps))"
    using assms by (simp add: nat_less_iff)
  then show "sort (urls_of eps) ! nat (i mod int (length (sort (urls_of eps)))) \<in> set (urls_of eps)"
    using nth_mem set_sort by metis
qed

lemma priority_route_ok:
  assumes "eps \<noteq> []"
  shows "\<exists>u s'. priority_route s eps stats hs b =
      (Inr (Some u, dict_set b (priority_field s) (JInt (extract_priority s hs b))), s') \<and>
     u \<in> set (urls_of eps) \<and> (pr_ok s \<longrightarrow> pr_ok s')"
proof -
  show ?thesis
    using assms priority_pick_in [OF assms]
    by (auto simp: priority_route_def pr_ok_def dict_get_def split: option.split)
qed

lemma priority_route_url_answer:
  assumes "eps \<noteq> []"
  shows "\<exists>u s'. priority_route_url s eps c = (Inr (Some u), s') \<and> u \<in> set (urls_of eps) \<and>
     (pr_ok s \<longrightarrow> pr_ok s')"
  using priority_route_ok [OF assms, of s "fst c" "fst (snd c)" "snd (snd c)"]
  by (auto simp: priority_route_url_def case_prod_unfold)

lemma priority_route_url_empty: "\<exists>x. priority_route_url s [] c = (Inl x, s)"
  by (simp add: priority_route_url_def priority_route_def split: prod.split)

interpretation priority: total_routing_policy priority_route_url "\<lambda>s c. pr_ok s"
proof (unfold_locales, goal_cases)
  case (1 s c eps u s')
  then show ?case
    using priority_route_url_answer [of eps s c] priority_route_url_empty [of s c]
    by (cases "eps = []") auto
next
  case (2 s c eps)
  then show ?case using priority_route_url_answer [of eps s c] by auto
next
  case (3 s c eps)
  then show ?case
    using priority_route_url_answer [of eps s c] priority_route_url_empty [of s c]
    by (cases "eps = []") auto
next
  case (4 s c eps)
  then show ?case using priority_route_url_answer [of eps s c] by blast
qed

section \<open>Facts about labels\<close>

lemma select_labelled_subset:
  "select_labelled ls eps = Inr r \<Longrightarrow> set r \<subseteq> set eps"
  by (induction ls eps arbitrary: r rule: select_labelled.induct) (fastforce split: if_splits)+

lemma select_labelled_list:
  "select_labelled (LabelList ls) eps =
     Inr (filter (\<lambda>e. \<exists>l. model_label e = Some l \<and> l \<in> set ls) eps)"
proof (induction eps)
  case (Cons e eps)
  then show ?case by (cases "model_label e") simp_all
qed simp

lemma first_url_in: "first_url eps = Inr (Some u) \<Longrightarrow> u \<in> set (urls_of eps)"
  by (auto simp: first_url_def split: list.splits)

lemma disagg_route_sound:
  "disagg_route s eps b = Inr (Some u) \<Longrightarrow> u \<in> set (urls_of eps)"
  using select_labelled_subset first_url_in
  by (fastforce simp: disagg_route_def split: if_splits)

lemma find_endpoints_sound:
  "find_endpoints s eps = Inr (ps, ds) \<Longrightarrow>
   set ps \<subseteq> set eps \<and> set ds \<subseteq> set eps \<and> ps \<noteq> [] \<and> ds \<noteq> []"
  using select_labelled_subset by (fastforce simp: find_endpoints_def split: if_splits)

lemma orchestrated_route_sound:
  "orchestrated_route s eps = Inr (Some u) \<Longrightarrow> u \<in> set (urls_of eps)"
  using find_endpoints_sound first_url_in by (fastforce simp: orchestrated_route_def)

lemma first_url_some: "first_url eps \<noteq> Inr None"
  by (simp add: first_url_def split: list.split)

interpretation disagg: routing_policy "\<lambda>s eps b. (disagg_route s eps b, s)" "\<lambda>s c. True"
  using first_url_some
  by unfold_locales (auto dest: disagg_route_sound, auto simp: disagg_route_def split: if_splits)

interpretation orchestrated: routing_policy "\<lambda>s eps (c::unit). (orchestrated_route s eps, s)" "\<lambda>s c. True"
  using first_url_some
  by unfold_locales (auto dest: orchestrated_route_sound, auto simp: orchestrated_route_def)

section \<open>Facts about decimal text\<close>

lemma digits_value_append:
  "list_all is_digit ds \<Longrightarrow> digits_value (ds @ [c]) acc =
     (if is_digit c then digits_value ds acc * 10 + (of_char c - 48) else digits_value ds acc)"
  by (induction ds acc rule: digits_value.induct) auto

lemma is_digit_digit_char [simp]: "d < 10 \<Longrightarrow> is_digit (digit_char d)"
  by (simp add: is_digit_def of_char_digit_char)

lemma str_of_nat_all_digits: "list_all is_digit (str_of_nat n)"
  using str_of_nat_digits by (fastforce simp: list_all_iff)

lemma digits_value_str_of_nat: "digits_value (str_of_nat n) 0 = n"
proof (induction n rule: str_of_nat.induct)
  case (1 n)
  show ?case
  proof (cases "n < 10")
    case True
    then show ?thesis by (simp add: str_of_nat.simps [of n] of_char_digit_char)
  next
    case False
    then show ?thesis
      using 1 by (simp add: str_of_nat.simps [of n] digits_value_append str_of_nat_all_digits
          of_char_digit_char)
  qed
qed

lemma digit_not_special:
  "is_digit c \<Longrightarrow> c \<noteq> CHR ''_'' \<and> c \<noteq> CHR ''-'' \<and> c \<noteq> CHR ''+'' \<and> \<not> is_space c"
  by (auto simp: is_digit_def is_space_def)

lemma parse_digits_str_of_nat: "parse_digits (str_of_nat n) = Some n"
proof -
  have "CHR ''_'' \<notin> set (str_of_nat n)"
    using str_of_nat_all_digits [of n] digit_not_special by (auto simp: list_all_iff)
  then show ?thesis
    by (simp add: parse_digits_def str_split_absent str_of_nat_not_Nil str_of_nat_all_digits
        digits_value_str_of_nat)
qed

lemma str_strip_trim:
  assumes "s \<noteq> []" "\<not> is_space (hd s)" "\<not> is_space (last s)"
  shows "str_strip s = s"
proof -
  have "dropWhile is_space s = s" using assms by (cases s) auto
  moreover have "dropWhile is_space (rev s) = rev s"
    using assms by (cases s rule: rev_cases) auto
  ultimately show ?thesis by (simp add: str_strip_def)
qed

lemma parse_int_str_of_int: "parse_int (str_of_int i) = Some i"
proof -
  have d: "is_digit (hd (str_of_nat n))" "is_digit (last (str_of_nat n))" for n
    using str_of_nat_all_digits [of n] str_of_nat_not_Nil [of n] by (auto simp: list_all_iff)
  show ?thesis
  proof (cases "i < 0")
    case True
    have "str_strip (CHR ''-'' # str_of_nat (nat (- i))) = CHR ''-'' # str_of_nat (nat (- i))"
      using d digit_not_special str_of_nat_not_Nil by (intro str_strip_trim) (auto simp: is_space_def)
    then show ?thesis
      using True by (simp add: parse_int_def str_of_int_def parse_digits_str_of_nat)
  next
    case False
    obtain c cs where c: "str_of_nat (nat i) = c # cs" using str_of_nat_not_Nil by (meson neq_Nil_conv)
    have "str_strip (str_of_nat (nat i)) = str_of_nat (nat i)"
      using d digit_not_special str_of_nat_not_Nil by (intro str_strip_trim) auto
    then show ?thesis
      using False d(1) [of "nat i"] digit_not_special [of c] c parse_digits_str_of_nat [of "nat i"]
      by (simp add: parse_int_def str_of_int_def)
  qed
qed

section \<open>Properties\<close>

text \<open>Prefix affinity takes effect whatever branch routed the first request: if a prompt was sent
  to an engine, then over any later endpoint list that still offers this engine the same prompt
  is matched in full and this engine is among the selected ones; with a minimum match length not
  above the prompt's, the answer is then one of the selected engines.\<close>

theorem prefix_affinity_activates:
  assumes "pick_laws pick" "trie_ok (pa_hashtrie s)"
    and "prefixaware_route xxh pick s eps stats b = (Inr (Some u), s')"
    and "u \<in> set (urls_of eps')" "prompt_of_body b = Inr p"
    and "prefix_min_match_length s \<le> int (length p)"
  shows "\<exists>len S. longest_prefix_match xxh (pa_hashtrie s') p (set (urls_of eps')) = (len, S) \<and>
     length p \<le> len \<and> u \<in> S \<and> S \<subseteq> set (urls_of eps') \<and>
     fst (prefixaware_route xxh pick s' eps' stats' b) = Inr (Some (pick S))"
proof -
  have s': "s' = s\<lparr>pa_hashtrie := trie_insert xxh (pa_hashtrie s) p u\<rparr>"
    using prefixaware_route_effect [OF assms(1-3)] assms(5) by auto
  have ok: "trie_ok (pa_hashtrie s')" using s' trie.add_invar [OF assms(2)] by simp
  obtain len S where m: "longest_prefix_match xxh (pa_hashtrie s') p (set (urls_of eps')) = (len, S)"
    by fastforce
  have "length p \<le> len" "u \<in> S"
    using trie.lookup_added [OF assms(2,4), of p xxh] m s' by simp_all
  moreover have "S \<subseteq> set (urls_of eps')"
    using trie.lookup_available [OF ok, of xxh p "set (urls_of eps')"] m by simp
  moreover have "\<not> int len < prefix_min_match_length s'" using assms(6) \<open>length p \<le> len\<close> s' by simp
  ultimately show ?thesis using m assms(5) by (auto simp: prefixaware_route_def)
qed

theorem prefix_affinity_activates_witness:
  "\<exists>len S. longest_prefix_match (\<lambda>s. int (length s))
      (trie_insert (\<lambda>s. int (length s)) (hash_trie_init 128) ''hello'' ''a'') ''hello'' {''a'', ''b''} = (len, S) \<and>
      length ''hello'' \<le> len \<and> ''a'' \<in> S"
proof -
  let ?s = "prefixaware_init 3" and ?x = "\<lambda>s. int (length s)" and ?b = "[(''prompt'', JStr ''hello'')]"
  have ok: "trie_ok (pa_hashtrie ?s)"
    by (simp add: trie_ok_def prefixaware_init_def hash_trie_init_def default_chunk_size_def downward_init)
  have p: "prompt_of_body ?b = Inr ''hello''" by (simp add: prompt_of_body_def)
  have r: "prefixaware_route ?x Min ?s [ep_example ''a''] [] ?b =
      (Inr (Some ''a''), ?s\<lparr>pa_hashtrie := trie_insert ?x (pa_hashtrie ?s) ''hello'' ''a''\<rparr>)"
    by (simp add: prefixaware_route_def p longest_prefix_match_def chunk_and_hash_def chunks.simps
        prefixaware_init_def hash_trie_init_def default_chunk_size_def trie_node_init_def
        qps_routing_def)
  from prefix_affinity_activates [OF pick_laws_Min ok r, of "[ep_example ''a'', ep_example ''b'']" "''hello''" "[]"] p
  show ?thesis
    by (auto simp: prefixaware_init_def default_chunk_size_def)
qed

text \<open>C24. Urgent requests go to the least loaded engine: below the priority threshold the answer is an
  offered engine with the fewest in-flight requests, the first in alphabetical order among those,
  and the resolved priority is written into the forwarded body.\<close>

theorem priority_urgent_least_loaded:
  assumes "eps \<noteq> []" "extract_priority s hs b < priority_threshold s"
  shows "\<exists>u \<in> set (urls_of eps). \<exists>s'.
     priority_route s eps stats hs b =
       (Inr (Some u, dict_set b (priority_field s) (JInt (extract_priority s hs b))), s') \<and>
     (\<forall>v \<in> set (urls_of eps). engine_load stats u < engine_load stats v \<or>
        engine_load stats u = engine_load stats v \<and> u \<le> v)"
proof -
  let ?us = "sort (urls_of eps)"
  let ?u = "min_by (engine_load stats) (hd ?us) (tl ?us)"
  have "?us \<noteq> []" using assms(1) by (metis length_0_conv length_sort list.map_disc_iff)
  then have us: "hd ?us # tl ?us = ?us" by simp
  have "sorted (hd ?us # tl ?us)" "insert (hd ?us) (set (tl ?us)) = set (urls_of eps)"
    unfolding us using us by (simp, metis list.simps(15) set_sort)
  then have best: "\<forall>v \<in> set (urls_of eps). engine_load stats ?u < engine_load stats v \<or>
        engine_load stats ?u = engine_load stats v \<and> ?u \<le> v"
    using min_by_least by blast
  have "priority_route s eps stats hs b =
     (Inr (Some ?u, dict_set b (priority_field s) (JInt (extract_priority s hs b))),
      s\<lparr>warned_scheduling_policy := True\<rparr>)"
    using assms by (simp add: priority_route_def)
  then show ?thesis using priority_pick_in(1) [OF assms(1)] best by blast
qed

theorem priority_urgent_least_loaded_witness:
  "\<exists>u s'. priority_route (priority_init ''x-request-priority'' ''priority'' 0 None)
       [ep_example ''b'', ep_example ''a''] [] [(''X-Request-Priority'', ''-3'')] [] =
     (Inr (Some u, [(''priority'', JInt (-3))]), s') \<and> (u = ''a'' \<or> u = ''b'')"
proof -
  let ?s = "priority_init ''x-request-priority'' ''priority'' 0 None"
  have p: "extract_priority ?s [(''X-Request-Priority'', ''-3'')] [] = -3" by code_simp
  have "extract_priority ?s [(''X-Request-Priority'', ''-3'')] [] < priority_threshold ?s"
    unfolding p by (simp add: priority_init_def)
  from priority_urgent_least_loaded [OF _ this, of "[ep_example ''b'', ep_example ''a'']" "[]"]
  show ?thesis unfolding p by (auto simp: priority_init_def)
qed

text \<open>Priorities survive the wire: the decimal text of any integer, put in the priority header,
  is read back as that integer, and it overrides whatever the body says.\<close>

theorem priority_header_roundtrip:
  "extract_priority s [(priority_header s, str_of_int i)] b = i"
  by (simp add: extract_priority_def header_get_def parse_int_str_of_int)

definition having_label :: "string list \<Rightarrow> EndpointInfo list \<Rightarrow> EndpointInfo list" where
  "having_label ls eps = filter (\<lambda>e. \<exists>l. model_label e = Some l \<and> l \<in> set ls) eps"

text \<open>The orchestrated router pairs pools correctly: with label lists it raises a 503 exactly when
  no offered endpoint carries a prefill label or none carries a decode label, and otherwise returns
  exactly the endpoints that carry them.\<close>

theorem orchestrated_pools_exact:
  assumes "or_prefill_labels s = LabelList pl" "or_decode_labels s = LabelList dl"
  shows "find_endpoints s eps =
    (if having_label pl eps = [] then Inl (HTTPException 503
       ''PREFILL_SERVICE_UNAVAILABLE: No prefill endpoints discovered'')
     else if having_label dl eps = [] then Inl (HTTPException 503
       ''DECODE_SERVICE_UNAVAILABLE: No decode endpoints discovered'')
     else Inr (having_label pl eps, having_label dl eps))"
  by (simp add: find_endpoints_def assms select_labelled_list having_label_def)

theorem orchestrated_pools_exact_witness:
  "find_endpoints (orchestrated_init (LabelList [''p'']) (LabelList [''d'']))
     [ep_example ''a''\<lparr>model_label := Some ''p''\<rparr>] =
   Inl (HTTPException 503 ''DECODE_SERVICE_UNAVAILABLE: No decode endpoints discovered'')"
  using orchestrated_pools_exact [of "orchestrated_init (LabelList [''p'']) (LabelList [''d''])"
      "[''p'']" "[''d'']" "[ep_example ''a''\<lparr>model_label := Some ''p''\<rparr>]"]
  by (simp add: orchestrated_init_def having_label_def)

text \<open>Label text is not a label list: an endpoint whose label is none of the comma-separated labels
  is selected when its label occurs inside the text, which is how the routers treat the value
  the command line hands them.\<close>

theorem comma_labels_match_substrings:
  "\<exists>text lbl. lbl \<notin> set (str_split '','' text) \<and> label_in (Some lbl) (LabelText text) = Inr True \<and>
     label_in (Some lbl) (LabelList (str_split '','' text)) = Inr False"
proof (intro exI conjI)
  show "''prefill'' \<notin> set (str_split '','' ''prefill-a,decode'')" by code_simp
  show "label_in (Some ''prefill'') (LabelText ''prefill-a,decode'') = Inr True"
    by (simp add: startswith_def)
  show "label_in (Some ''prefill'') (LabelList (str_split '','' ''prefill-a,decode'')) = Inr False"
    by code_simp
qed

end
