(* ===== verification/Service_Discovery.thy ===== *)
theory Service_Discovery
  imports Attempt Routing_Policies
begin

text \<open>
  Service discovery: \<^verbatim>\<open>StaticServiceDiscovery\<close>, the two Kubernetes watchers and the global
  registry of \<^verbatim>\<open>src/src/vllm_router/service_discovery.py\<close>, with the health probe of
  \<^verbatim>\<open>src/src/vllm_router/utils.py\<close>. A watcher is a step function on the events of the cluster;
  what the engine and the cluster API answer while an event is handled is part of the event.
  The answers of an engine follow its API: the identifier of a model is a string, and an answer
  with another kind of identifier counts as malformed.
\<close>

section \<open>Answers over HTTP\<close>

text \<open>The answer to one request: a status and a body, or a \<^verbatim>\<open>RequestException\<close>.\<close>

datatype http_reply = Reply int payload | RequestFailed

text \<open>\<^verbatim>\<open>raise_for_status\<close>: the body, unless the request failed or the status is an error.\<close>

fun raise_for_status :: "http_reply \<Rightarrow> payload option" where
  "raise_for_status (Reply st b) = (if 400 \<le> st \<and> st < 600 then None else Some b)"
| "raise_for_status RequestFailed = None"

definition reply_json :: "http_reply \<Rightarrow> json option" where
  "reply_json r = (case raise_for_status r of None \<Rightarrow> None | Some b \<Rightarrow> json_loads b)"

text \<open>\<^verbatim>\<open>response.json()["data"]\<close>, iterated.\<close>

definition models_data :: "http_reply \<Rightarrow> json list option" where
  "models_data r = (case reply_json r of None \<Rightarrow> None
   | Some j \<Rightarrow> (case result_bind (json_index j ''data'') json_iter of
        Inl _ \<Rightarrow> None | Inr xs \<Rightarrow> Some xs))"

definition model_id :: "json \<Rightarrow> string option" where
  "model_id m = (case json_index m ''id'' of Inr (JStr s) \<Rightarrow> Some s | _ \<Rightarrow> None)"

fun model_ids :: "json list \<Rightarrow> string list option" where
  "model_ids [] = Some []"
| "model_ids (m # ms) = (case (model_id m, model_ids ms) of
     (Some i, Some is) \<Rightarrow> Some (i # is) | _ \<Rightarrow> None)"

text \<open>\<^verbatim>\<open>_get_model_names\<close>: any failure gives the empty list.\<close>

definition get_model_names :: "http_reply \<Rightarrow> string list" where
  "get_model_names r = (case models_data r of None \<Rightarrow> []
   | Some ms \<Rightarrow> (case model_ids ms of None \<Rightarrow> [] | Some is \<Rightarrow> is))"

fun model_info_table :: "int \<Rightarrow> json list \<Rightarrow> (string, ModelInfo) dict \<Rightarrow> (string, ModelInfo) dict option" where
  "model_info_table now [] d = Some d"
| "model_info_table now (m # ms) d = (case (model_id m, m) of
     (Some i, JObj fs) \<Rightarrow> model_info_table now ms (dict_set d i (model_info_from_dict now fs))
   | _ \<Rightarrow> None)"

definition get_engine_model_info :: "int \<Rightarrow> http_reply \<Rightarrow> (string, ModelInfo) dict" where
  "get_engine_model_info now r = (case models_data r of None \<Rightarrow> []
   | Some ms \<Rightarrow> (case model_info_table now ms [] of None \<Rightarrow> [] | Some d \<Rightarrow> d))"

text \<open>\<^verbatim>\<open>_get_engine_sleep_status\<close>: the value is used by its truth.\<close>

definition get_engine_sleep_status :: "http_reply \<Rightarrow> bool" where
  "get_engine_sleep_status r = (case reply_json r of None \<Rightarrow> False
   | Some j \<Rightarrow> (case json_index j ''is_sleeping'' of Inl _ \<Rightarrow> False | Inr v \<Rightarrow> py_truthy v))"

text \<open>
  The containers of a pod, with their names and commands: sleep mode is on when the first
  container called \<^verbatim>\<open>vllm\<close> keeps the entry point of its image or has the flag.
\<close>

type_synonym container = "string \<times> string list option"

definition container_sleep_mode :: "container list \<Rightarrow> bool" where
  "container_sleep_mode cs = (case find (\<lambda>(n, c). n = ''vllm'') cs of
     None \<Rightarrow> False
   | Some (n, None) \<Rightarrow> True
   | Some (n, Some cmd) \<Rightarrow> cmd = [] \<or> ''--enable-sleep-mode'' \<in> set cmd)"

section \<open>Clients of the prefill and decode pools\<close>

record app_clients =
  prefill_client :: "url option"
  decode_client :: "url option"

fun session_loop :: "labels \<Rightarrow> labels \<Rightarrow> EndpointInfo list \<Rightarrow> app_clients \<Rightarrow> unit result \<times> app_clients" where
  "session_loop p d [] a = (Inr (), a)"
| "session_loop p d (e # es) a = (case label_in (model_label e) p of
     Inl x \<Rightarrow> (Inl x, a)
   | Inr True \<Rightarrow> session_loop p d es (a\<lparr>prefill_client := Some (ep_url e)\<rparr>)
   | Inr False \<Rightarrow> (case label_in (model_label e) d of
       Inl x \<Rightarrow> (Inl x, a)
     | Inr True \<Rightarrow> session_loop p d es (a\<lparr>decode_client := Some (ep_url e)\<rparr>)
     | Inr False \<Rightarrow> session_loop p d es a))"

definition initialize_client_sessions ::
  "labels \<Rightarrow> labels \<Rightarrow> EndpointInfo list \<Rightarrow> app_clients \<Rightarrow> unit result \<times> app_clients" where
  "initialize_client_sessions p d eps a =
     (if p \<noteq> NoLabels \<and> d \<noteq> NoLabels then session_loop p d eps a else (Inr (), a))"

section \<open>Health probes\<close>

datatype ModelType =
    MT_chat | MT_completion | MT_embeddings | MT_rerank | MT_score | MT_transcription
  | MT_vision | MT_messages

definition get_all_fields :: "(string \<times> ModelType) list" where
  "get_all_fields = [(''chat'', MT_chat), (''completion'', MT_completion),
     (''embeddings'', MT_embeddings), (''rerank'', MT_rerank), (''score'', MT_score),
     (''transcription'', MT_transcription), (''vision'', MT_vision), (''messages'', MT_messages)]"

text \<open>\<^verbatim>\<open>ModelType[name]\<close>.\<close>

definition model_type_of :: "string \<Rightarrow> ModelType result" where
  "model_type_of n = (case map_of get_all_fields n of None \<Rightarrow> Inl (KeyError n) | Some t \<Rightarrow> Inr t)"

fun model_type_url :: "ModelType \<Rightarrow> string" where
  "model_type_url MT_chat = ''/v1/chat/completions''"
| "model_type_url MT_vision = ''/v1/chat/completions''"
| "model_type_url MT_completion = ''/v1/completions''"
| "model_type_url MT_embeddings = ''/v1/embeddings''"
| "model_type_url MT_rerank = ''/v1/rerank''"
| "model_type_url MT_score = ''/v1/score''"
| "model_type_url MT_transcription = ''/v1/audio/transcriptions''"
| "model_type_url MT_messages = ''/v1/messages''"

definition hello_messages :: "(string, json) dict" where
  "hello_messages =
     [(''messages'', JList [JObj [(''role'', JStr ''user''), (''content'', JStr ''Hello'')]]),
      (''temperature'', JFloat 0), (''max_tokens'', JInt 3)]"

definition test_image :: string where
  "test_image = ''data:image/jpeg;base64,iVBORw0KGgoAAAANSUhEUgAAAAIAAAACCAIAAAD91JpzAAAAG0lEQVR4nGLinfJq851wJn69udZSvIAAAAD//yf3BLKCfW8HAAAAAElFTkSuQmCC''"

text \<open>The probe bodies; the transcription probe is a form with a file, not JSON.\<close>

fun get_test_payload :: "ModelType \<Rightarrow> (string, json) dict" where
  "get_test_payload MT_chat = hello_messages"
| "get_test_payload MT_completion = [(''prompt'', JStr ''Hello''), (''max_tokens'', JInt 3)]"
| "get_test_payload MT_embeddings = [(''input'', JStr ''Hello'')]"
| "get_test_payload MT_rerank = [(''query'', JStr ''Hello''), (''documents'', JList [JStr ''Test''])]"
| "get_test_payload MT_score = [(''encoding_format'', JStr ''float''), (''text_1'', JStr ''Test''),
     (''text_2'', JStr ''Test2'')]"
| "get_test_payload MT_messages = hello_messages"
| "get_test_payload MT_transcription = []"
| "get_test_payload MT_vision =
     [(''messages'', JList [JObj [(''role'', JStr ''user''), (''content'', JList
        [JObj [(''type'', JStr ''text''), (''text'', JStr ''This is a test. Just reply with yes'')],
         JObj [(''type'', JStr ''image_url''), (''image_url'', JObj [(''url'', JStr test_image)])]])]])]"

text \<open>A probe request: a JSON body, or the form with the silent sound file.\<close>

datatype probe_request = ProbeJson url "(string, json) dict" | ProbeForm url string

definition is_model_healthy ::
  "(probe_request \<Rightarrow> http_reply) \<Rightarrow> url \<Rightarrow> string \<Rightarrow> string \<Rightarrow> bool result" where
  "is_model_healthy post url model mtype = result_bind (model_type_of mtype) (\<lambda>t.
     if t = MT_transcription
     then Inr (raise_for_status (post (ProbeForm (url @ model_type_url t) model)) \<noteq> None)
     else Inr (reply_json (post (ProbeJson (url @ model_type_url t)
                 (dict_update_all [(''model'', JStr model)] (get_test_payload t)))) \<noteq> None))"

section \<open>Static discovery\<close>

record StaticDiscovery =
  st_urls :: "url list"
  st_models :: "string list"
  st_aliases :: "(string, string) dict option"
  st_model_labels :: "string list option"
  st_model_types :: "string list option"
  st_engines_id :: "string list"
  st_added_timestamp :: int
  st_unhealthy :: "string list"
  st_prefill_labels :: labels
  st_decode_labels :: labels

text \<open>\<open>uuid\<close> numbers the fresh engine identifiers.\<close>

definition static_init ::
  "(nat \<Rightarrow> string) \<Rightarrow> int \<Rightarrow> url list \<Rightarrow> string list \<Rightarrow> (string, string) dict option \<Rightarrow> string list option
     \<Rightarrow> string list option \<Rightarrow> labels \<Rightarrow> labels \<Rightarrow> StaticDiscovery result" where
  "static_init uuid now us models aliases mlabels types p d =
     (if length us \<noteq> length models then Inl (AssertionError ''URLs and models should have the same length'')
      else Inr \<lparr>st_urls = us, st_models = models, st_aliases = aliases, st_model_labels = mlabels,
        st_model_types = types, st_engines_id = map uuid [0..<length us], st_added_timestamp = now,
        st_unhealthy = [], st_prefill_labels = p, st_decode_labels = d\<rparr>)"

text \<open>\<open>md5\<close> is the hexadecimal digest.\<close>

definition get_model_endpoint_hash :: "(string \<Rightarrow> string) \<Rightarrow> url \<Rightarrow> string \<Rightarrow> string" where
  "get_model_endpoint_hash md5 url model = md5 (url @ model)"

text \<open>
  The probe loop over the strict \<^verbatim>\<open>zip\<close>: when the lists have different lengths the
  \<^verbatim>\<open>ValueError\<close> is caught and what was collected is returned.
\<close>

fun unhealthy_loop ::
  "(probe_request \<Rightarrow> http_reply) \<Rightarrow> (string \<Rightarrow> string) \<Rightarrow> url list \<Rightarrow> string list \<Rightarrow> string list
     \<Rightarrow> string list \<Rightarrow> string list result" where
  "unhealthy_loop post md5 (u # us) (m # ms) (t # ts) acc = (case is_model_healthy post u m t of
     Inl x \<Rightarrow> Inl x
   | Inr True \<Rightarrow> unhealthy_loop post md5 us ms ts acc
   | Inr False \<Rightarrow> unhealthy_loop post md5 us ms ts (acc @ [get_model_endpoint_hash md5 u m]))"
| "unhealthy_loop post md5 us ms ts acc = Inr acc"

definition get_unhealthy_endpoint_hashes ::
  "(probe_request \<Rightarrow> http_reply) \<Rightarrow> (string \<Rightarrow> string) \<Rightarrow> StaticDiscovery \<Rightarrow> string list result" where
  "get_unhealthy_endpoint_hashes post md5 s = (case st_model_types s of
     None \<Rightarrow> Inl (TypeError ''zip argument must support iteration'')
   | Some ts \<Rightarrow> unhealthy_loop post md5 (st_urls s) (st_models s) ts [])"

text \<open>One round of \<^verbatim>\<open>check_model_health\<close>: an exception leaves the last verdict in place.\<close>

definition check_model_health ::
  "(string \<Rightarrow> string) \<Rightarrow> StaticDiscovery \<Rightarrow> (probe_request \<Rightarrow> http_reply) \<Rightarrow> StaticDiscovery" where
  "check_model_health md5 s post = (case get_unhealthy_endpoint_hashes post md5 s of
     Inl _ \<Rightarrow> s | Inr hs \<Rightarrow> s\<lparr>st_unhealthy := hs\<rparr>)"

definition static_model_info :: "int \<Rightarrow> string \<Rightarrow> (string, ModelInfo) dict" where
  "static_model_info now m =
     [(m, \<lparr>mi_id = JStr m, mi_object = JStr ''model'', mi_created = JInt now,
           mi_owned_by = JStr ''vllm'', mi_root = JNull, mi_parent = JNull, mi_is_adapter = False,
           mi_extra_fields = None\<rparr>)]"

definition static_endpoint :: "int \<Rightarrow> StaticDiscovery \<Rightarrow> nat \<Rightarrow> url \<Rightarrow> string \<Rightarrow> string \<Rightarrow> EndpointInfo" where
  "static_endpoint now s i u m label =
     \<lparr>ep_url = u, model_names = [m], ep_Id = st_engines_id s ! i,
      added_timestamp = real_of_int (st_added_timestamp s), model_label = Some label, sleep = False,
      healthy = True, pod_name = None, service_name = None, ep_namespace = None,
      model_info = Some (static_model_info now m)\<rparr>"

fun static_loop ::
  "(string \<Rightarrow> string) \<Rightarrow> int \<Rightarrow> StaticDiscovery \<Rightarrow> nat \<Rightarrow> (url \<times> string) list \<Rightarrow> EndpointInfo list result" where
  "static_loop md5 now s i [] = Inr []"
| "static_loop md5 now s i ((u, m) # rest) =
     (if get_model_endpoint_hash md5 u m \<in> set (st_unhealthy s) then static_loop md5 now s (Suc i) rest
      else result_bind (case st_model_labels s of
             None \<Rightarrow> Inr ''default''
           | Some ls \<Rightarrow> if ls = [] then Inr ''default''
                        else if i < length ls then Inr (ls ! i) else Inl IndexError) (\<lambda>label.
           result_bind (static_loop md5 now s (Suc i) rest) (\<lambda>es.
             Inr (static_endpoint now s i u m label # es))))"

definition static_endpoints :: "(string \<Rightarrow> string) \<Rightarrow> int \<Rightarrow> StaticDiscovery \<Rightarrow> EndpointInfo list result" where
  "static_endpoints md5 now s = static_loop md5 now s 0 (zip (st_urls s) (st_models s))"

definition static_has_ever_seen_model :: "StaticDiscovery \<Rightarrow> string \<Rightarrow> bool" where
  "static_has_ever_seen_model s m \<longleftrightarrow> m \<in> set (st_models s) \<or>
     (case st_aliases s of None \<Rightarrow> False | Some a \<Rightarrow> m \<in> fst ` set a)"

section \<open>Watching pods\<close>

record PodIPDiscovery =
  pd_namespace :: string
  pd_port :: string
  pd_available :: "(string, EndpointInfo) dict"
  pd_known_models :: "string set"
  pd_prefill_labels :: labels
  pd_decode_labels :: labels
  pd_loop_ready :: bool
  pd_clients :: app_clients

definition pod_init :: "string \<Rightarrow> string \<Rightarrow> labels \<Rightarrow> labels \<Rightarrow> PodIPDiscovery" where
  "pod_init ns port p d = \<lparr>pd_namespace = ns, pd_port = port, pd_available = [],
     pd_known_models = {}, pd_prefill_labels = p, pd_decode_labels = d, pd_loop_ready = False,
     pd_clients = \<lparr>prefill_client = None, decode_client = None\<rparr>\<rparr>"

text \<open>
  An event of the pod watch, with the answers obtained while it is handled: the model list for
  the names, the model list for the details, the pod's containers (\<open>None\<close> for an API error)
  and the sleep status.
\<close>

record pod_event =
  pe_type :: string
  pe_name :: string
  pe_ip :: "string option"
  pe_container_statuses :: "bool list option"
  pe_deletion_timestamp :: "time option"
  pe_labels :: "(string, string) dict option"
  pe_names_reply :: http_reply
  pe_info_reply :: http_reply
  pe_containers :: "container list option"
  pe_sleep_reply :: http_reply
  pe_now :: int

definition check_pod_ready :: "bool list option \<Rightarrow> bool" where
  "check_pod_ready statuses = (case statuses of
     None \<Rightarrow> False
   | Some ss \<Rightarrow> ss \<noteq> [] \<and> length (filter (\<lambda>r. r) ss) = length ss)"

definition is_pod_terminating :: "pod_event \<Rightarrow> bool" where
  "is_pod_terminating ev = (pe_deletion_timestamp ev \<noteq> None)"

definition check_engine_sleep_mode :: "container list option \<Rightarrow> bool" where
  "check_engine_sleep_mode cs = (case cs of None \<Rightarrow> False | Some l \<Rightarrow> container_sleep_mode l)"

definition get_model_label :: "(string, string) dict option \<Rightarrow> string option" where
  "get_model_label ls = (case ls of None \<Rightarrow> None | Some d \<Rightarrow> map_of d ''model'')"

definition engine_url :: "string \<Rightarrow> string \<Rightarrow> url" where
  "engine_url host port = ''http://'' @ host @ '':'' @ port"

text \<open>\<open>uuid5\<close> is the name-based identifier.\<close>

definition pod_endpoint ::
  "(string \<Rightarrow> string) \<Rightarrow> string \<Rightarrow> string \<Rightarrow> pod_event \<Rightarrow> string \<Rightarrow> string list \<Rightarrow> string option \<Rightarrow> EndpointInfo" where
  "pod_endpoint uuid5 ns port ev ip names label =
     \<lparr>ep_url = engine_url ip port, model_names = names, ep_Id = uuid5 (pe_name ev),
      added_timestamp = real_of_int (pe_now ev), model_label = label,
      sleep = (check_engine_sleep_mode (pe_containers ev) \<and> get_engine_sleep_status (pe_sleep_reply ev)),
      healthy = True, pod_name = Some (pe_name ev), service_name = None, ep_namespace = Some ns,
      model_info = Some (get_engine_model_info (pe_now ev) (pe_info_reply ev))\<rparr>"

definition pod_add_engine ::
  "(string \<Rightarrow> string) \<Rightarrow> PodIPDiscovery \<Rightarrow> pod_event \<Rightarrow> string \<Rightarrow> string list \<Rightarrow> string option \<Rightarrow> PodIPDiscovery" where
  "pod_add_engine uuid5 s ev ip names label =
     (let e = pod_endpoint uuid5 (pd_namespace s) (pd_port s) ev ip names label;
          s1 = s\<lparr>pd_available := dict_set (pd_available s) (pe_name ev) e\<rparr>;
          s2 = (if pd_loop_ready s1
                then s1\<lparr>pd_clients := snd (initialize_client_sessions (pd_prefill_labels s1)
                       (pd_decode_labels s1) (map snd (pd_available s1)) (pd_clients s1))\<rparr>
                else s1)
      in s2\<lparr>pd_known_models := pd_known_models s2 \<union> set names\<rparr>)"

definition pod_delete_engine :: "PodIPDiscovery \<Rightarrow> string \<Rightarrow> PodIPDiscovery" where
  "pod_delete_engine s name = s\<lparr>pd_available := dict_pop (pd_available s) name\<rparr>"

definition pod_on_engine_update ::
  "(string \<Rightarrow> string) \<Rightarrow> PodIPDiscovery \<Rightarrow> pod_event \<Rightarrow> bool \<Rightarrow> string list \<Rightarrow> string option \<Rightarrow> PodIPDiscovery" where
  "pod_on_engine_update uuid5 s ev is_ready names label =
     (let registered = map_of (pd_available s) (pe_name ev) \<noteq> None in
      if pe_type ev = ''ADDED'' then
        (case pe_ip ev of
           None \<Rightarrow> s
         | Some ip \<Rightarrow> if \<not> is_ready then s else if names = [] then s
                     else pod_add_engine uuid5 s ev ip names label)
      else if pe_type ev = ''DELETED'' then
        (if \<not> registered then s else pod_delete_engine s (pe_name ev))
      else if pe_type ev = ''MODIFIED'' then
        (case pe_ip ev of
           None \<Rightarrow> if registered then pod_delete_engine s (pe_name ev) else s
         | Some ip \<Rightarrow>
             if is_ready \<and> names \<noteq> [] then pod_add_engine uuid5 s ev ip names label
             else if (\<not> is_ready \<or> names = []) \<and> registered then pod_delete_engine s (pe_name ev)
             else s)
      else s)"

text \<open>The body of the watch loop.\<close>

definition pod_watch :: "(string \<Rightarrow> string) \<Rightarrow> PodIPDiscovery \<Rightarrow> pod_event \<Rightarrow> PodIPDiscovery" where
  "pod_watch uuid5 s ev =
     (if pe_type ev = ''DELETED'' then
        (if map_of (pd_available s) (pe_name ev) \<noteq> None then pod_delete_engine s (pe_name ev) else s)
      else
        let is_ready = (check_pod_ready (pe_container_statuses ev) \<and> \<not> is_pod_terminating ev);
            names = (if is_ready then get_model_names (pe_names_reply ev) else []);
            label = (if is_ready then get_model_label (pe_labels ev) else None)
        in pod_on_engine_update uuid5 s ev is_ready names label)"

definition pod_endpoints :: "PodIPDiscovery \<Rightarrow> EndpointInfo list" where
  "pod_endpoints s = map snd (pd_available s)"

definition pod_has_ever_seen_model :: "PodIPDiscovery \<Rightarrow> string \<Rightarrow> bool" where
  "pod_has_ever_seen_model s m = (m \<in> pd_known_models s)"

text \<open>\<^verbatim>\<open>set_event_loop\<close>: sessions for the engines found so far.\<close>

definition pod_set_event_loop :: "PodIPDiscovery \<Rightarrow> PodIPDiscovery" where
  "pod_set_event_loop s = s\<lparr>pd_loop_ready := True,
     pd_clients := snd (initialize_client_sessions (pd_prefill_labels s) (pd_decode_labels s)
       (pod_endpoints s) (pd_clients s))\<rparr>"

section \<open>Watching services\<close>

record ServiceNameDiscovery =
  sn_namespace :: string
  sn_port :: string
  sn_available :: "(string, EndpointInfo) dict"
  sn_prefill_labels :: labels
  sn_decode_labels :: labels

definition service_init :: "string \<Rightarrow> string \<Rightarrow> labels \<Rightarrow> labels \<Rightarrow> ServiceNameDiscovery" where
  "service_init ns port p d = \<lparr>sn_namespace = ns, sn_port = port, sn_available = [],
     sn_prefill_labels = p, sn_decode_labels = d\<rparr>"

text \<open>
  \<open>se_subsets\<close> holds the addresses of the endpoint subsets (\<open>None\<close> for an API error, an inner
  \<open>None\<close> for a missing list); \<open>se_mode_selector\<close> and \<open>se_mode_pods\<close> are the answers of the
  sleep-mode check.
\<close>

record service_event =
  se_type :: string
  se_name :: string
  se_selector :: "(string, string) dict option"
  se_subsets :: "string list list option option"
  se_names_reply :: http_reply
  se_info_reply :: http_reply
  se_mode_selector :: "(string, string) dict option option"
  se_mode_pods :: "container list list option"
  se_sleep_reply :: http_reply
  se_now :: int

definition check_service_ready :: "string list list option \<Rightarrow> bool" where
  "check_service_ready subsets = (case subsets of None \<Rightarrow> False | Some ss \<Rightarrow> list_ex (\<lambda>a. a \<noteq> []) ss)"

definition service_sleep_mode :: "service_event \<Rightarrow> bool" where
  "service_sleep_mode ev = (case se_mode_selector ev of
     None \<Rightarrow> False
   | Some None \<Rightarrow> False
   | Some (Some sel) \<Rightarrow> if sel = [] then False
       else (case se_mode_pods ev of
               None \<Rightarrow> False | Some [] \<Rightarrow> False | Some (cs # _) \<Rightarrow> container_sleep_mode cs))"

definition service_endpoint ::
  "(string \<Rightarrow> string) \<Rightarrow> string \<Rightarrow> string \<Rightarrow> service_event \<Rightarrow> string list \<Rightarrow> string option \<Rightarrow> EndpointInfo" where
  "service_endpoint uuid5 ns port ev names label =
     \<lparr>ep_url = engine_url (se_name ev) port, model_names = names, ep_Id = uuid5 (se_name ev),
      added_timestamp = real_of_int (se_now ev), model_label = label,
      sleep = (service_sleep_mode ev \<and> get_engine_sleep_status (se_sleep_reply ev)),
      healthy = True, pod_name = None, service_name = Some (se_name ev), ep_namespace = Some ns,
      model_info = Some (get_engine_model_info (se_now ev) (se_info_reply ev))\<rparr>"

definition service_add_engine ::
  "(string \<Rightarrow> string) \<Rightarrow> ServiceNameDiscovery \<Rightarrow> service_event \<Rightarrow> string list \<Rightarrow> string option \<Rightarrow> ServiceNameDiscovery" where
  "service_add_engine uuid5 s ev names label =
     s\<lparr>sn_available := dict_set (sn_available s) (se_name ev)
         (service_endpoint uuid5 (sn_namespace s) (sn_port s) ev names label)\<rparr>"

definition service_delete_engine :: "ServiceNameDiscovery \<Rightarrow> string \<Rightarrow> ServiceNameDiscovery" where
  "service_delete_engine s name = s\<lparr>sn_available := dict_pop (sn_available s) name\<rparr>"

definition service_on_engine_update ::
  "(string \<Rightarrow> string) \<Rightarrow> ServiceNameDiscovery \<Rightarrow> service_event \<Rightarrow> bool \<Rightarrow> string list \<Rightarrow> string option \<Rightarrow> ServiceNameDiscovery" where
  "service_on_engine_update uuid5 s ev is_ready names label =
     (let registered = map_of (sn_available s) (se_name ev) \<noteq> None in
      if se_type ev = ''ADDED'' then
        (if se_name ev = [] then s else if \<not> is_ready then s else if names = [] then s
         else service_add_engine uuid5 s ev names label)
      else if se_type ev = ''DELETED'' then
        (if \<not> registered then s else service_delete_engine s (se_name ev))
      else if se_type ev = ''MODIFIED'' then
        (if se_name ev = [] then s
         else if is_ready \<and> names \<noteq> [] then service_add_engine uuid5 s ev names label
         else if (\<not> is_ready \<or> names = []) \<and> registered then service_delete_engine s (se_name ev)
         else s)
      else s)"

definition service_watch :: "(string \<Rightarrow> string) \<Rightarrow> ServiceNameDiscovery \<Rightarrow> service_event \<Rightarrow> ServiceNameDiscovery" where
  "service_watch uuid5 s ev =
     (if se_type ev = ''DELETED'' then
        (if map_of (sn_available s) (se_name ev) \<noteq> None then service_delete_engine s (se_name ev) else s)
      else case se_subsets ev of
        None \<Rightarrow> s
      | Some subsets \<Rightarrow>
        (let is_ready = check_service_ready subsets;
             names = (if is_ready then get_model_names (se_names_reply ev) else []);
             label = (if is_ready then get_model_label (se_selector ev) else None)
         in service_on_engine_update uuid5 s ev is_ready names label))"

definition service_endpoints :: "ServiceNameDiscovery \<Rightarrow> EndpointInfo list" where
  "service_endpoints s = map snd (sn_available s)"

section \<open>The installed discovery\<close>

datatype discovery =
    StaticD StaticDiscovery
  | PodIPD PodIPDiscovery
  | ServiceNameD ServiceNameDiscovery
  | ExternalOnlyD

datatype ServiceDiscoveryType = STATIC | K8S | EXTERNAL_ONLY

text \<open>The arguments of the constructors, by type.\<close>

record discovery_kwargs =
  dk_urls :: "url list"
  dk_models :: "string list"
  dk_aliases :: "(string, string) dict option"
  dk_model_labels :: "string list option"
  dk_model_types :: "string list option"
  dk_namespace :: string
  dk_port :: string
  dk_prefill_labels :: labels
  dk_decode_labels :: labels
  dk_k8s_service_discovery_type :: "string option option"

definition normalized_k8s_type :: "string option option \<Rightarrow> string" where
  "normalized_k8s_type t = (case t of
     None \<Rightarrow> ''pod-ip''
   | Some None \<Rightarrow> ''pod-ip''
   | Some (Some x) \<Rightarrow> if str_strip x = [] then ''pod-ip'' else str_lower (str_strip x))"

fun create_service_discovery ::
  "(nat \<Rightarrow> string) \<Rightarrow> int \<Rightarrow> ServiceDiscoveryType \<Rightarrow> discovery_kwargs \<Rightarrow> discovery result" where
  "create_service_discovery uuid now STATIC kw =
     result_bind (static_init uuid now (dk_urls kw) (dk_models kw) (dk_aliases kw) (dk_model_labels kw)
        (dk_model_types kw) (dk_prefill_labels kw) (dk_decode_labels kw)) (\<lambda>s. Inr (StaticD s))"
| "create_service_discovery uuid now K8S kw =
     (if normalized_k8s_type (dk_k8s_service_discovery_type kw) = ''service-name''
      then Inr (ServiceNameD (service_init (dk_namespace kw) (dk_port kw) (dk_prefill_labels kw) (dk_decode_labels kw)))
      else Inr (PodIPD (pod_init (dk_namespace kw) (dk_port kw) (dk_prefill_labels kw) (dk_decode_labels kw))))"
| "create_service_discovery uuid now EXTERNAL_ONLY kw = Inr ExternalOnlyD"

definition initialize_service_discovery ::
  "(nat \<Rightarrow> string) \<Rightarrow> int \<Rightarrow> discovery option \<Rightarrow> ServiceDiscoveryType \<Rightarrow> discovery_kwargs
     \<Rightarrow> discovery result \<times> discovery option" where
  "initialize_service_discovery uuid now g t kw =
     (if g \<noteq> None then (Inl (ValueError ''Service discovery module already initialized''), g)
      else case create_service_discovery uuid now t kw of
             Inl x \<Rightarrow> (Inl x, g) | Inr d \<Rightarrow> (Inr d, Some d))"

text \<open>Reconfiguration builds the new module first and only then closes and replaces the old one.\<close>

definition reconfigure_service_discovery ::
  "(nat \<Rightarrow> string) \<Rightarrow> int \<Rightarrow> discovery option \<Rightarrow> ServiceDiscoveryType \<Rightarrow> discovery_kwargs
     \<Rightarrow> discovery result \<times> discovery option" where
  "reconfigure_service_discovery uuid now g t kw =
     (if g = None then (Inl (ValueError ''Service discovery module not initialized''), g)
      else case create_service_discovery uuid now t kw of
             Inl x \<Rightarrow> (Inl x, g) | Inr d \<Rightarrow> (Inr d, Some d))"

definition get_service_discovery :: "discovery option \<Rightarrow> discovery result" where
  "get_service_discovery g = (case g of
     None \<Rightarrow> Inl (ValueError ''Service discovery module not initialized'') | Some d \<Rightarrow> Inr d)"

fun discovery_endpoints :: "(string \<Rightarrow> string) \<Rightarrow> int \<Rightarrow> discovery \<Rightarrow> EndpointInfo list result" where
  "discovery_endpoints md5 now (StaticD s) = static_endpoints md5 now s"
| "discovery_endpoints md5 now (PodIPD s) = Inr (pod_endpoints s)"
| "discovery_endpoints md5 now (ServiceNameD s) = Inr (service_endpoints s)"
| "discovery_endpoints md5 now ExternalOnlyD = Inr []"

text \<open>Only two of the modules have \<^verbatim>\<open>has_ever_seen_model\<close>, and one has aliases.\<close>

fun discovery_has_seen :: "discovery \<Rightarrow> (string \<Rightarrow> bool) option" where
  "discovery_has_seen (StaticD s) = Some (static_has_ever_seen_model s)"
| "discovery_has_seen (PodIPD s) = Some (pod_has_ever_seen_model s)"
| "discovery_has_seen _ = None"

fun discovery_aliases :: "discovery \<Rightarrow> (string, string) dict" where
  "discovery_aliases (StaticD s) = (case st_aliases s of None \<Rightarrow> [] | Some a \<Rightarrow> a)"
| "discovery_aliases _ = []"

section \<open>The directory contract\<close>

text \<open>
  What the proxy relies on when it tells an unknown model from one that is scaled to zero: a model
  that is offered counts as seen, and a model once seen stays seen whatever the module observes.
\<close>

locale model_directory =
  fixes listing :: "'s \<Rightarrow> EndpointInfo list"
    and seen :: "'s \<Rightarrow> string \<Rightarrow> bool"
    and observe :: "'s \<Rightarrow> 'e \<Rightarrow> 's"
    and invar :: "'s \<Rightarrow> bool"
  assumes offered_seen: "invar s \<Longrightarrow> e \<in> set (listing s) \<Longrightarrow> m \<in> set (model_names e) \<Longrightarrow> seen s m"
    and seen_stays: "seen s m \<Longrightarrow> seen (observe s ev) m"
    and observe_invar: "invar s \<Longrightarrow> invar (observe s ev)"
begin

lemma run_invar: "invar s \<Longrightarrow> invar (fold (\<lambda>ev s. observe s ev) evs s)"
  by (induction evs arbitrary: s) (simp_all add: observe_invar)

lemma run_seen: "seen s m \<Longrightarrow> seen (fold (\<lambda>ev s. observe s ev) evs s) m"
  by (induction evs arbitrary: s) (simp_all add: seen_stays)

lemma offered_then_seen:
  assumes "invar s" "e \<in> set (listing (fold (\<lambda>ev s. observe s ev) evs s))" "m \<in> set (model_names e)"
  shows "seen (fold (\<lambda>ev s. observe s ev) (evs @ evs') s) m"
  using run_seen [OF offered_seen [OF run_invar [OF assms(1)] assms(2,3)]] by simp

lemma unseen_not_offered:
  assumes "invar s" "\<not> seen s m"
  shows "filter (\<lambda>e. m \<in> set (model_names e) \<and> P e) (listing s) = []"
  using offered_seen [OF assms(1)] assms(2) by (auto simp: filter_empty_conv)

end

section \<open>Facts about the pod watch\<close>

lemma pod_add_engine_fields [simp]:
  "pd_available (pod_add_engine uuid5 s ev ip names label) =
     dict_set (pd_available s) (pe_name ev)
       (pod_endpoint uuid5 (pd_namespace s) (pd_port s) ev ip names label)"
  "pd_known_models (pod_add_engine uuid5 s ev ip names label) = pd_known_models s \<union> set names"
  "pd_namespace (pod_add_engine uuid5 s ev ip names label) = pd_namespace s"
  "pd_port (pod_add_engine uuid5 s ev ip names label) = pd_port s"
  by (simp_all add: pod_add_engine_def)

lemma pod_delete_engine_fields [simp]:
  "pd_available (pod_delete_engine s n) = dict_pop (pd_available s) n"
  "pd_known_models (pod_delete_engine s n) = pd_known_models s"
  "pd_namespace (pod_delete_engine s n) = pd_namespace s"
  "pd_port (pod_delete_engine s n) = pd_port s"
  by (simp_all add: pod_delete_engine_def)

text \<open>
  What an event says about its pod: it is ready to serve at an address, it is to be removed, or
  nothing. An addition that is not ready says nothing, a modification that is not ready removes.
\<close>

datatype verdict = Serves string | Gone | Silent

definition pod_serving :: "pod_event \<Rightarrow> bool" where
  "pod_serving ev \<longleftrightarrow> check_pod_ready (pe_container_statuses ev) \<and> pe_deletion_timestamp ev = None \<and>
     get_model_names (pe_names_reply ev) \<noteq> []"

definition pod_verdict :: "pod_event \<Rightarrow> verdict" where
  "pod_verdict ev =
     (if pe_type ev = ''DELETED'' then Gone
      else if pe_type ev = ''ADDED'' \<or> pe_type ev = ''MODIFIED'' then
        (case pe_ip ev of
           Some ip \<Rightarrow> if pod_serving ev then Serves ip
                      else if pe_type ev = ''MODIFIED'' then Gone else Silent
         | None \<Rightarrow> if pe_type ev = ''MODIFIED'' then Gone else Silent)
      else Silent)"

definition pod_entry :: "(string \<Rightarrow> string) \<Rightarrow> string \<Rightarrow> string \<Rightarrow> pod_event \<Rightarrow> string \<Rightarrow> EndpointInfo" where
  "pod_entry uuid5 ns port ev ip =
     pod_endpoint uuid5 ns port ev ip (get_model_names (pe_names_reply ev)) (get_model_label (pe_labels ev))"

text \<open>One step of the watch, by the verdict.\<close>

lemma pod_watch_verdict:
  "pod_watch uuid5 s ev = (case pod_verdict ev of
     Serves ip \<Rightarrow> pod_add_engine uuid5 s ev ip (get_model_names (pe_names_reply ev))
                    (get_model_label (pe_labels ev))
   | Gone \<Rightarrow> if map_of (pd_available s) (pe_name ev) \<noteq> None then pod_delete_engine s (pe_name ev) else s
   | Silent \<Rightarrow> s)"
  by (cases "pe_ip ev"; cases "pod_serving ev")
    (auto simp: pod_watch_def pod_on_engine_update_def pod_verdict_def pod_serving_def
      is_pod_terminating_def)

definition pod_run :: "(string \<Rightarrow> string) \<Rightarrow> pod_event list \<Rightarrow> PodIPDiscovery \<Rightarrow> PodIPDiscovery" where
  "pod_run uuid5 evs s = fold (\<lambda>ev s. pod_watch uuid5 s ev) evs s"

lemma pod_run_snoc: "pod_run uuid5 (evs @ [ev]) s = pod_watch uuid5 (pod_run uuid5 evs s) ev"
  by (simp add: pod_run_def)

lemma pod_watch_config [simp]:
  "pd_namespace (pod_watch uuid5 s ev) = pd_namespace s" "pd_port (pod_watch uuid5 s ev) = pd_port s"
  by (simp_all add: pod_watch_verdict split: verdict.split)

lemma pod_run_config [simp]:
  "pd_namespace (pod_run uuid5 evs s) = pd_namespace s" "pd_port (pod_run uuid5 evs s) = pd_port s"
  by (induction evs rule: rev_induct) (simp_all add: pod_run_snoc, simp_all add: pod_run_def)

lemma pod_watch_lookup:
  "map_of (pd_available (pod_watch uuid5 s ev)) p =
     (if p = pe_name ev then (case pod_verdict ev of
        Serves ip \<Rightarrow> Some (pod_entry uuid5 (pd_namespace s) (pd_port s) ev ip)
      | Gone \<Rightarrow> None
      | Silent \<Rightarrow> map_of (pd_available s) p)
      else map_of (pd_available s) p)"
  by (auto simp: pod_watch_verdict pod_entry_def split: verdict.split)

text \<open>Every offered model is known.\<close>

definition pod_ok :: "PodIPDiscovery \<Rightarrow> bool" where
  "pod_ok s \<longleftrightarrow> (\<forall>e \<in> set (pod_endpoints s). set (model_names e) \<subseteq> pd_known_models s)"

lemma set_snd_dict_set: "set (map snd (dict_set d k v)) \<subseteq> insert v (set (map snd d))"
  by (induction d) auto

lemma set_dict_pop: "set (dict_pop d k) \<subseteq> set d"
  by (induction d) auto

lemma pod_watch_ok:
  assumes "pod_ok s"
  shows "pod_ok (pod_watch uuid5 s ev)"
proof (cases "pod_verdict ev")
  case (Serves ip)
  let ?e = "pod_endpoint uuid5 (pd_namespace s) (pd_port s) ev ip (get_model_names (pe_names_reply ev))
    (get_model_label (pe_labels ev))"
  have "set (pod_endpoints (pod_watch uuid5 s ev)) \<subseteq> insert ?e (set (pod_endpoints s))"
    using set_snd_dict_set Serves by (simp add: pod_watch_verdict pod_endpoints_def)
  moreover have "model_names ?e = get_model_names (pe_names_reply ev)" by (simp add: pod_endpoint_def)
  moreover have "pd_known_models (pod_watch uuid5 s ev) =
      pd_known_models s \<union> set (get_model_names (pe_names_reply ev))"
    using Serves by (simp add: pod_watch_verdict)
  ultimately show ?thesis
    using assms unfolding pod_ok_def by (intro ballI) force
next
  case Gone
  then show ?thesis
    using assms set_dict_pop [of "pe_name ev" "pd_available s"]
    by (auto simp: pod_ok_def pod_watch_verdict pod_endpoints_def)
qed (use assms in \<open>simp add: pod_watch_verdict\<close>)

lemma pod_init_ok: "pod_ok (pod_init ns port p d)"
  by (simp add: pod_ok_def pod_endpoints_def pod_init_def)

interpretation pods: model_directory pod_endpoints pod_has_ever_seen_model "pod_watch uuid5" pod_ok
  for uuid5
proof (unfold_locales, goal_cases)
  case (1 s e m)
  then show ?case by (auto simp: pod_ok_def pod_has_ever_seen_model_def)
next
  case (2 s m ev)
  then show ?case by (auto simp: pod_has_ever_seen_model_def pod_watch_verdict split: verdict.split)
next
  case (3 s ev)
  then show ?case by (rule pod_watch_ok)
qed

section \<open>Facts about static discovery\<close>

lemma check_model_health_fields [simp]:
  "st_urls (check_model_health md5 s post) = st_urls s"
  "st_models (check_model_health md5 s post) = st_models s"
  "st_aliases (check_model_health md5 s post) = st_aliases s"
  "st_model_labels (check_model_health md5 s post) = st_model_labels s"
  by (simp_all add: check_model_health_def split: sum.split)

text \<open>The hashes of a completed round are those of the pairs that failed their probe.\<close>

lemma unhealthy_loop_set:
  assumes "unhealthy_loop post md5 us ms ts acc = Inr hs" "length us = length ms" "length ms = length ts"
  shows "set hs = set acc \<union>
    {md5 (u @ m) | u m t. (u, m, t) \<in> set (zip us (zip ms ts)) \<and> is_model_healthy post u m t = Inr False}"
  using assms
proof (induction post md5 us ms ts acc rule: unhealthy_loop.induct)
  case (1 post md5 u us m ms t ts acc)
  obtain b where b: "is_model_healthy post u m t = Inr b"
    using "1.prems"(1) by (cases "is_model_healthy post u m t") auto
  show ?case
  proof (cases b)
    case True
    then show ?thesis using 1 b by auto
  next
    case False
    then show ?thesis using 1 b by (auto simp: get_model_endpoint_hash_def)
  qed
qed auto

lemma static_loop_listed:
  assumes "static_loop md5 now s i ps = Inr es"
  shows "map (\<lambda>e. (ep_url e, model_names e)) es =
     [(u, [m]). (u, m) \<leftarrow> ps, get_model_endpoint_hash md5 u m \<notin> set (st_unhealthy s)]"
  using assms
  by (induction md5 now s i ps arbitrary: es rule: static_loop.induct)
    (auto simp: static_endpoint_def split: if_splits option.splits)

lemma static_loop_names:
  "static_loop md5 now s i ps = Inr es \<Longrightarrow> e \<in> set es \<Longrightarrow> \<exists>(u, m) \<in> set ps. model_names e = [m]"
  by (induction md5 now s i ps arbitrary: es rule: static_loop.induct)
    (auto simp: static_endpoint_def split: if_splits option.splits)

definition static_listing :: "(string \<Rightarrow> string) \<Rightarrow> int \<Rightarrow> StaticDiscovery \<Rightarrow> EndpointInfo list" where
  "static_listing md5 now s = (case static_endpoints md5 now s of Inl _ \<Rightarrow> [] | Inr es \<Rightarrow> es)"

interpretation static: model_directory "static_listing md5 now" static_has_ever_seen_model
  "check_model_health md5'" "\<lambda>s. True" for md5 now md5'
proof (unfold_locales, goal_cases)
  case (1 s e m)
  then obtain es where es: "static_loop md5 now s 0 (zip (st_urls s) (st_models s)) = Inr es" "e \<in> set es"
    by (cases "static_endpoints md5 now s") (auto simp: static_listing_def static_endpoints_def)
  show ?case
    using static_loop_names [OF es] 1(3)
    by (auto simp: static_has_ever_seen_model_def dest!: set_zip_rightD)
next
  case (2 s m ev)
  then show ?case by (simp add: static_has_ever_seen_model_def)
qed simp

section \<open>Properties\<close>

text \<open>C13. The registry follows the cluster: after any sequence of pod events, a pod is registered exactly
  when the last event that says anything about it says that it serves, and its entry is the
  endpoint built from that very event. An event says something when it deletes the pod, when it
  adds or modifies a pod that is ready, has an address and lists models, or when it modifies a
  pod that is not; events about other pods never matter.\<close>

theorem pod_registry_follows_events:
  "map_of (pd_available (pod_run uuid5 evs (pod_init ns port pl dl))) p =
     (case rev (filter (\<lambda>ev. pe_name ev = p \<and> pod_verdict ev \<noteq> Silent) evs) of
        [] \<Rightarrow> None
      | ev # _ \<Rightarrow> (case pod_verdict ev of
          Serves ip \<Rightarrow> Some (pod_entry uuid5 ns port ev ip) | _ \<Rightarrow> None))"
proof (induction evs rule: rev_induct)
  case Nil
  then show ?case by (simp add: pod_run_def pod_init_def)
next
  case (snoc ev evs)
  then show ?case
    by (auto simp: pod_run_snoc pod_watch_lookup pod_init_def split: verdict.split)
qed

text \<open>A pod that becomes ready, for the witness.\<close>

definition serving_example :: "string \<Rightarrow> pod_event" where
  "serving_example p = \<lparr>pe_type = ''ADDED'', pe_name = p, pe_ip = Some ''10.0.0.1'',
     pe_container_statuses = Some [True], pe_deletion_timestamp = None, pe_labels = None,
     pe_names_reply = Reply 200 (JsonText (JObj [(''data'', JList [JObj [(''id'', JStr ''m'')]])])),
     pe_info_reply = RequestFailed, pe_containers = None, pe_sleep_reply = RequestFailed, pe_now = 7\<rparr>"

text \<open>A model that was ever offered is never forgotten: whatever pod events follow, also after every
  pod serving it is gone, the watcher still reports that it has seen the model.\<close>

theorem offered_models_are_remembered:
  assumes "e \<in> set (pod_endpoints (pod_run uuid5 evs (pod_init ns port pl dl)))" "m \<in> set (model_names e)"
  shows "pod_has_ever_seen_model (pod_run uuid5 (evs @ evs') (pod_init ns port pl dl)) m"
  using pods.offered_then_seen [OF pod_init_ok, of e uuid5 evs ns port pl dl m evs'] assms
  unfolding pod_run_def by blast

theorem offered_models_are_remembered_witness:
  "pod_has_ever_seen_model (pod_run id ([serving_example ''p''] @ [(serving_example ''p'')\<lparr>pe_type := ''DELETED''\<rparr>])
     (pod_init ''ns'' ''80'' NoLabels NoLabels)) ''m''"
proof -
  let ?s = "pod_run id [serving_example ''p''] (pod_init ''ns'' ''80'' NoLabels NoLabels)"
  have v: "pod_verdict (serving_example ''p'') = Serves ''10.0.0.1''"
    and n: "get_model_names (pe_names_reply (serving_example ''p'')) = [''m'']"
    by (simp_all add: pod_verdict_def pod_serving_def serving_example_def check_pod_ready_def
        get_model_names_def models_data_def reply_json_def model_id_def)
  have "pod_endpoints ?s =
      [pod_entry id ''ns'' ''80'' (serving_example ''p'') ''10.0.0.1'']"
    by (simp add: pod_run_def pod_watch_verdict v pod_endpoints_def pod_init_def pod_entry_def)
  moreover have "model_names (pod_entry id ''ns'' ''80'' (serving_example ''p'') ''10.0.0.1'') = [''m'']"
    by (simp add: pod_entry_def pod_endpoint_def n)
  ultimately show ?thesis
    using offered_models_are_remembered [of _ id "[serving_example ''p'']"] by simp
qed



end
