(* ===== verification/Disagg_Request.thy ===== *)
theory Disagg_Request
  imports Service_Discovery
begin

text \<open>
  Disaggregated inference in \<^verbatim>\<open>src/src/vllm_router/services/request_service/request.py\<close>: a request
  is first sent to a prefill engine that produces one token, then to a decode engine. The
  orchestrated variant hands the cache metadata of the prefill answer over to the decode engine;
  the other variant uses the two clients that service discovery opened. What the engines answer
  is a parameter; the requests that were sent are part of the result.
\<close>

section \<open>Replies to the client\<close>

datatype stream_item = Raw string | JsonItem json

text \<open>
  A JSON response, a stream known in full, a stream of an attempt that reached its headers, or an
  exception that leaves the handler.
\<close>

datatype client_reply =
    ReplyJson response
  | ReplyChunks int headers string "stream_item list"
  | ReplyStream int headers string url RequestHandle bool
  | ReplyRaise py_exn
  | ReplyBackend backend_exn

text \<open>\<^verbatim>\<open>request.headers.get("X-Request-Id") or str(uuid.uuid4())\<close>.\<close>

definition request_id_of :: "headers \<Rightarrow> string \<Rightarrow> string" where
  "request_id_of hs uuid = (case header_get hs ''X-Request-Id'' of
     None \<Rightarrow> uuid | Some v \<Rightarrow> if v = [] then uuid else v)"

text \<open>\<^verbatim>\<open>request_json.copy()\<close> followed by an assignment to a key.\<close>

fun json_copy :: "json \<Rightarrow> body result" where
  "json_copy (JObj b) = Inr b"
| "json_copy (JList l) = Inl (TypeError ''list indices must be integers or slices, not str'')"
| "json_copy _ = Inl (AttributeError ''copy'')"

definition error_json :: "int \<Rightarrow> json \<Rightarrow> string \<Rightarrow> response" where
  "error_json status content rid = JSONResponse status (JObj [(''error'', content)]) [(''X-Request-Id'', rid)]"

section \<open>Answers of an engine\<close>

text \<open>Reading a body as JSON can fail; the flag says that the failure is an \<^verbatim>\<open>aiohttp.ClientError\<close>.\<close>

datatype json_read = JsonBody json | BadJson bool string

record http_answer =
  ha_status :: int
  ha_text :: string
  ha_json :: json_read
  ha_chunks :: "string list"

datatype exchange = Answer http_answer | PostFails bool string

section \<open>Orchestrated requests\<close>

definition prefill_kv_params :: json where
  "prefill_kv_params = JObj [(''do_remote_decode'', JBool True), (''do_remote_prefill'', JBool False),
     (''remote_engine_id'', JNull), (''remote_block_ids'', JNull), (''remote_host'', JNull),
     (''remote_port'', JNull)]"

definition orchestrated_prefill_body :: "body \<Rightarrow> body" where
  "orchestrated_prefill_body b =
     (let b1 = dict_set b ''max_tokens'' (JInt 1);
          b2 = (if map_of b1 ''max_completion_tokens'' \<noteq> None
                then dict_set b1 ''max_completion_tokens'' (JInt 1) else b1);
          b3 = dict_set b2 ''kv_transfer_params'' prefill_kv_params;
          b4 = dict_set b3 ''stream'' (JBool False)
      in if map_of b4 ''stream_options'' \<noteq> None then dict_pop b4 ''stream_options'' else b4)"

text \<open>\<^verbatim>\<open>prefill_url.split("://")[1].split(":")[0]\<close>.\<close>

definition remote_host_of :: "url \<Rightarrow> string result" where
  "remote_host_of u = (case str_split ''://'' u of
     _ # rest # _ \<Rightarrow> Inr (hd (str_split '':'' rest)) | _ \<Rightarrow> Inl IndexError)"

text \<open>\<^verbatim>\<open>prefill_data.get("kv_transfer_params", {})\<close>, put into the decode request when it is true.\<close>

definition decode_body :: "body \<Rightarrow> json \<Rightarrow> url \<Rightarrow> body result" where
  "decode_body b prefill_data prefill_url = (case prefill_data of
     JObj d \<Rightarrow>
       (let kv = dict_get d ''kv_transfer_params'' (JObj []) in
        if \<not> py_truthy kv then Inr b
        else result_bind (remote_host_of prefill_url) (\<lambda>host. case kv of
               JObj k \<Rightarrow> Inr (dict_set b ''kv_transfer_params'' (JObj (dict_set k ''remote_host'' (JStr host))))
             | _ \<Rightarrow> Inl (TypeError ''object does not support item assignment'')))
   | _ \<Rightarrow> Inl (AttributeError ''get''))"

definition unexpected_error :: "(py_exn \<Rightarrow> string) \<Rightarrow> py_exn \<Rightarrow> string \<Rightarrow> response" where
  "unexpected_error show x rid = error_json 500 (JStr (''Unexpected error: '' @ show x)) rid"

definition http_failure :: "bool \<Rightarrow> string \<Rightarrow> string \<Rightarrow> response" where
  "http_failure client_error msg rid =
     (if client_error then error_json 503 (JStr (''HTTP error: '' @ msg)) rid
      else error_json 500 (JStr (''Unexpected error: '' @ msg)) rid)"

text \<open>From the decode answer to the reply.\<close>

definition decode_reply :: "bool \<Rightarrow> http_answer \<Rightarrow> string \<Rightarrow> client_reply" where
  "decode_reply is_streaming a rid =
     (if ha_status a \<noteq> 200
      then ReplyJson (error_json (ha_status a) (JStr (''Decode failed: '' @ ha_text a)) rid)
      else if is_streaming
      then ReplyChunks 200 [(''X-Request-Id'', rid)] ''text/event-stream''
             (map Raw (filter (\<lambda>c. c \<noteq> []) (ha_chunks a)))
      else case ha_json a of
        JsonBody j \<Rightarrow> ReplyJson (JSONResponse 200 j [(''X-Request-Id'', rid)])
      | BadJson client_error msg \<Rightarrow> ReplyJson (http_failure client_error msg rid))"

text \<open>
  The part inside the \<^verbatim>\<open>try\<close> block, with the requests it sends in order. \<open>show\<close> is \<^verbatim>\<open>str(e)\<close>.
\<close>

definition orchestrate ::
  "(url \<Rightarrow> body \<Rightarrow> exchange) \<Rightarrow> (py_exn \<Rightarrow> string) \<Rightarrow> string \<Rightarrow> url \<Rightarrow> url \<Rightarrow> body \<Rightarrow> string
     \<Rightarrow> client_reply \<times> (url \<times> body) list" where
  "orchestrate post show endpoint prefill_url decode_url b rid =
     (let pb = orchestrated_prefill_body b; sent1 = [(prefill_url @ endpoint, pb)] in
      case post (prefill_url @ endpoint) pb of
        PostFails ce msg \<Rightarrow> (ReplyJson (http_failure ce msg rid), sent1)
      | Answer p \<Rightarrow>
         if ha_status p \<noteq> 200
         then (ReplyJson (error_json (ha_status p) (JStr (''Prefill failed: '' @ ha_text p)) rid), sent1)
         else (case ha_json p of
            BadJson ce msg \<Rightarrow> (ReplyJson (http_failure ce msg rid), sent1)
          | JsonBody data \<Rightarrow>
             (case decode_body b data prefill_url of
                Inl x \<Rightarrow> (ReplyJson (unexpected_error show x rid), sent1)
              | Inr db \<Rightarrow>
                 (let sent2 = sent1 @ [(decode_url @ endpoint, db)] in
                  case post (decode_url @ endpoint) db of
                    PostFails ce msg \<Rightarrow> (ReplyJson (http_failure ce msg rid), sent2)
                  | Answer a \<Rightarrow>
                     (decode_reply (py_truthy (dict_get b ''stream'' (JBool False))) a rid, sent2)))))"

text \<open>
  The handler. The pools come from the router; its \<^verbatim>\<open>HTTPException\<close> is not the \<^verbatim>\<open>ValueError\<close>
  the handler catches.
\<close>

definition route_orchestrated_disaggregated_request ::
  "(url \<Rightarrow> body \<Rightarrow> exchange) \<Rightarrow> (py_exn \<Rightarrow> string) \<Rightarrow> string \<Rightarrow> EndpointInfo list result \<Rightarrow> headers \<Rightarrow> string
     \<Rightarrow> payload \<Rightarrow> OrchestratedRouter \<Rightarrow> (client_reply \<times> (url \<times> body) list) \<times> OrchestratedRouter" where
  "route_orchestrated_disaggregated_request post show endpoint eps hs uuid raw s =
     (let rid = request_id_of hs uuid in
      case json_loads raw of
        None \<Rightarrow> ((ReplyRaise (ValueError ''JSONDecodeError''), []), s)
      | Some j \<Rightarrow>
        (case eps of Inl x \<Rightarrow> ((ReplyRaise x, []), s) | Inr es \<Rightarrow>
        (case find_endpoints s es of
           Inl (ValueError m) \<Rightarrow> ((ReplyJson (error_json 503 (JStr m) rid), []), s)
         | Inl x \<Rightarrow> ((ReplyRaise x, []), s)
         | Inr (ps, ds) \<Rightarrow>
           (case select_prefill_endpoint s ps of
              (Inl x, s1) \<Rightarrow> ((ReplyRaise x, []), s1)
            | (Inr p, s1) \<Rightarrow>
              (case select_decode_endpoint s1 ds of
                 (Inl x, s2) \<Rightarrow> ((ReplyRaise x, []), s2)
               | (Inr d, s2) \<Rightarrow>
                 (case json_copy j of
                    Inl x \<Rightarrow> ((ReplyRaise x, []), s2)
                  | Inr b \<Rightarrow> (orchestrate post show endpoint (ep_url p) (ep_url d) b rid, s2)))))))"

section \<open>Requests through the prefill and decode clients\<close>

definition prefiller_body :: "body \<Rightarrow> body" where
  "prefiller_body b =
     (let b1 = dict_set b ''max_tokens'' (JInt 1);
          b2 = (if map_of b1 ''max_completion_tokens'' \<noteq> None
                then dict_set b1 ''max_completion_tokens'' (JInt 1) else b1);
          b3 = dict_pop b2 ''min_tokens'';
          b4 = dict_set b3 ''stream'' (JBool False)
      in dict_pop b4 ''stream_options'')"

text \<open>A \<^verbatim>\<open>ClientResponseError\<close> carries a status; other exceptions only a text.\<close>

datatype phase_failure = ResponseError int string | OtherFailure string

definition phase_error :: "string \<Rightarrow> string \<Rightarrow> phase_failure \<Rightarrow> int \<times> json" where
  "phase_error label kind f =
     (let (status, msg) = (case f of ResponseError st m \<Rightarrow> (st, m) | OtherFailure m \<Rightarrow> (500, m))
      in (status, JObj [(''message'', JStr (label @ msg)), (''type'', JStr kind), (''code'', JInt status)]))"

text \<open>
  The stream of the decode phase: its chunks, and on a failure one last chunk with the error,
  since the status line has been sent.
\<close>

definition decode_stream :: "string list \<Rightarrow> phase_failure option \<Rightarrow> stream_item list" where
  "decode_stream cs failure = map Raw cs @ (case failure of
     None \<Rightarrow> []
   | Some f \<Rightarrow> [JsonItem (JObj [(''error'', snd (phase_error ''Decoder error: '' ''decoder_error'' f))])])"

definition disagg_prefill_body :: "body \<Rightarrow> body" where
  "disagg_prefill_body b = dict_pop (dict_set b ''max_tokens'' (JInt 1)) ''max_completion_tokens''"

definition route_disaggregated_prefill_request ::
  "(url \<Rightarrow> string \<Rightarrow> body \<Rightarrow> phase_failure option) \<Rightarrow> (url \<Rightarrow> string \<Rightarrow> body \<Rightarrow> string list \<times> phase_failure option)
     \<Rightarrow> string \<Rightarrow> headers \<Rightarrow> string \<Rightarrow> payload \<Rightarrow> app_clients \<Rightarrow> client_reply \<times> (url \<times> body) list" where
  "route_disaggregated_prefill_request prefill decode endpoint hs uuid raw clients =
     (let rid = request_id_of hs uuid in
      case json_loads raw of
        None \<Rightarrow> (ReplyRaise (ValueError ''JSONDecodeError''), [])
      | Some j \<Rightarrow>
        (case json_copy j of
           Inl x \<Rightarrow> (ReplyRaise x, [])
         | Inr b \<Rightarrow>
           (case prefill_client clients of
              None \<Rightarrow> (ReplyJson (error_json 500
                        (snd (phase_error ''Prefiller error: '' ''prefiller_error'' (OtherFailure ''post''))) rid), [])
            | Some pc \<Rightarrow>
              (let pb = prefiller_body (disagg_prefill_body b); sent = [(pc @ endpoint, pb)] in
               case prefill pc endpoint pb of
                 Some f \<Rightarrow> (case phase_error ''Prefiller error: '' ''prefiller_error'' f of
                    (status, content) \<Rightarrow> (ReplyJson (error_json status content rid), sent))
               | None \<Rightarrow>
                 (case decode_client clients of
                    None \<Rightarrow> (ReplyRaise (AttributeError ''_base_url''), sent)
                  | Some dc \<Rightarrow>
                    (case decode dc endpoint b of (cs, failure) \<Rightarrow>
                       (ReplyChunks 200 [(''X-Request-Id'', rid)] ''application/json''
                          (decode_stream cs failure),
                        sent @ [(dc @ endpoint, b)])))))))"

section \<open>Facts\<close>

text \<open>The prefill body: one token, no streaming, remote decoding; everything else as it came.\<close>

lemma map_of_prefill_body:
  "map_of (orchestrated_prefill_body b) k =
     (if k = ''max_tokens'' then Some (JInt 1)
      else if k = ''max_completion_tokens'' then map_option (\<lambda>_. JInt 1) (map_of b k)
      else if k = ''kv_transfer_params'' then Some prefill_kv_params
      else if k = ''stream'' then Some (JBool False)
      else if k = ''stream_options'' then None
      else map_of b k)"
  by (cases "map_of b ''max_completion_tokens''"; cases "map_of b ''stream_options''")
    (simp_all add: orchestrated_prefill_body_def)

text \<open>The decode body: the request as it came, with the metadata of the prefill answer if it has any.\<close>

lemma decode_body_cases:
  assumes "decode_body b data u = Inr db"
  obtains "db = b"
  | d k host where "data = JObj d" "map_of d ''kv_transfer_params'' = Some (JObj k)" "k \<noteq> []"
      "remote_host_of u = Inr host"
      "db = dict_set b ''kv_transfer_params'' (JObj (dict_set k ''remote_host'' (JStr host)))"
proof -
  obtain d where d: "data = JObj d" using assms by (cases data) (auto simp: decode_body_def)
  let ?kv = "dict_get d ''kv_transfer_params'' (JObj [])"
  show thesis
  proof (cases "py_truthy ?kv")
    case False
    then show thesis using that(1) assms d by (simp add: decode_body_def)
  next
    case True
    then obtain host k where h: "remote_host_of u = Inr host" "?kv = JObj k"
      "db = dict_set b ''kv_transfer_params'' (JObj (dict_set k ''remote_host'' (JStr host)))"
      using assms d by (cases ?kv) (auto simp: decode_body_def)
    have "map_of d ''kv_transfer_params'' = Some (JObj k)" "k \<noteq> []"
      using h(2) True by (auto simp: dict_get_def split: option.splits)
    then show thesis using that(2) d h by blast
  qed
qed

text \<open>The requests of one orchestration: the prefill alone, or both with a decode body after a 200.\<close>

lemma orchestrate_sent:
  assumes "orchestrate post show endpoint pu du b rid = (reply, sent)"
  obtains "sent = [(pu @ endpoint, orchestrated_prefill_body b)]"
  | a data db where
      "sent = [(pu @ endpoint, orchestrated_prefill_body b), (du @ endpoint, db)]"
      "post (pu @ endpoint) (orchestrated_prefill_body b) = Answer a" "ha_status a = 200"
      "ha_json a = JsonBody data" "decode_body b data pu = Inr db"
  using assms that
  by (simp add: orchestrate_def split: exchange.splits if_splits json_read.splits sum.splits) blast+

lemma select_labelled_set:
  "select_labelled ls eps = Inr es \<Longrightarrow> set es \<subseteq> set eps \<and> (\<forall>e \<in> set es. label_in (model_label e) ls = Inr True)"
proof (induction eps arbitrary: es)
  case (Cons e eps)
  obtain k r where k: "label_in (model_label e) ls = Inr k" "select_labelled ls eps = Inr r"
    "es = (if k then e # r else r)"
    using Cons.prems by auto
  then show ?case using Cons.IH [OF k(2)] by (cases k) auto
qed simp

lemma find_endpoints_pools:
  assumes "find_endpoints s eps = Inr (ps, ds)"
  shows "ps \<noteq> [] \<and> ds \<noteq> [] \<and> set ps \<subseteq> set eps \<and> set ds \<subseteq> set eps \<and>
    (\<forall>e \<in> set ps. label_in (model_label e) (or_prefill_labels s) = Inr True) \<and>
    (\<forall>e \<in> set ds. label_in (model_label e) (or_decode_labels s) = Inr True)"
  using assms select_labelled_set by (fastforce simp: find_endpoints_def split: if_splits)

lemma select_prefill_in: "ps \<noteq> [] \<Longrightarrow> \<exists>p \<in> set ps. fst (select_prefill_endpoint s ps) = Inr p"
proof -
  assume "ps \<noteq> []"
  then have "nat (prefill_idx s mod int (length ps)) < length (sort_key ep_url ps)"
    by (simp add: nat_less_iff)
  then have "sort_key ep_url ps ! nat (prefill_idx s mod int (length ps)) \<in> set (sort_key ep_url ps)"
    by (rule nth_mem)
  then show ?thesis using \<open>ps \<noteq> []\<close> by (simp add: select_prefill_endpoint_def)
qed

lemma select_decode_in: "ds \<noteq> [] \<Longrightarrow> \<exists>d \<in> set ds. fst (select_decode_endpoint s ds) = Inr d"
proof -
  assume "ds \<noteq> []"
  then have "nat (decode_idx s mod int (length ds)) < length (sort_key ep_url ds)"
    by (simp add: nat_less_iff)
  then have "sort_key ep_url ds ! nat (decode_idx s mod int (length ds)) \<in> set (sort_key ep_url ds)"
    by (rule nth_mem)
  then show ?thesis using \<open>ds \<noteq> []\<close> by (simp add: select_decode_endpoint_def)
qed

text \<open>A handler run that sends anything has selected its two engines from the pools.\<close>

lemma orchestrated_request_pair:
  assumes "route_orchestrated_disaggregated_request post show endpoint (Inr eps) hs uuid (JsonText (JObj b)) s =
      ((reply, sent), s')" "sent \<noteq> []"
  obtains p d where "p \<in> set eps" "d \<in> set eps"
    "label_in (model_label p) (or_prefill_labels s) = Inr True"
    "label_in (model_label d) (or_decode_labels s) = Inr True"
    "orchestrate post show endpoint (ep_url p) (ep_url d) b (request_id_of hs uuid) = (reply, sent)"
proof -
  obtain ps ds where f: "find_endpoints s eps = Inr (ps, ds)"
    using assms
    by (cases "find_endpoints s eps")
      (auto simp: route_orchestrated_disaggregated_request_def split: py_exn.splits)
  note pools = find_endpoints_pools [OF f]
  obtain p s1 where p: "select_prefill_endpoint s ps = (Inr p, s1)" "p \<in> set ps"
    using select_prefill_in [of ps s] pools by (metis prod.collapse)
  obtain d s2 where d: "select_decode_endpoint s1 ds = (Inr d, s2)" "d \<in> set ds"
    using select_decode_in [of ds s1] pools by (metis prod.collapse)
  have "orchestrate post show endpoint (ep_url p) (ep_url d) b (request_id_of hs uuid) = (reply, sent)"
    using assms(1) f p d by (simp add: route_orchestrated_disaggregated_request_def)
  then show thesis using that pools p(2) d(2) by blast
qed

section \<open>Properties\<close>


text \<open>Two labelled engines and the answers of a successful handover, for the witness.\<close>

definition handover_router :: OrchestratedRouter where
  "handover_router = orchestrated_init (LabelList [''p'']) (LabelList [''d''])"

definition handover_engines :: "EndpointInfo list" where
  "handover_engines = [(ep_example ''http://a:1'')\<lparr>model_label := Some ''p''\<rparr>,
     (ep_example ''http://b:2'')\<lparr>model_label := Some ''d''\<rparr>]"

definition handover_post :: "url \<Rightarrow> body \<Rightarrow> exchange" where
  "handover_post u b = Answer \<lparr>ha_status = 200, ha_text = [],
     ha_json = JsonBody (JObj [(''kv_transfer_params'', JObj [(''remote_port'', JInt 5)])]), ha_chunks = []\<rparr>"


end
