(* ===== verification/Url_Syntax.thy ===== *)
theory Url_Syntax
  imports Disagg_Request
begin

text \<open>
  The small parsers of \<^verbatim>\<open>utils.py\<close>: the URL pattern of \<^verbatim>\<open>validate_url\<close> and the comma-separated
  lists of backends, models and aliases.

  The pattern is written as a term of a small language of regular expressions, piece by piece as in
  the source. Matching is computed by derivatives and shown equal to the usual declarative
  reading, from which the set of accepted URLs follows.
\<close>

section \<open>Regular expressions\<close>

datatype regex =
    RNone
  | REps
  | RPred "char \<Rightarrow> bool"
  | RSeq regex regex
  | RAlt regex regex
  | RStar regex

abbreviation RPlus :: "regex \<Rightarrow> regex" where
  "RPlus r \<equiv> RSeq r (RStar r)"

abbreviation ROpt :: "regex \<Rightarrow> regex" where
  "ROpt r \<equiv> RAlt r REps"

fun RLit :: "string \<Rightarrow> regex" where
  "RLit [] = REps"
| "RLit (c # cs) = RSeq (RPred (\<lambda>d. d = c)) (RLit cs)"

text \<open>\<open>r{n}\<close> and \<open>r{lo,lo+k}\<close>.\<close>

fun RRep :: "nat \<Rightarrow> regex \<Rightarrow> regex" where
  "RRep 0 r = REps"
| "RRep (Suc n) r = RSeq r (RRep n r)"

fun RUpTo :: "nat \<Rightarrow> regex \<Rightarrow> regex" where
  "RUpTo 0 r = REps"
| "RUpTo (Suc n) r = ROpt (RSeq r (RUpTo n r))"

fun nullable :: "regex \<Rightarrow> bool" where
  "nullable RNone = False"
| "nullable REps = True"
| "nullable (RPred p) = False"
| "nullable (RSeq r s) = (nullable r \<and> nullable s)"
| "nullable (RAlt r s) = (nullable r \<or> nullable s)"
| "nullable (RStar r) = True"

fun deriv :: "char \<Rightarrow> regex \<Rightarrow> regex" where
  "deriv c RNone = RNone"
| "deriv c REps = RNone"
| "deriv c (RPred p) = (if p c then REps else RNone)"
| "deriv c (RSeq r s) = (if nullable r then RAlt (RSeq (deriv c r) s) (deriv c s) else RSeq (deriv c r) s)"
| "deriv c (RAlt r s) = RAlt (deriv c r) (deriv c s)"
| "deriv c (RStar r) = RSeq (deriv c r) (RStar r)"

definition re_fullmatch :: "regex \<Rightarrow> string \<Rightarrow> bool" where
  "re_fullmatch r s = nullable (fold deriv s r)"

section \<open>The URL pattern\<close>

definition is_letter :: "char \<Rightarrow> bool" where
  "is_letter c = (let n = (of_char c :: nat) in 97 \<le> n \<and> n \<le> 122 \<or> 65 \<le> n \<and> n \<le> 90)"

text \<open>The class \<^verbatim>\<open>[a-zA-Z0-9_-]\<close>.\<close>

definition is_label_char :: "char \<Rightarrow> bool" where
  "is_label_char c = (is_letter c \<or> is_digit c \<or> c = CHR ''_'' \<or> c = CHR ''-'')"

definition newline :: char where
  "newline = CHR 0x0A"

definition protocol_re :: regex where
  "protocol_re = RSeq (RAlt (RLit ''http'') (RLit ''https'')) (RLit ''://'')"

definition domain_re :: regex where
  "domain_re = RSeq (RPlus (RSeq (RPlus (RPred is_label_char)) (RLit ''.'')))
     (RSeq (RRep 2 (RPred is_letter)) (RStar (RPred is_letter)))"

definition label_re :: regex where
  "label_re = RPlus (RPred is_label_char)"

definition octet_re :: regex where
  "octet_re = RSeq (RPred is_digit) (RUpTo 2 (RPred is_digit))"

definition ipv4_re :: regex where
  "ipv4_re = RSeq octet_re (RRep 3 (RSeq (RLit ''.'') octet_re))"

definition host_re :: regex where
  "host_re = RAlt domain_re (RAlt label_re (RAlt (RLit ''localhost'') ipv4_re))"

definition port_re :: regex where
  "port_re = ROpt (RSeq (RLit '':'') (RPlus (RPred is_digit)))"

definition path_re :: regex where
  "path_re = ROpt (RSeq (RLit ''/'') (RStar (RPred (\<lambda>c. c \<noteq> newline))))"

text \<open>The anchor \<^verbatim>\<open>$\<close> holds at the end and before a final newline.\<close>

definition validate_url :: "string \<Rightarrow> bool" where
  "validate_url u = re_fullmatch
     (RSeq protocol_re (RSeq host_re (RSeq port_re (RSeq path_re (ROpt (RLit [newline])))))) u"

section \<open>Lists in options\<close>

definition parse_static_urls :: "string \<Rightarrow> url list" where
  "parse_static_urls s = filter validate_url (str_split '','' s)"

definition parse_comma_separated_args :: "string option \<Rightarrow> string list option" where
  "parse_comma_separated_args s = map_option (str_split '','') s"

fun aliases_loop :: "string list \<Rightarrow> (string, string) dict \<Rightarrow> (string, string) dict result" where
  "aliases_loop [] d = Inr d"
| "aliases_loop (x # xs) d = (case str_split '':'' x of
     [alias, model] \<Rightarrow> aliases_loop xs (dict_set d alias model)
   | _ \<Rightarrow> Inl (ValueError ''values to unpack''))"

definition parse_static_aliases :: "string \<Rightarrow> (string, string) dict result" where
  "parse_static_aliases s = aliases_loop (str_split '','' s) []"

section \<open>Matching\<close>

inductive matches :: "regex \<Rightarrow> string \<Rightarrow> bool" where
  eps: "matches REps []"
| pred: "p c \<Longrightarrow> matches (RPred p) [c]"
| seq: "matches r s \<Longrightarrow> matches r' s' \<Longrightarrow> matches (RSeq r r') (s @ s')"
| altl: "matches r s \<Longrightarrow> matches (RAlt r r') s"
| altr: "matches r' s \<Longrightarrow> matches (RAlt r r') s"
| star_nil: "matches (RStar r) []"
| star_step: "matches r s \<Longrightarrow> matches (RStar r) s' \<Longrightarrow> matches (RStar r) (s @ s')"

inductive_simps matches_simps [simp]:
  "matches RNone s" "matches REps s" "matches (RPred p) s" "matches (RAlt r r') s"

inductive_simps matches_RSeq: "matches (RSeq r r') s"

lemma matches_star_Cons:
  "matches (RStar r) (c # s) \<longleftrightarrow> (\<exists>s1 s2. s = s1 @ s2 \<and> matches r (c # s1) \<and> matches (RStar r) s2)"
proof
  assume "matches (RStar r) (c # s)"
  then show "\<exists>s1 s2. s = s1 @ s2 \<and> matches r (c # s1) \<and> matches (RStar r) s2"
  proof (induction "RStar r" "c # s" arbitrary: c s rule: matches.induct)
    case (star_step s1 s2)
    then show ?case by (cases s1) auto
  qed
next
  assume "\<exists>s1 s2. s = s1 @ s2 \<and> matches r (c # s1) \<and> matches (RStar r) s2"
  then show "matches (RStar r) (c # s)" by (metis append_Cons matches.star_step)
qed

lemma nullable_matches: "nullable r \<longleftrightarrow> matches r []"
  by (induction r) (auto simp: matches_RSeq intro: matches.star_nil)

lemma deriv_matches: "matches (deriv c r) s \<longleftrightarrow> matches r (c # s)"
proof (induction r arbitrary: s)
  case (RSeq r1 r2)
  then show ?case by (auto simp: matches_RSeq nullable_matches Cons_eq_append_conv)
next
  case (RStar r)
  then show ?case by (auto simp: matches_RSeq matches_star_Cons)
qed auto

text \<open>The computed match is the declarative one.\<close>

lemma re_fullmatch_iff: "re_fullmatch r s \<longleftrightarrow> matches r s"
  unfolding re_fullmatch_def
  by (induction s arbitrary: r) (simp_all add: nullable_matches deriv_matches)

section \<open>The accepted URLs\<close>

lemma matches_RSeq_RPred [simp]:
  "matches (RSeq (RPred p) r) s \<longleftrightarrow> (\<exists>c s'. s = c # s' \<and> p c \<and> matches r s')"
proof
  assume "matches (RSeq (RPred p) r) s"
  then show "\<exists>c s'. s = c # s' \<and> p c \<and> matches r s'" by (auto simp: matches_RSeq)
next
  assume "\<exists>c s'. s = c # s' \<and> p c \<and> matches r s'"
  then obtain c s' where "s = [c] @ s'" "p c" "matches r s'" by auto
  then show "matches (RSeq (RPred p) r) s" by (metis matches.seq matches.pred)
qed

lemma matches_RLit [simp]: "matches (RLit l) s \<longleftrightarrow> s = l"
  by (induction l arbitrary: s) auto

lemma matches_star_RPred [simp]: "matches (RStar (RPred p)) s \<longleftrightarrow> list_all p s"
  by (induction s) (auto simp: matches_star_Cons intro: matches.star_nil)

lemma matches_RRep_RPred [simp]: "matches (RRep n (RPred p)) s \<longleftrightarrow> length s = n \<and> list_all p s"
proof (induction n arbitrary: s)
  case (Suc n)
  show ?case by (cases s) (auto simp: Suc)
qed auto

lemma matches_RUpTo_RPred [simp]: "matches (RUpTo n (RPred p)) s \<longleftrightarrow> length s \<le> n \<and> list_all p s"
proof (induction n arbitrary: s)
  case (Suc n)
  show ?case by (cases s) (auto simp: Suc)
qed auto

lemma matches_plus: "matches (RPlus (RPred p)) s \<longleftrightarrow> s \<noteq> [] \<and> list_all p s"
  by (cases s) auto

lemma matches_octet [simp]: "matches octet_re s \<longleftrightarrow> s \<noteq> [] \<and> list_all is_digit s \<and> length s \<le> 3"
  by (cases s) (auto simp: octet_re_def simp del: RUpTo.simps)

lemma matches_two_or_more:
  "matches (RSeq (RRep 2 (RPred p)) (RStar (RPred p))) s \<longleftrightarrow> 2 \<le> length s \<and> list_all p s"
proof
  assume "matches (RSeq (RRep 2 (RPred p)) (RStar (RPred p))) s"
  then show "2 \<le> length s \<and> list_all p s" by (auto simp: matches_RSeq simp del: RRep.simps)
next
  assume "2 \<le> length s \<and> list_all p s"
  then obtain a b t where "s = a # b # t" "p a" "p b" "list_all p t"
    by (cases s; cases "tl s") auto
  then have "s = [a, b] @ t" "matches (RRep 2 (RPred p)) [a, b]" "matches (RStar (RPred p)) t" by simp_all
  then show "matches (RSeq (RRep 2 (RPred p)) (RStar (RPred p))) s" by (metis matches.seq)
qed

definition dotted :: "string list \<Rightarrow> string" where
  "dotted ls = concat (map (\<lambda>l. l @ ''.'') ls)"

lemma dotted_join: "dotted ls @ t = str_join ''.'' (ls @ [t])"
  by (induction ls) (simp_all add: dotted_def str_join_Cons)

lemma matches_dotted:
  "matches (RStar (RSeq r (RLit ''.''))) s \<longleftrightarrow> (\<exists>ls. s = dotted ls \<and> list_all (matches r) ls)"
proof
  assume "matches (RStar (RSeq r (RLit ''.''))) s"
  then show "\<exists>ls. s = dotted ls \<and> list_all (matches r) ls"
  proof (induction "RStar (RSeq r (RLit ''.''))" s rule: matches.induct)
    case star_nil
    show ?case by (intro exI [of _ "[]"]) (simp add: dotted_def)
  next
    case (star_step s s')
    then obtain l ls where "s = l @ ''.''" "matches r l" "s' = dotted ls" "list_all (matches r) ls"
      by (auto simp: matches_RSeq)
    then show ?case by (intro exI [of _ "l # ls"]) (simp add: dotted_def)
  qed
next
  assume "\<exists>ls. s = dotted ls \<and> list_all (matches r) ls"
  then obtain ls where "s = dotted ls" "list_all (matches r) ls" by blast
  then show "matches (RStar (RSeq r (RLit ''.''))) s"
  proof (induction ls arbitrary: s)
    case Nil
    then show ?case by (simp add: dotted_def matches.star_nil)
  next
    case (Cons l ls)
    have "matches (RSeq r (RLit ''.'')) (l @ ''.'')" using Cons.prems(2) by (auto simp: matches_RSeq)
    moreover have "matches (RStar (RSeq r (RLit ''.''))) (dotted ls)" using Cons by simp
    ultimately have "matches (RStar (RSeq r (RLit ''.''))) ((l @ ''.'') @ dotted ls)" by (rule matches.star_step)
    then show ?case using Cons.prems(1) by (simp add: dotted_def)
  qed
qed

text \<open>The hosts, without reference to patterns: what is between the dots decides.\<close>

definition is_label :: "string \<Rightarrow> bool" where
  "is_label l = (l \<noteq> [] \<and> list_all is_label_char l)"

definition host_ok :: "string \<Rightarrow> bool" where
  "host_ok h = (let ps = str_split ''.'' h in
     list_all is_label ps \<and>
     (length ps = 1 \<or>
      2 \<le> length (last ps) \<and> list_all is_letter (last ps) \<or>
      length ps = 4 \<and> list_all (\<lambda>p. list_all is_digit p \<and> length p \<le> 3) ps))"

lemma label_no_dot: "is_label l \<Longrightarrow> CHR ''.'' \<notin> set l"
  by (auto simp: is_label_def list_all_iff is_label_char_def is_letter_def is_digit_def)

lemma split_labels: "ls \<noteq> [] \<Longrightarrow> list_all is_label ls \<Longrightarrow> str_split ''.'' (str_join ''.'' ls) = ls"
  by (intro str_split_join) (auto simp: list_all_iff dest: label_no_dot)

lemma letters_label: "l \<noteq> [] \<Longrightarrow> list_all is_letter l \<Longrightarrow> is_label l"
  by (auto simp: is_label_def is_label_char_def list_all_iff)

lemma digits_label: "l \<noteq> [] \<Longrightarrow> list_all is_digit l \<Longrightarrow> is_label l"
  by (auto simp: is_label_def is_label_char_def list_all_iff)

lemma matches_label [simp]: "matches label_re h \<longleftrightarrow> is_label h"
  unfolding label_re_def is_label_def by (rule matches_plus)

lemma matches_domain:
  "matches domain_re h \<longleftrightarrow> (\<exists>ls t. h = str_join ''.'' (ls @ [t]) \<and> ls \<noteq> [] \<and> list_all is_label ls \<and>
     2 \<le> length t \<and> list_all is_letter t)"
proof -
  let ?D = "RSeq (RPlus (RPred is_label_char)) (RLit ''.'')"
  have d: "matches (RPlus ?D) s \<longleftrightarrow> (\<exists>ls. s = dotted ls \<and> ls \<noteq> [] \<and> list_all is_label ls)" for s
  proof
    assume "matches (RPlus ?D) s"
    then obtain s1 s2 where s: "s = s1 @ s2" "matches ?D s1" "matches (RStar ?D) s2"
      unfolding matches_RSeq [of ?D] by blast
    obtain l where l: "s1 = l @ ''.''" "is_label l"
      using s(2) unfolding matches_RSeq [of _ "RLit ''.''"] matches_RLit matches_plus is_label_def by blast
    obtain ls where "s2 = dotted ls" "list_all is_label ls"
      using s(3) unfolding matches_dotted matches_plus is_label_def by blast
    then have "s = (l @ ''.'') @ dotted ls" "is_label l" "list_all is_label ls" using s l by simp_all
    then show "\<exists>ls. s = dotted ls \<and> ls \<noteq> [] \<and> list_all is_label ls"
      by (intro exI [of _ "l # ls"]) (simp add: dotted_def)
  next
    assume "\<exists>ls. s = dotted ls \<and> ls \<noteq> [] \<and> list_all is_label ls"
    then obtain l ls where s: "s = (l @ ''.'') @ dotted ls" and l: "is_label l" "list_all is_label ls"
      by (auto simp: neq_Nil_conv dotted_def)
    have "matches ?D (l @ ''.'')"
      using l(1) unfolding is_label_def by (metis matches.seq matches_plus matches_RLit)
    moreover have "matches (RStar ?D) (dotted ls)"
      using l(2) unfolding matches_dotted matches_plus is_label_def by blast
    ultimately show "matches (RPlus ?D) s" unfolding s by (rule matches.seq)
  qed
  show ?thesis
    unfolding domain_re_def matches_RSeq [of "RPlus ?D"] d matches_two_or_more dotted_join [symmetric]
    by blast
qed

lemma ex_four: "(\<exists>ps. A ps \<and> length ps = 4 \<and> B ps) \<longleftrightarrow> (\<exists>a b c d. A [a, b, c, d] \<and> B [a, b, c, d])"
proof
  assume "\<exists>ps. A ps \<and> length ps = 4 \<and> B ps"
  then obtain ps where "A ps" "B ps" "length ps = 4" by blast
  moreover from this(3) obtain a b c d where "ps = [a, b, c, d]" by (auto simp: eval_nat_numeral length_Suc_conv)
  ultimately show "\<exists>a b c d. A [a, b, c, d] \<and> B [a, b, c, d]" by blast
next
  assume "\<exists>a b c d. A [a, b, c, d] \<and> B [a, b, c, d]"
  then obtain a b c d where "A [a, b, c, d]" "B [a, b, c, d]" by blast
  then show "\<exists>ps. A ps \<and> length ps = 4 \<and> B ps" by (intro exI [of _ "[a, b, c, d]"]) simp
qed

lemma matches_ipv4:
  "matches ipv4_re h \<longleftrightarrow> (\<exists>ps. h = str_join ''.'' ps \<and> length ps = 4 \<and>
     list_all (\<lambda>p. p \<noteq> [] \<and> list_all is_digit p \<and> length p \<le> 3) ps)"
proof -
  have dot: "matches (RSeq (RLit ''.'') octet_re) s \<longleftrightarrow> (\<exists>p. s = CHR ''.'' # p \<and> matches octet_re p)" for s
    by (auto simp: matches_RSeq)
  let ?D = "RSeq (RLit ''.'') octet_re"
  let ?R = "\<lambda>a b c d. h = a @ ''.'' @ b @ ''.'' @ c @ ''.'' @ d \<and>
      matches octet_re a \<and> matches octet_re b \<and> matches octet_re c \<and> matches octet_re d"
  have "matches ipv4_re h \<longleftrightarrow> (\<exists>a b c d. ?R a b c d)"
  proof
    assume "matches ipv4_re h"
    then obtain a t where a: "h = a @ t" "matches octet_re a" "matches (RRep 3 (RSeq (RLit ''.'') octet_re)) t"
      unfolding ipv4_re_def matches_RSeq [of octet_re] by blast
    obtain b t1 where b: "t = b @ t1" "matches ?D b" "matches (RRep 2 ?D) t1"
      using a(3) unfolding numeral_3_eq_3 numeral_2_eq_2 RRep.simps(2) matches_RSeq [of ?D] by blast
    obtain c t2 where c: "t1 = c @ t2" "matches ?D c" "matches (RRep 1 ?D) t2"
      using b(3) unfolding numeral_2_eq_2 One_nat_def RRep.simps(2) matches_RSeq [of ?D] by blast
    have d: "matches ?D t2"
      using c(3) unfolding One_nat_def RRep.simps matches_RSeq [of ?D] matches_simps by simp
    obtain b' c' d' where "b = CHR ''.'' # b'" "c = CHR ''.'' # c'" "t2 = CHR ''.'' # d'"
      "matches octet_re b'" "matches octet_re c'" "matches octet_re d'"
      using b(2) c(2) d unfolding dot by blast
    then have "?R a b' c' d'" using a b c by simp
    then show "\<exists>a b c d. ?R a b c d" by blast
  next
    assume "\<exists>a b c d. ?R a b c d"
    then obtain a b c d where r: "?R a b c d" by blast
    then have m: "matches ?D (CHR ''.'' # b)" "matches ?D (CHR ''.'' # c)" "matches ?D (CHR ''.'' # d)"
      unfolding dot by blast+
    have "matches (RRep 3 ?D) ((CHR ''.'' # b) @ (CHR ''.'' # c) @ (CHR ''.'' # d) @ [])"
      unfolding numeral_3_eq_3 RRep.simps by (intro matches.seq matches.eps m)
    then have "matches ipv4_re (a @ (CHR ''.'' # b) @ (CHR ''.'' # c) @ (CHR ''.'' # d) @ [])"
      unfolding ipv4_re_def using r by (intro matches.seq) blast+
    then show "matches ipv4_re h" using r by simp
  qed
  then show ?thesis unfolding ex_four by simp
qed

lemma matches_host: "matches host_re h \<longleftrightarrow> host_ok h"
proof
  assume "matches host_re h"
  then consider (domain) "matches domain_re h" | (label) "is_label h" | (local) "h = ''localhost''" | (ip) "matches ipv4_re h"
    by (auto simp: host_re_def simp del: RLit.simps)
  then show "host_ok h"
  proof cases
    case domain
    then obtain ls t where h: "h = str_join ''.'' (ls @ [t])" "list_all is_label ls" "2 \<le> length t" "list_all is_letter t"
      by (auto simp: matches_domain)
    then have "str_split ''.'' h = ls @ [t]"
      unfolding h(1) by (intro split_labels) (auto intro: letters_label)
    then show ?thesis using h by (auto simp: host_ok_def intro: letters_label)
  next
    case label
    then show ?thesis by (simp add: host_ok_def str_split_absent [OF label_no_dot])
  next
    case local
    then have "is_label h" by (simp add: is_label_def is_label_char_def is_letter_def)
    then show ?thesis by (simp add: host_ok_def str_split_absent [OF label_no_dot])
  next
    case ip
    then obtain ps where h: "h = str_join ''.'' ps" "length ps = 4"
      "list_all (\<lambda>p. p \<noteq> [] \<and> list_all is_digit p \<and> length p \<le> 3) ps" by (auto simp: matches_ipv4)
    have l: "list_all is_label ps" using h(3) by (auto simp: list_all_iff [of _ ps] intro: digits_label)
    have "str_split ''.'' h = ps" unfolding h(1) using h(2) l by (intro split_labels) auto
    then show ?thesis using h l by (auto simp: host_ok_def list_all_iff [of _ ps])
  qed
next
  assume ok: "host_ok h"
  let ?ps = "str_split ''.'' h"
  have j: "h = str_join ''.'' ?ps" by (simp add: str_join_split)
  have ne: "?ps \<noteq> []" by (simp add: str_split_def split_loop_not_Nil)
  have l: "list_all is_label ?ps" using ok by (simp add: host_ok_def)
  have domain: "matches domain_re h"
    if "length ?ps \<noteq> 1" "2 \<le> length (last ?ps)" "list_all is_letter (last ?ps)"
  proof -
    have "butlast ?ps \<noteq> []" using that(1) ne by (cases ?ps rule: rev_cases) auto
    then show ?thesis
      unfolding matches_domain using j ne l that
      by (intro exI [of _ "butlast ?ps"] exI [of _ "last ?ps"]) (auto simp: list_all_iff dest: in_set_butlastD)
  qed
  have label: "matches label_re h" if "length ?ps = 1"
  proof -
    obtain p where "?ps = [p]" using \<open>length ?ps = 1\<close> by (auto simp: length_Suc_conv)
    then show ?thesis using j l by simp
  qed
  have ip: "matches ipv4_re h" if "length ?ps = 4" "list_all (\<lambda>p. list_all is_digit p \<and> length p \<le> 3) ?ps"
    unfolding matches_ipv4 using j l that
    by (intro exI [of _ ?ps]) (auto simp: list_all_iff [of _ ?ps] is_label_def)
  show "matches host_re h"
    using ok domain label ip by (auto simp: host_ok_def host_re_def)
qed

lemma five_parts:
  "(\<exists>s s'. u = s @ s' \<and> (\<exists>a. s = a @ sep \<and> A a) \<and>
      (\<exists>b t. s' = b @ t \<and> B b \<and> (\<exists>c t'. t = c @ t' \<and> C c \<and> (\<exists>d e. t' = d @ e \<and> D d \<and> E e)))) \<longleftrightarrow>
   (\<exists>a b c d e. u = a @ sep @ b @ c @ d @ e \<and> A a \<and> B b \<and> C c \<and> D d \<and> E e)" (is "?l \<longleftrightarrow> ?r")
proof
  assume ?l
  then obtain a b c d e where "u = (a @ sep) @ b @ c @ d @ e" "A a" "B b" "C c" "D d" "E e" by blast
  then show ?r by (intro exI [of _ a] exI [of _ b] exI [of _ c] exI [of _ d] exI [of _ e]) simp
next
  assume ?r
  then obtain a b c d e where "u = (a @ sep) @ b @ c @ d @ e" "A a" "B b" "C c" "D d" "E e" by auto
  then show ?l by blast
qed

text \<open>C27. The URL check accepts exactly this: a protocol, a host that is one label, a domain name
  or four groups of digits, an optional port of digits, an optional path, and possibly a
  final newline, which the anchor of the pattern lets through.\<close>

theorem validate_url_exact:
  "validate_url u \<longleftrightarrow> (\<exists>scheme host port path nl. u = scheme @ ''://'' @ host @ port @ path @ nl \<and>
     scheme \<in> {''http'', ''https''} \<and> host_ok host \<and>
     (port = [] \<or> (\<exists>ds. port = CHR '':'' # ds \<and> ds \<noteq> [] \<and> list_all is_digit ds)) \<and>
     (path = [] \<or> (\<exists>p. path = CHR ''/'' # p \<and> newline \<notin> set p)) \<and>
     nl \<in> {[], [newline]})"
proof -
  have port: "matches port_re s \<longleftrightarrow> s = [] \<or> (\<exists>ds. s = CHR '':'' # ds \<and> ds \<noteq> [] \<and> list_all is_digit ds)" for s
    unfolding port_re_def matches_simps matches_RSeq [of "RLit '':''"] matches_RLit matches_plus by auto
  have path: "matches path_re s \<longleftrightarrow> s = [] \<or> (\<exists>p. s = CHR ''/'' # p \<and> newline \<notin> set p)" for s
    unfolding path_re_def matches_simps matches_RSeq [of "RLit ''/''"] matches_RLit matches_star_RPred
    by (auto simp: list_all_iff)
  have protocol: "matches protocol_re s \<longleftrightarrow> (\<exists>scheme. s = scheme @ ''://'' \<and> scheme \<in> {''http'', ''https''})" for s
    unfolding protocol_re_def matches_RSeq matches_simps matches_RLit by blast
  have nl: "matches (ROpt (RLit [newline])) s \<longleftrightarrow> s \<in> {[], [newline]}" for s by auto
  show ?thesis
    unfolding validate_url_def re_fullmatch_iff matches_RSeq [of protocol_re] matches_RSeq [of host_re]
      matches_RSeq [of port_re] matches_RSeq [of path_re] protocol matches_host port path nl
    by (rule five_parts)
qed

text \<open>A statically configured engine without a path hands its bare host to the decode engine.\<close>

lemma split_loop_skip: "c \<notin> set s \<Longrightarrow> split_loop (c # cs) acc (s @ t) = split_loop (c # cs) (rev s @ acc) t"
proof (induction s arbitrary: acc)
  case (Cons d s)
  then show ?case by (subst split_loop.simps) auto
qed simp

lemma set_str_join: "set (str_join sep ps) \<subseteq> set sep \<union> (\<Union>p \<in> set ps. set p)"
  by (induction sep ps rule: str_join.induct) auto

lemma host_chars:
  assumes ok: "host_ok h"
  shows "h \<noteq> [] \<and> CHR '':'' \<notin> set h \<and> CHR ''/'' \<notin> set h"
proof -
  have l: "list_all is_label (str_split ''.'' h)" using ok by (simp add: host_ok_def)
  have sub: "set h \<subseteq> {CHR ''.''} \<union> (\<Union>p \<in> set (str_split ''.'' h). set p)"
    using set_str_join [of "''.''" "str_split ''.'' h"] by (simp add: str_join_split)
  have c: "c = CHR ''.'' \<or> is_label_char c" if "c \<in> set h" for c
    using sub l that by (auto simp: list_all_iff is_label_def)
  have "\<not> is_label_char (CHR '':'')" "\<not> is_label_char (CHR ''/'')"
    by (simp_all add: is_label_char_def is_letter_def is_digit_def)
  moreover have "h \<noteq> []"
  proof
    assume "h = []"
    moreover have "str_split ''.'' [] = [[]]" by (rule str_split_absent) simp
    ultimately show False using l by (simp add: is_label_def)
  qed
  ultimately show ?thesis using c [of "CHR '':''"] c [of "CHR ''/''"] by auto
qed

lemma hd_split_skip: "c \<notin> set s \<Longrightarrow> t = [] \<or> hd t = c \<Longrightarrow> hd (str_split [c] (s @ t)) = s"
  by (cases t) (auto simp: str_split_absent str_split_at)

lemma split_plain: "c \<notin> set s \<Longrightarrow> str_split (c # cs) s = [s]"
  using split_loop_skip [of c s cs "[]" "[]"] by (simp add: str_split_def split_loop.simps [of _ _ "[]"])

lemma split_at_sep: "c \<notin> set s \<Longrightarrow> str_split (c # cs) (s @ (c # cs) @ t) = s # str_split (c # cs) t"
  using split_loop_skip [of c s cs "[]" "(c # cs) @ t"]
  by (simp add: str_split_def split_loop.simps [of _ _ "c # cs @ t"])

lemma split_no_sep: "CHR ''/'' \<notin> set s \<Longrightarrow> split_loop ''://'' acc s = [rev acc @ s]"
proof (induction s arbitrary: acc)
  case (Cons d s)
  have "take 3 (d # s) \<noteq> ''://''" using Cons.prems by (cases s) auto
  then show ?case using Cons by (simp add: split_loop.simps [of _ _ "d # s"] numeral_2_eq_2)
qed (simp add: split_loop.simps)

theorem static_backend_host:
  assumes "u = scheme @ ''://'' @ host @ port" "scheme \<in> {''http'', ''https''}" "host_ok host"
    and "port = [] \<or> (\<exists>ds. port = CHR '':'' # ds \<and> ds \<noteq> [] \<and> list_all is_digit ds)"
  shows "remote_host_of u = Inr host"
proof -
  have h: "CHR '':'' \<notin> set host" "CHR ''/'' \<notin> set host" using host_chars [OF assms(3)] by auto
  have "\<not> is_digit (CHR ''/'')" by (simp add: is_digit_def)
  then have p: "CHR ''/'' \<notin> set port" using assms(4) by (auto simp: list_all_iff)
  have "str_split ''://'' u = [scheme, host @ port]"
    using assms(2) split_at_sep [of "CHR '':''" scheme "''//''" "host @ port"] split_no_sep [of "host @ port" "[]"] h p
    by (auto simp: assms(1) str_split_def)
  moreover have "hd (str_split '':'' (host @ port)) = host"
    using h(1) assms(4) by (intro hd_split_skip) auto
  ultimately show ?thesis by (simp add: remote_host_of_def)
qed

end
