(* ===== verification/Routing_KV.thy ===== *)
theory Routing_KV
  imports Routing_Base
begin

text \<open>
  The routers that ask the LMCache controller where a prompt's KV cache lives:
  \<^verbatim>\<open>KvawareRouter\<close> and \<^verbatim>\<open>LoadAwareRouter\<close> of
  \<^verbatim>\<open>src/src/vllm_router/routers/routing_logic.py\<close>. The tokenizers, the remote tokenization
  call and the controller are external; a request sees them through the functions of a
  \<open>kv_env\<close>. The controller's background thread is not part of the model.
\<close>

section \<open>External services\<close>

text \<open>
  The answer to a cache lookup is \<open>None\<close> when the controller returned nothing; otherwise it
  carries \<^verbatim>\<open>layout_info\<close>, which maps an instance id to a location and a number of matched
  tokens and may itself be missing. \<open>kv_gather\<close> is the order in which concurrent queries
  complete.
\<close>

type_synonym layout = "(string, string \<times> int) dict"

record 't kv_env =
  kv_load_tokenizer :: "string \<Rightarrow> 't result"
  kv_encode :: "'t \<Rightarrow> json \<Rightarrow> int list result"
  kv_remote_tokenize :: "url \<Rightarrow> string \<Rightarrow> json \<Rightarrow> int list result"
  kv_lookup :: "int list \<Rightarrow> layout option option"
  kv_query_inst :: "string \<Rightarrow> string"
  kv_gather :: "EndpointInfo list \<Rightarrow> EndpointInfo list"

section \<open>Cache-aware routing\<close>

record ('r, 't) KvawareRouter =
  kv_controller_urls :: "(string, string option) dict"
  kv_req_id :: int
  instance_id_to_ip :: "(string, url) dict"
  kv_session_key :: "string option"
  kv_hash_ring :: 'r
  kv_tokenizers :: "(string, 't) dict"
  kv_threshold :: "int option"

definition fmt_port :: "int option \<Rightarrow> string" where
  "fmt_port p = ''0.0.0.0:'' @ (case p of None \<Rightarrow> ''None'' | Some i \<Rightarrow> str_of_int i)"

definition controller_urls ::
  "int option \<Rightarrow> int option \<Rightarrow> int option \<Rightarrow> (string, string option) dict" where
  "controller_urls port reply heartbeat =
     (let d = [(''pull'', Some (fmt_port port)),
               (''reply'', case reply of None \<Rightarrow> None | Some i \<Rightarrow> Some (fmt_port (Some i)))]
      in case heartbeat of None \<Rightarrow> d
         | Some i \<Rightarrow> dict_set d ''heartbeat'' (Some (fmt_port (Some i))))"

definition kvaware_init ::
  "'r ring_ops \<Rightarrow> int option \<Rightarrow> string option \<Rightarrow> int option \<Rightarrow> int option \<Rightarrow> int option
     \<Rightarrow> ('r, 't) KvawareRouter" where
  "kvaware_init R port session_key threshold reply heartbeat =
     \<lparr>kv_controller_urls = controller_urls port reply heartbeat, kv_req_id = 0,
      instance_id_to_ip = [], kv_session_key = session_key, kv_hash_ring = ring_empty R,
      kv_tokenizers = [], kv_threshold = threshold\<rparr>"

text \<open>\<^verbatim>\<open>endpoints[0].model_names[0]\<close>.\<close>

definition first_model :: "EndpointInfo list \<Rightarrow> string result" where
  "first_model eps = (case eps of
     [] \<Rightarrow> Inl IndexError
   | e # _ \<Rightarrow> (case model_names e of [] \<Rightarrow> Inl IndexError | m # _ \<Rightarrow> Inr m))"

definition get_tokenizer ::
  "'t kv_env \<Rightarrow> (string, 't) dict \<Rightarrow> EndpointInfo list \<Rightarrow> 't result \<times> (string, 't) dict" where
  "get_tokenizer env toks eps = (case first_model eps of
     Inl x \<Rightarrow> (Inl x, toks)
   | Inr m \<Rightarrow> (case map_of toks m of
       Some t \<Rightarrow> (Inr t, toks)
     | None \<Rightarrow> (case kv_load_tokenizer env m of
         Inl x \<Rightarrow> (Inl x, toks)
       | Inr t \<Rightarrow> (Inr t, dict_set toks m t))))"

text \<open>Local tokenization first; any exception falls back to the first engine's \<^verbatim>\<open>/tokenize\<close>.\<close>

definition remote_tokens :: "'t kv_env \<Rightarrow> EndpointInfo list \<Rightarrow> body \<Rightarrow> int list result" where
  "remote_tokens env eps b = (case eps of
     [] \<Rightarrow> Inl IndexError
   | e # _ \<Rightarrow> result_bind (first_model eps)
       (\<lambda>m. kv_remote_tokenize env (ep_url e @ ''/tokenize'') m (dict_get b ''prompt'' (JStr []))))"

definition tokenize_prompt ::
  "'t kv_env \<Rightarrow> (string, 't) dict \<Rightarrow> EndpointInfo list \<Rightarrow> body
     \<Rightarrow> int list result \<times> (string, 't) dict" where
  "tokenize_prompt env toks eps b = (case get_tokenizer env toks eps of
     (Inr t, toks') \<Rightarrow> (case kv_encode env t (dict_get b ''prompt'' (JStr [])) of
         Inr ids \<Rightarrow> (Inr ids, toks')
       | Inl _ \<Rightarrow> (remote_tokens env eps b, toks'))
   | (Inl _, toks') \<Rightarrow> (remote_tokens env eps b, toks'))"

text \<open>The bridge from instance ids to URLs is stale when it misses an endpoint or a holder.\<close>

definition instance_map_is_stale :: "(string, url) dict \<Rightarrow> EndpointInfo list \<Rightarrow> layout \<Rightarrow> bool" where
  "instance_map_is_stale m eps li =
     ((\<exists>e \<in> set eps. ep_url e \<notin> snd ` set m) \<or> (\<exists>h \<in> set (keys li). h \<notin> fst ` set m))"

text \<open>\<^verbatim>\<open>url.split(f":{url.split(':')[-1]}")[0].split("//")[1]\<close>.\<close>

definition kvaware_query_ip :: "url \<Rightarrow> string result" where
  "kvaware_query_ip u =
     (let port = last (str_split '':'' u);
          parts = str_split ''//'' (hd (str_split ('':'' @ port) u))
      in case parts of _ # ip # _ \<Rightarrow> Inr ip | _ \<Rightarrow> Inl IndexError)"

fun kvaware_rebuild ::
  "'t kv_env \<Rightarrow> EndpointInfo list \<Rightarrow> (string, url) dict \<Rightarrow> unit result \<times> (string, url) dict" where
  "kvaware_rebuild env [] m = (Inr (), m)"
| "kvaware_rebuild env (e # es) m = (case kvaware_query_ip (ep_url e) of
     Inl x \<Rightarrow> (Inl x, m)
   | Inr ip \<Rightarrow> kvaware_rebuild env es (dict_set m (kv_query_inst env ip) (ep_url e)))"

text \<open>\<^verbatim>\<open>{url: holder for holder, url in bridge.items() if keep(url)}\<close>: the last id of a URL wins.\<close>

definition invert_bridge :: "(url \<Rightarrow> bool) \<Rightarrow> (string, url) dict \<Rightarrow> (url, string) dict" where
  "invert_bridge keep m = fold (\<lambda>(h, u) d. if keep u then dict_set d u h else d) m []"

definition live_holders_of :: "EndpointInfo list \<Rightarrow> (string, url) dict \<Rightarrow> layout \<Rightarrow> string list" where
  "live_holders_of eps m li =
     (let url_to_instance = invert_bridge (\<lambda>u. u \<in> set (urls_of eps)) m
      in filter (\<lambda>h. h \<in> snd ` set url_to_instance) (keys li))"

text \<open>\<^verbatim>\<open>max(xs, key=f)\<close>: the first element of maximal key.\<close>

fun max_by :: "('a \<Rightarrow> int) \<Rightarrow> 'a \<Rightarrow> 'a list \<Rightarrow> 'a" where
  "max_by f x [] = x"
| "max_by f x (y # ys) = max_by f (if f x < f y then y else x) ys"

definition matched_of :: "layout \<Rightarrow> string \<Rightarrow> int" where
  "matched_of li h = (case map_of li h of None \<Rightarrow> 0 | Some (loc, n) \<Rightarrow> n)"

text \<open>The route used when the controller gives no usable answer: session hash, else lowest rate.\<close>

definition fallback_url ::
  "'r ring_ops \<Rightarrow> ('r, 't, 'm) KvawareRouter_scheme \<Rightarrow> EndpointInfo list \<Rightarrow> request_stats \<Rightarrow> headers
     \<Rightarrow> body \<Rightarrow> url option \<times> ('r, 't, 'm) KvawareRouter_scheme" where
  "fallback_url R s eps stats hs b =
     (let ring = update_hash_ring R (kv_hash_ring s) eps
      in (case extract_session_id (kv_session_key s) hs b of
            None \<Rightarrow> qps_routing eps stats
          | Some k \<Rightarrow> ring_get_node R ring k, s\<lparr>kv_hash_ring := ring\<rparr>))"

text \<open>
  The decision of \<^verbatim>\<open>KvawareRouter.route_request\<close> once the bridge is fresh: the best live
  holder, if it exists and covers the prompt up to the threshold. \<^verbatim>\<open>len(layout_info)\<close> and the
  subtraction raise on missing values.
\<close>

definition kvaware_choice ::
  "('r, 't, 'm) KvawareRouter_scheme \<Rightarrow> EndpointInfo list \<Rightarrow> layout option \<Rightarrow> int list
     \<Rightarrow> url option result" where
  "kvaware_choice s eps li toks = (case li of
     None \<Rightarrow> Inl (TypeError ''object of type NoneType has no len()'')
   | Some d \<Rightarrow>
      (case (if d = [] then [] else live_holders_of eps (instance_id_to_ip s) d) of
         [] \<Rightarrow> Inr None
       | h # hs \<Rightarrow>
          (let best = max_by (matched_of d) h hs in
           case kv_threshold s of
             None \<Rightarrow> Inl (TypeError ''unsupported operand type(s) for -'')
           | Some th \<Rightarrow>
               if matched_of d best < max (int (length toks) - th) 0 then Inr None
               else (case map_of (instance_id_to_ip s) best of
                       None \<Rightarrow> Inl (KeyError best) | Some u \<Rightarrow> Inr (Some u)))))"

text \<open>The bridge the decision is taken on: rebuilt when there is a layout and it is stale.\<close>

definition kvaware_bridge ::
  "'t kv_env \<Rightarrow> EndpointInfo list \<Rightarrow> layout option \<Rightarrow> (string, url) dict
     \<Rightarrow> unit result \<times> (string, url) dict" where
  "kvaware_bridge env eps li m = (case li of
     Some (p # d) \<Rightarrow>
       if instance_map_is_stale m eps (p # d) then kvaware_rebuild env eps m else (Inr (), m)
   | _ \<Rightarrow> (Inr (), m))"

definition kvaware_route ::
  "'r ring_ops \<Rightarrow> 't kv_env \<Rightarrow> ('r, 't) KvawareRouter \<Rightarrow> EndpointInfo list \<Rightarrow> request_stats
     \<Rightarrow> headers \<Rightarrow> body \<Rightarrow> url option result \<times> ('r, 't) KvawareRouter" where
  "kvaware_route R env s eps stats hs b =
     (case tokenize_prompt env (kv_tokenizers s) eps b of
        (Inl x, toks) \<Rightarrow> (Inl x, s\<lparr>kv_tokenizers := toks\<rparr>)
      | (Inr ids, toks) \<Rightarrow>
         let s1 = s\<lparr>kv_tokenizers := toks\<rparr> in
         (case kv_lookup env ids of
            None \<Rightarrow> (Inl (AttributeError ''layout_info''), s1)
          | Some li \<Rightarrow>
             let (r, m) = kvaware_bridge env eps li (instance_id_to_ip s1);
                 s2 = s1\<lparr>instance_id_to_ip := m\<rparr>
             in (case r of
                   Inl x \<Rightarrow> (Inl x, s2)
                 | Inr _ \<Rightarrow> (case kvaware_choice s2 eps li ids of
                     Inl x \<Rightarrow> (Inl x, s2)
                   | Inr (Some u) \<Rightarrow> (Inr (Some u), s2)
                   | Inr None \<Rightarrow> (let (u, s3) = fallback_url R s2 eps stats hs b in (Inr u, s3))))))"

section \<open>Load-aware routing\<close>

record ('r, 't) LoadAwareRouter = "('r, 't) KvawareRouter" +
  la_beta :: real

definition DEFAULT_LOADAWARE_BETA :: real where
  "DEFAULT_LOADAWARE_BETA = 1"

text \<open>\<^verbatim>\<open>_loadaware_beta\<close>. The environment variable's text and Python's \<^verbatim>\<open>float()\<close> are arguments.\<close>

definition loadaware_beta :: "(string \<Rightarrow> real option) \<Rightarrow> string option \<Rightarrow> real option \<Rightarrow> real" where
  "loadaware_beta parse_float env_var override = (case override of
     Some b \<Rightarrow> b
   | None \<Rightarrow> (case env_var of
       None \<Rightarrow> DEFAULT_LOADAWARE_BETA
     | Some raw \<Rightarrow>
         if str_strip raw = [] then DEFAULT_LOADAWARE_BETA
         else (case parse_float raw of None \<Rightarrow> DEFAULT_LOADAWARE_BETA | Some b \<Rightarrow> b)))"

definition loadaware_init ::
  "'r ring_ops \<Rightarrow> int option \<Rightarrow> string option \<Rightarrow> int option \<Rightarrow> int option \<Rightarrow> int option \<Rightarrow> real
     \<Rightarrow> ('r, 't) LoadAwareRouter" where
  "loadaware_init R port session_key threshold reply heartbeat beta =
     KvawareRouter.extend
       (kvaware_init R port session_key
          (case threshold of None \<Rightarrow> Some 2000 | Some t \<Rightarrow> Some t) reply heartbeat)
       (LoadAwareRouter.fields beta)"

definition load_penalty :: "request_stats \<Rightarrow> url \<Rightarrow> int" where
  "load_penalty stats u = (case map_of stats u of
     None \<Rightarrow> 0
   | Some st \<Rightarrow> st_in_prefill_requests st + st_in_decoding_requests st)"

definition relative_loads :: "request_stats \<Rightarrow> EndpointInfo list \<Rightarrow> (url, real) dict" where
  "relative_loads stats eps =
     (let loads = fold (\<lambda>e d. dict_set d (ep_url e) (load_penalty stats (ep_url e))) eps [] in
      if loads = [] then []
      else let mean = real_of_int (sum_list (map snd loads)) / real (length loads)
           in map (\<lambda>(u, l). (u, (real_of_int l - mean) / max 1 mean)) loads)"

definition score_endpoint :: "real \<Rightarrow> int \<Rightarrow> int \<Rightarrow> real \<Rightarrow> real" where
  "score_endpoint beta matched prompt relative_load =
     real_of_int (min matched prompt) / real_of_int (max prompt 1) - beta * relative_load"

definition matched_tokens_by_url :: "(string, url) dict \<Rightarrow> layout \<Rightarrow> (url, int) dict" where
  "matched_tokens_by_url m li =
     fold (\<lambda>(u, h) d. case map_of li h of None \<Rightarrow> d | Some (loc, n) \<Rightarrow> dict_set d u n)
       (invert_bridge (\<lambda>_. True) m) []"

text \<open>The selection loop; \<open>None\<close> in the best score is minus infinity.\<close>

fun select_loop ::
  "(url \<Rightarrow> real) \<Rightarrow> url list \<Rightarrow> real option \<Rightarrow> url option \<Rightarrow> url option" where
  "select_loop score [] best_score best = best"
| "select_loop score (u # us) best_score best =
     (if (case best_score of None \<Rightarrow> True | Some b \<Rightarrow> b < score u)
      then select_loop score us (Some (score u)) (Some u)
      else select_loop score us best_score best)"

definition url_score :: "real \<Rightarrow> (url, int) dict \<Rightarrow> (url, real) dict \<Rightarrow> int \<Rightarrow> url \<Rightarrow> real" where
  "url_score beta matched relative prompt u =
     score_endpoint beta (dict_get matched u 0) prompt (dict_get relative u 0)"

definition select_url ::
  "('r, 't) LoadAwareRouter \<Rightarrow> EndpointInfo list \<Rightarrow> request_stats \<Rightarrow> layout \<Rightarrow> int \<Rightarrow> url option" where
  "select_url s eps stats li prompt =
     select_loop
       (url_score (la_beta s) (matched_tokens_by_url (instance_id_to_ip s) li)
          (relative_loads stats eps) prompt)
       (urls_of (sort_key ep_url eps)) None None"

text \<open>
  The host name \<^verbatim>\<open>urllib.parse\<close> reads off a URL: the scheme is dropped when it is well formed,
  the network location ends at the first slash, question mark or hash, user information and
  port are cut off, and the name is lower-cased up to a zone separator.
\<close>

definition is_ascii_alpha :: "char \<Rightarrow> bool" where
  "is_ascii_alpha c = (let n = (of_char c :: nat) in (65 \<le> n \<and> n \<le> 90) \<or> (97 \<le> n \<and> n \<le> 122))"

definition is_scheme_char :: "char \<Rightarrow> bool" where
  "is_scheme_char c = (let n = (of_char c :: nat) in
     is_ascii_alpha c \<or> (48 \<le> n \<and> n \<le> 57) \<or> c \<in> {CHR ''+'', CHR ''-'', CHR ''.''})"

definition drop_scheme :: "url \<Rightarrow> url" where
  "drop_scheme u =
     (let s = takeWhile (\<lambda>c. c \<noteq> CHR '':'') u in
      if s \<noteq> [] \<and> length s < length u \<and> is_ascii_alpha (hd s) \<and> list_all is_scheme_char s
      then drop (Suc (length s)) u else u)"

definition url_netloc :: "url \<Rightarrow> string result" where
  "url_netloc u =
     (let rest = drop_scheme u;
          netloc = (if take 2 rest = ''//''
                    then takeWhile (\<lambda>c. c \<notin> {CHR ''/'', CHR ''?'', CHR ''#''}) (drop 2 rest)
                    else [])
      in if (CHR ''['' \<in> set netloc) \<noteq> (CHR '']'' \<in> set netloc)
         then Inl (ValueError ''Invalid IPv6 URL'') else Inr netloc)"

definition netloc_hostname :: "string \<Rightarrow> string" where
  "netloc_hostname netloc =
     (let hostinfo = rev (takeWhile (\<lambda>c. c \<noteq> CHR ''@'') (rev netloc));
          host = (if CHR ''['' \<in> set hostinfo
                  then takeWhile (\<lambda>c. c \<noteq> CHR '']'')
                         (tl (dropWhile (\<lambda>c. c \<noteq> CHR ''['') hostinfo))
                  else takeWhile (\<lambda>c. c \<noteq> CHR '':'') hostinfo);
          name = takeWhile (\<lambda>c. c \<noteq> CHR ''%'') host
      in str_lower name @ drop (length name) host)"

definition loadaware_query_ip :: "url \<Rightarrow> string result" where
  "loadaware_query_ip u =
     result_bind (url_netloc (if contains_str u ''//'' then u else ''//'' @ u))
       (\<lambda>n. Inr (netloc_hostname n))"

text \<open>
  \<^verbatim>\<open>refresh_instance_map\<close>: every endpoint is queried concurrently and writes its entry when its
  answer arrives; a URL that does not parse makes the call raise after the others have written.
\<close>

definition refresh_writes :: "'t kv_env \<Rightarrow> EndpointInfo list \<Rightarrow> (string, url) dict \<Rightarrow> (string, url) dict" where
  "refresh_writes env eps m =
     fold (\<lambda>e m. case loadaware_query_ip (ep_url e) of
             Inl _ \<Rightarrow> m | Inr ip \<Rightarrow> dict_set m (kv_query_inst env ip) (ep_url e))
       (kv_gather env eps) m"

definition refresh_instance_map ::
  "'t kv_env \<Rightarrow> EndpointInfo list \<Rightarrow> layout \<Rightarrow> (string, url) dict
     \<Rightarrow> unit result \<times> (string, url) dict" where
  "refresh_instance_map env eps li m =
     (if \<not> instance_map_is_stale m eps li then (Inr (), m)
      else (if list_all (\<lambda>e. is_ok (loadaware_query_ip (ep_url e))) eps then Inr ()
            else Inl (ValueError ''Invalid IPv6 URL''),
            refresh_writes env eps m))"

text \<open>\<^verbatim>\<open>LoadAwareRouter.route_request\<close>.\<close>

definition loadaware_route ::
  "'r ring_ops \<Rightarrow> 't kv_env \<Rightarrow> ('r, 't) LoadAwareRouter \<Rightarrow> EndpointInfo list \<Rightarrow> request_stats
     \<Rightarrow> headers \<Rightarrow> body \<Rightarrow> url option result \<times> ('r, 't) LoadAwareRouter" where
  "loadaware_route R env s eps stats hs b =
     (if eps = [] then (Inl (HTTPException 503 ''No backend endpoints available''), s)
      else case tokenize_prompt env (kv_tokenizers s) eps b of
        (Inl x, toks) \<Rightarrow> (Inl x, s\<lparr>kv_tokenizers := toks\<rparr>)
      | (Inr ids, toks) \<Rightarrow>
         let s1 = s\<lparr>kv_tokenizers := toks\<rparr>;
             li = (case kv_lookup env ids of Some (Some d) \<Rightarrow> d | _ \<Rightarrow> [])
         in if li = []
            then (let (u, s2) = fallback_url R s1 eps stats hs b in (Inr u, s2))
            else let (r, m) = refresh_instance_map env eps li (instance_id_to_ip s1);
                     s2 = s1\<lparr>instance_id_to_ip := m\<rparr>
                 in (case r of
                       Inl x \<Rightarrow> (Inl x, s2)
                     | Inr _ \<Rightarrow> (case select_url s2 eps stats li (int (length ids)) of
                         Some u \<Rightarrow> (Inr (Some u), s2)
                       | None \<Rightarrow> (let (u, s3) = fallback_url R s2 eps stats hs b in (Inr u, s3)))))"

section \<open>Facts about selection\<close>

lemma max_by_in: "max_by f x xs \<in> insert x (set xs)"
proof (induction f x xs rule: max_by.induct)
  case (2 f x y ys)
  then show ?case by (auto split: if_splits)
qed simp

lemma max_by_max: "y \<in> insert x (set xs) \<Longrightarrow> f y \<le> f (max_by f x xs)"
proof (induction f x xs arbitrary: y rule: max_by.induct)
  case (2 f x z zs)
  let ?w = "if f x < f z then z else x"
  have w: "f ?w \<le> f (max_by f ?w zs)" "\<And>v. v \<in> set zs \<Longrightarrow> f v \<le> f (max_by f ?w zs)"
    using 2(1) by blast+
  then show ?case using 2(2) by (cases "f x < f z") auto
qed simp

text \<open>
  The loop over a sorted list returns the smallest URL among those of maximal score.
\<close>

lemma select_loop_in:
  "select_loop score us bs best = Some u \<Longrightarrow> u \<in> set us \<or> best = Some u"
  by (induction score us bs best rule: select_loop.induct) (auto split: if_splits)

lemma select_loop_from:
  assumes "sorted us" "\<forall>v \<in> set us. b \<le> v"
  shows "\<exists>u. select_loop score us (Some (score b)) (Some b) = Some u \<and>
     u \<in> insert b (set us) \<and> (\<forall>v \<in> insert b (set us). score v \<le> score u) \<and>
     (\<forall>v \<in> insert b (set us). score v = score u \<longrightarrow> u \<le> v)"
  using assms
proof (induction us arbitrary: b)
  case (Cons x us)
  show ?case
  proof (cases "score b < score x")
    case True
    then show ?thesis using Cons.IH [of x] Cons.prems by fastforce
  next
    case False
    then obtain u where u: "select_loop score us (Some (score b)) (Some b) = Some u"
      "u \<in> insert b (set us)" "\<forall>v \<in> insert b (set us). score v \<le> score u"
      "\<forall>v \<in> insert b (set us). score v = score u \<longrightarrow> u \<le> v"
      using Cons.IH [of b] Cons.prems by auto
    have "score x = score u \<Longrightarrow> u \<le> x"
      using u(3,4) Cons.prems False by (metis insertI1 list.set_intros(1) nle_le order.trans order_less_le)
    then show ?thesis using u False by fastforce
  qed
qed simp

lemma select_loop_best:
  assumes "sorted us" "us \<noteq> []"
  shows "\<exists>u. select_loop score us None None = Some u \<and> u \<in> set us \<and>
     (\<forall>v \<in> set us. score v \<le> score u) \<and> (\<forall>v \<in> set us. score v = score u \<longrightarrow> u \<le> v)"
  using assms select_loop_from [of "tl us" "hd us" score] by (cases us) auto

lemma sorted_urls_sort_key: "sorted (urls_of (sort_key ep_url eps))"
  by simp

lemma select_url_best:
  assumes "eps \<noteq> []"
  defines "sc \<equiv> \<lambda>s stats li prompt. url_score (la_beta s)
     (matched_tokens_by_url (instance_id_to_ip s) li) (relative_loads stats eps) prompt"
  shows "\<exists>u \<in> set (urls_of eps). select_url s eps stats li prompt = Some u \<and>
     (\<forall>v \<in> set (urls_of eps). sc s stats li prompt v \<le> sc s stats li prompt u) \<and>
     (\<forall>v \<in> set (urls_of eps). sc s stats li prompt v = sc s stats li prompt u \<longrightarrow> u \<le> v)"
proof -
  have "urls_of (sort_key ep_url eps) \<noteq> []" using assms(1) by (metis list.map_disc_iff length_0_conv length_sort)
  from select_loop_best [OF sorted_urls_sort_key this, of "sc s stats li prompt"]
  show ?thesis by (auto simp: select_url_def sc_def)
qed

section \<open>Facts about the bridge\<close>

lemma invert_bridge_snoc:
  "invert_bridge keep (m @ [(h, u)]) =
     (if keep u then dict_set (invert_bridge keep m) u h else invert_bridge keep m)"
  by (simp add: invert_bridge_def)

text \<open>Every entry of the inverted bridge is an entry of the bridge with a kept URL.\<close>

lemma invert_bridge_sound:
  "(u, h) \<in> set (invert_bridge keep m) \<Longrightarrow> (h, u) \<in> set m \<and> keep u"
proof (induction m rule: rev_induct)
  case Nil
  then show ?case by (simp add: invert_bridge_def)
next
  case (snoc p m)
  obtain h' u' where p: "p = (h', u')" by fastforce
  have set_upd: "(u, h) \<in> set (dict_set d k v) \<Longrightarrow> (u, h) = (k, v) \<or> (u, h) \<in> set d" for d k v
    by (induction d) (auto split: if_splits)
  show ?case using snoc p set_upd by (fastforce simp: invert_bridge_snoc split: if_splits)
qed

lemma live_holder_url:
  assumes "h \<in> set (live_holders_of eps m li)" "distinct (keys m)"
  shows "\<exists>u \<in> set (urls_of eps). map_of m h = Some u"
proof -
  obtain u where "(u, h) \<in> set (invert_bridge (\<lambda>u. u \<in> set (urls_of eps)) m)"
    using assms(1) by (auto simp: live_holders_of_def)
  from invert_bridge_sound [OF this] assms(2) show ?thesis by auto
qed

lemma kvaware_choice_sound:
  assumes "distinct (keys (instance_id_to_ip s))" "kvaware_choice s eps li toks = Inr (Some u)"
  shows "u \<in> set (urls_of eps)"
proof -
  obtain d h hs where d: "li = Some d" "live_holders_of eps (instance_id_to_ip s) d = h # hs"
    "map_of (instance_id_to_ip s) (max_by (matched_of d) h hs) = Some u"
    using assms(2) by (auto simp: kvaware_choice_def split: option.splits list.splits if_splits)
  have "max_by (matched_of d) h hs \<in> set (live_holders_of eps (instance_id_to_ip s) d)"
    using max_by_in [of "matched_of d" h hs] d(2) by simp
  from live_holder_url [OF this assms(1)] d(3) show ?thesis by auto
qed

lemma kvaware_rebuild_distinct:
  "distinct (keys m) \<Longrightarrow> kvaware_rebuild env eps m = (r, m') \<Longrightarrow> distinct (keys m')"
  by (induction env eps m rule: kvaware_rebuild.induct) (auto split: sum.splits)

lemma fallback_url_sound:
  assumes "ring_laws R" "fallback_url R s eps stats hs b = (Some u, s')"
  shows "u \<in> set (urls_of eps)"
  using assms(2) qps_routing_in ring_owner_sound [OF assms(1)]
  by (auto simp: fallback_url_def split: option.splits)

lemma fallback_url_total:
  assumes "ring_laws R" "eps \<noteq> []"
  shows "\<exists>u s'. fallback_url R s eps stats hs b = (Some u, s')"
  using qps_routing_total [OF assms(2)] ring_owner_in [OF assms]
  by (fastforce simp: fallback_url_def split: option.split)

text \<open>The bridge keeps distinct ids, and the routers answer with offered endpoints.\<close>

definition kv_ok :: "'r ring_ops \<Rightarrow> ('r, 't, 'm) KvawareRouter_scheme \<Rightarrow> bool" where
  "kv_ok R s \<longleftrightarrow> ring_laws R \<and> distinct (keys (instance_id_to_ip s))"

lemma kvaware_bridge_distinct:
  "distinct (keys m) \<Longrightarrow> kvaware_bridge env eps li m = (r, m') \<Longrightarrow> distinct (keys m')"
  by (auto simp: kvaware_bridge_def kvaware_rebuild_distinct split: option.splits list.splits if_splits)

lemma fallback_url_fields [simp]:
  "instance_id_to_ip (snd (fallback_url R s eps stats hs b)) = instance_id_to_ip s"
  by (simp add: fallback_url_def)

text \<open>The ways a cache-aware request can end, with the state they leave.\<close>

lemma kvaware_route_cases:
  assumes "kvaware_route R env s eps stats hs b = (r, s')" "distinct (keys (instance_id_to_ip s))"
  obtains (raised) x where "r = Inl x" "distinct (keys (instance_id_to_ip s'))"
  | (chosen) li ids u where "r = Inr (Some u)" "kvaware_choice s' eps li ids = Inr (Some u)"
      "distinct (keys (instance_id_to_ip s'))"
  | (fallback) s2 u where "r = Inr u" "fallback_url R s2 eps stats hs b = (u, s')"
      "distinct (keys (instance_id_to_ip s2))"
proof -
  obtain tr toks where t: "tokenize_prompt env (kv_tokenizers s) eps b = (tr, toks)" by fastforce
  show thesis
  proof (cases tr)
    case (Inl x)
    then show thesis using assms t raised by (auto simp: kvaware_route_def)
  next
    case ids: (Inr ids)
    show thesis
    proof (cases "kv_lookup env ids")
      case None
      then show thesis using assms t ids raised by (auto simp: kvaware_route_def)
    next
      case (Some li)
      obtain br m where m: "kvaware_bridge env eps li (instance_id_to_ip s) = (br, m)" by fastforce
      define s2 where "s2 = s\<lparr>kv_tokenizers := toks, instance_id_to_ip := m\<rparr>"
      have d: "distinct (keys (instance_id_to_ip s2))"
        using kvaware_bridge_distinct [OF assms(2) m] by (simp add: s2_def)
      have route: "kvaware_route R env s eps stats hs b = (case br of
          Inl x \<Rightarrow> (Inl x, s2)
        | Inr _ \<Rightarrow> (case kvaware_choice s2 eps li ids of
            Inl x \<Rightarrow> (Inl x, s2)
          | Inr (Some u) \<Rightarrow> (Inr (Some u), s2)
          | Inr None \<Rightarrow> (let (u, s3) = fallback_url R s2 eps stats hs b in (Inr u, s3))))"
        using t ids Some m by (simp add: kvaware_route_def s2_def split: sum.split option.split prod.split)
      show thesis
      proof (cases br)
        case (Inl x)
        then show thesis using assms(1) route d raised by auto
      next
        case br: (Inr v)
        show thesis
        proof (cases "kvaware_choice s2 eps li ids")
          case (Inl x)
          then have "(r, s') = (Inl x, s2)" using assms(1) route br by simp
          then show thesis using raised d by simp
        next
          case (Inr w)
          obtain u s3 where f: "fallback_url R s2 eps stats hs b = (u, s3)" by fastforce
          show thesis
          proof (cases w)
            case None
            then have "(r, s') = (Inr u, s3)" using assms(1) route br Inr f by simp
            then show thesis using fallback [of u s2] f d by simp
          next
            case (Some v)
            then have "(r, s') = (Inr (Some v), s2)" using assms(1) route br Inr by simp
            then show thesis using chosen [of v li ids] Inr Some d by simp
          qed
        qed
      qed
    qed
  qed
qed

lemma kvaware_route_sound:
  assumes "kv_ok R s" "kvaware_route R env s eps stats hs b = (Inr (Some u), s')"
  shows "u \<in> set (urls_of eps)"
proof -
  have d: "distinct (keys (instance_id_to_ip s))" and R: "ring_laws R"
    using assms(1) by (simp_all add: kv_ok_def)
  from assms(2) d show ?thesis
  proof (cases rule: kvaware_route_cases)
    case (chosen li ids v)
    then show ?thesis using kvaware_choice_sound [OF chosen(3,2)] by simp
  next
    case (fallback s2 v)
    then show ?thesis using fallback_url_sound [OF R, of s2] by simp
  qed simp
qed

lemma kvaware_route_some:
  assumes "kv_ok R s" "eps \<noteq> []"
  shows "fst (kvaware_route R env s eps stats hs b) \<noteq> Inr None"
proof -
  obtain r s' where e: "kvaware_route R env s eps stats hs b = (r, s')" by fastforce
  have d: "distinct (keys (instance_id_to_ip s))" and R: "ring_laws R"
    using assms(1) by (simp_all add: kv_ok_def)
  from e d show ?thesis
  proof (cases rule: kvaware_route_cases)
    case (fallback s2 v)
    then show ?thesis using fallback_url_total [OF R assms(2), of s2 stats hs b] e by auto
  qed (simp_all add: e)
qed

lemma kvaware_route_ok:
  assumes "kv_ok R s"
  shows "kv_ok R (snd (kvaware_route R env s eps stats hs b))"
proof -
  obtain r s' where e: "kvaware_route R env s eps stats hs b = (r, s')" by fastforce
  have d: "distinct (keys (instance_id_to_ip s))" and R: "ring_laws R"
    using assms by (simp_all add: kv_ok_def)
  from e d have "distinct (keys (instance_id_to_ip s'))"
  proof (cases rule: kvaware_route_cases)
    case (fallback s2 v)
    then show ?thesis using fallback_url_fields [of R s2 eps stats hs b] by simp
  qed simp_all
  then show ?thesis using R e by (simp add: kv_ok_def)
qed

interpretation kvaware: routing_policy
  "\<lambda>s eps (env, stats, hs, b). kvaware_route R env s eps stats hs b" "\<lambda>s c. kv_ok R s" for R
  by unfold_locales
    (auto simp: case_prod_unfold kvaware_route_some kvaware_route_ok dest: kvaware_route_sound)

text \<open>The same for load-aware requests.\<close>

lemma refresh_writes_distinct:
  "distinct (keys m) \<Longrightarrow> distinct (keys (refresh_writes env eps m))"
proof -
  have "distinct (keys m) \<Longrightarrow> distinct (keys (fold (\<lambda>e m. case loadaware_query_ip (ep_url e) of
      Inl _ \<Rightarrow> m | Inr ip \<Rightarrow> dict_set m (kv_query_inst env ip) (ep_url e)) es m))" for es
    by (induction es arbitrary: m) (auto split: sum.split)
  then show "distinct (keys m) \<Longrightarrow> distinct (keys (refresh_writes env eps m))"
    by (simp add: refresh_writes_def)
qed

lemma refresh_instance_map_distinct:
  "distinct (keys m) \<Longrightarrow> refresh_instance_map env eps li m = (r, m') \<Longrightarrow> distinct (keys m')"
  by (auto simp: refresh_instance_map_def refresh_writes_distinct split: if_splits)

lemma loadaware_route_cases:
  assumes "loadaware_route R env s eps stats hs b = (r, s')" "distinct (keys (instance_id_to_ip s))"
  obtains (raised) x where "r = Inl x" "distinct (keys (instance_id_to_ip s'))"
  | (chosen) li n u where "r = Inr (Some u)" "select_url s' eps stats li n = Some u"
      "distinct (keys (instance_id_to_ip s'))"
  | (fallback) s2 u where "r = Inr u" "fallback_url R s2 eps stats hs b = (u, s')"
      "distinct (keys (instance_id_to_ip s2))" "eps \<noteq> []"
proof (cases "eps = []")
  case True
  then show thesis using assms raised by (auto simp: loadaware_route_def)
next
  case ne: False
  obtain tr toks where t: "tokenize_prompt env (kv_tokenizers s) eps b = (tr, toks)" by fastforce
  show thesis
  proof (cases tr)
    case (Inl x)
    then show thesis using assms t raised ne by (auto simp: loadaware_route_def)
  next
    case ids: (Inr ids)
    define li where "li = (case kv_lookup env ids of Some (Some d) \<Rightarrow> d | _ \<Rightarrow> [])"
    define s1 where "s1 = s\<lparr>kv_tokenizers := toks\<rparr>"
    obtain br m where m: "refresh_instance_map env eps li (instance_id_to_ip s1) = (br, m)" by fastforce
    define s2 where "s2 = s1\<lparr>instance_id_to_ip := m\<rparr>"
    have d: "distinct (keys (instance_id_to_ip s1))" "distinct (keys (instance_id_to_ip s2))"
      using refresh_instance_map_distinct [OF _ m] assms(2) by (simp_all add: s1_def s2_def)
    have route: "loadaware_route R env s eps stats hs b =
        (if li = [] then (let (u, s3) = fallback_url R s1 eps stats hs b in (Inr u, s3))
         else case br of
           Inl x \<Rightarrow> (Inl x, s2)
         | Inr _ \<Rightarrow> (case select_url s2 eps stats li (int (length ids)) of
             Some u \<Rightarrow> (Inr (Some u), s2)
           | None \<Rightarrow> (let (u, s3) = fallback_url R s2 eps stats hs b in (Inr u, s3))))"
      using t ids ne m
      by (simp add: loadaware_route_def li_def [symmetric] s1_def s2_def split: sum.split option.split prod.split)
    obtain u1 t1 where f1: "fallback_url R s1 eps stats hs b = (u1, t1)" by fastforce
    obtain u2 t2 where f2: "fallback_url R s2 eps stats hs b = (u2, t2)" by fastforce
    show thesis
    proof (cases "li = []")
      case True
      then show thesis using assms(1) route d ne f1 fallback [of _ s1] by auto
    next
      case li: False
      show thesis
      proof (cases br)
        case (Inl x)
        then show thesis using assms(1) route d raised li by auto
      next
        case (Inr v)
        then show thesis
          using assms(1) route d ne li f2 chosen [of _ li "int (length ids)"] fallback [of _ s2]
          by (cases "select_url s2 eps stats li (int (length ids))") auto
      qed
    qed
  qed
qed

lemma loadaware_route_sound:
  assumes "kv_ok R s" "loadaware_route R env s eps stats hs b = (Inr (Some u), s')"
  shows "u \<in> set (urls_of eps)"
proof -
  have d: "distinct (keys (instance_id_to_ip s))" and R: "ring_laws R"
    using assms(1) by (simp_all add: kv_ok_def)
  from assms(2) d show ?thesis
  proof (cases rule: loadaware_route_cases)
    case (chosen li n v)
    then show ?thesis using select_loop_in by (fastforce simp: select_url_def)
  next
    case (fallback s2 v)
    then show ?thesis using fallback_url_sound [OF R, of s2] by simp
  qed simp
qed

lemma loadaware_route_some:
  assumes "kv_ok R s" "eps \<noteq> []"
  shows "fst (loadaware_route R env s eps stats hs b) \<noteq> Inr None"
proof -
  obtain r s' where e: "loadaware_route R env s eps stats hs b = (r, s')" by fastforce
  have d: "distinct (keys (instance_id_to_ip s))" and R: "ring_laws R"
    using assms(1) by (simp_all add: kv_ok_def)
  from e d show ?thesis
  proof (cases rule: loadaware_route_cases)
    case (fallback s2 v)
    then show ?thesis using fallback_url_total [OF R assms(2), of s2 stats hs b] e by auto
  qed (simp_all add: e)
qed

lemma loadaware_route_ok:
  assumes "kv_ok R s"
  shows "kv_ok R (snd (loadaware_route R env s eps stats hs b))"
proof -
  obtain r s' where e: "loadaware_route R env s eps stats hs b = (r, s')" by fastforce
  have d: "distinct (keys (instance_id_to_ip s))" and R: "ring_laws R"
    using assms by (simp_all add: kv_ok_def)
  from e d have "distinct (keys (instance_id_to_ip s'))"
  proof (cases rule: loadaware_route_cases)
    case (fallback s2 v)
    then show ?thesis using fallback_url_fields [of R s2 eps stats hs b] by simp
  qed simp_all
  then show ?thesis using R e by (simp add: kv_ok_def)
qed

interpretation loadaware: routing_policy
  "\<lambda>s eps (env, stats, hs, b). loadaware_route R env s eps stats hs b" "\<lambda>s c. kv_ok R s" for R
  by unfold_locales
    (auto simp: case_prod_unfold loadaware_route_some loadaware_route_ok dest: loadaware_route_sound)

lemma sum_list_centred:
  fixes xs :: "('a \<times> int) list"
  assumes "xs \<noteq> []"
  defines "mean \<equiv> real_of_int (sum_list (map snd xs)) / real (length xs)"
  shows "sum_list (map (\<lambda>(u, l). (real_of_int l - mean) / M) xs) = 0"
proof -
  have "sum_list (map (\<lambda>(u, l). (real_of_int l - c) / M) ys) =
      (real_of_int (sum_list (map snd ys)) - real (length ys) * c) / M"
    for c and ys :: "('a \<times> int) list"
    by (induction ys) (auto simp: algebra_simps simp flip: add_divide_distrib)
  then show ?thesis using assms by simp
qed

section \<open>Properties\<close>

text \<open>C20. Load-aware placement is optimal: on a non-empty endpoint list the selected URL is offered,
  its score (cached share of the prompt minus the weighted relative load) is maximal among all
  offered URLs, and among those of maximal score it is the first in alphabetical order.\<close>

theorem loadaware_selects_best:
  assumes "eps \<noteq> []"
  shows "\<exists>u \<in> set (urls_of eps). select_url s eps stats li prompt = Some u \<and>
     (\<forall>v \<in> set (urls_of eps).
        let score = url_score (la_beta s) (matched_tokens_by_url (instance_id_to_ip s) li)
                      (relative_loads stats eps) prompt
        in score v < score u \<or> score v = score u \<and> u \<le> v)"
  using select_url_best [OF assms, of s stats li prompt] by (fastforce simp: order_less_le)

theorem loadaware_selects_best_witness:
  "\<exists>u. select_url (loadaware_init first_ring None None None None None 1 :: (string list, unit) LoadAwareRouter)
     [ep_example ''b'', ep_example ''a''] [] [] 10 = Some u \<and> (u = ''a'' \<or> u = ''b'')"
  using loadaware_selects_best [of "[ep_example ''b'', ep_example ''a'']"
      "loadaware_init first_ring None None None None None 1 :: (string list, unit) LoadAwareRouter" "[]" "[]" 10]
  by auto

text \<open>Relative loads are centred: over the distinct URLs of an endpoint list they sum to zero, so
  the load term of the score only redistributes preference between engines.\<close>

theorem relative_loads_centred: "sum_list (map snd (relative_loads stats eps)) = 0"
proof -
  define loads where
    "loads = fold (\<lambda>e d. dict_set d (ep_url e) (load_penalty stats (ep_url e))) eps []"
  have "relative_loads stats eps = (if loads = [] then []
      else let mean = real_of_int (sum_list (map snd loads)) / real (length loads)
           in map (\<lambda>(u, l). (u, (real_of_int l - mean) / max 1 mean)) loads)"
    by (simp add: relative_loads_def loads_def)
  then show ?thesis
    using sum_list_centred [of loads] by (simp add: comp_def case_prod_unfold)
qed

text \<open>C21. A cache-directed answer is justified: when the cache-aware router answers from the
  controller's layout, the answer is the URL of an instance that the controller reports as a holder
  and that is bridged to an offered endpoint, no other such holder has more matched tokens, and
  the match covers the prompt up to the threshold.\<close>

theorem kvaware_answer_justified:
  assumes "distinct (keys (instance_id_to_ip s))"
    and "kvaware_choice s eps (Some d) toks = Inr (Some u)"
  shows "\<exists>h th. h \<in> set (live_holders_of eps (instance_id_to_ip s) d) \<and>
     map_of (instance_id_to_ip s) h = Some u \<and> u \<in> set (urls_of eps) \<and>
     (\<forall>h' \<in> set (live_holders_of eps (instance_id_to_ip s) d). matched_of d h' \<le> matched_of d h) \<and>
     kv_threshold s = Some th \<and> max (int (length toks) - th) 0 \<le> matched_of d h"
proof -
  obtain h hs th where d: "live_holders_of eps (instance_id_to_ip s) d = h # hs"
    "map_of (instance_id_to_ip s) (max_by (matched_of d) h hs) = Some u"
    "kv_threshold s = Some th" "max (int (length toks) - th) 0 \<le> matched_of d (max_by (matched_of d) h hs)"
    using assms(2) by (auto simp: kvaware_choice_def not_less split: option.splits list.splits if_splits)
  show ?thesis
    using d max_by_in [of "matched_of d" h hs] max_by_max [of _ h hs "matched_of d"]
      kvaware_choice_sound [OF assms]
    by (intro exI [of _ "max_by (matched_of d) h hs"] exI [of _ th]) auto
qed

theorem kvaware_answer_justified_witness:
  "\<exists>h. h \<in> set (live_holders_of [ep_example ''u1'', ep_example ''u2''] [(''i1'', ''u1''), (''i2'', ''u2'')]
           [(''i1'', (''l'', 3)), (''i2'', (''l'', 8))]) \<and>
       map_of [(''i1'', ''u1''), (''i2'', ''u2'')] h = Some ''u2''"
proof -
  let ?s = "(kvaware_init first_ring None None (Some 2) None None :: (string list, unit) KvawareRouter)
    \<lparr>instance_id_to_ip := [(''i1'', ''u1''), (''i2'', ''u2'')]\<rparr>"
  have "kvaware_choice ?s [ep_example ''u1'', ep_example ''u2'']
      (Some [(''i1'', (''l'', 3)), (''i2'', (''l'', 8))]) (replicate 9 0) = Inr (Some ''u2'')"
    by (simp add: kvaware_choice_def live_holders_of_def invert_bridge_def matched_of_def kvaware_init_def)
  from kvaware_answer_justified [OF _ this]
  obtain h where "h \<in> set (live_holders_of [ep_example ''u1'', ep_example ''u2''] (instance_id_to_ip ?s)
      [(''i1'', (''l'', 3)), (''i2'', (''l'', 8))])" "map_of (instance_id_to_ip ?s) h = Some ''u2''"
    by auto
  then show ?thesis by (intro exI [of _ h]) simp
qed

text \<open>A router built without a cache threshold cannot use the cache: as soon as the controller
  names a live holder the request is answered by an exception instead of a route.\<close>

theorem kvaware_without_threshold_raises:
  assumes "kv_threshold s = None" "d \<noteq> []" "live_holders_of eps (instance_id_to_ip s) d \<noteq> []"
  shows "\<exists>x. kvaware_choice s eps (Some d) toks = Inl x"
  using assms by (auto simp: kvaware_choice_def split: list.split)

theorem kvaware_without_threshold_raises_witness:
  "\<exists>x. kvaware_choice ((kvaware_init first_ring None None None None None :: (string list, unit) KvawareRouter)
      \<lparr>instance_id_to_ip := [(''i1'', ''u1'')]\<rparr>) [ep_example ''u1''] (Some [(''i1'', (''l'', 3))]) [1] = Inl x"
  by (rule kvaware_without_threshold_raises)
    (simp_all add: kvaware_init_def live_holders_of_def invert_bridge_def)

end
