(* ===== verification/Failover.thy ===== *)
theory Failover
  imports Attempt Routing_KV Routing_Policies
begin

text \<open>
  The failover loop of \<^verbatim>\<open>route_general_request\<close> in
  \<^verbatim>\<open>src/src/vllm_router/services/request_service/request.py\<close>: attempts against backends chosen by
  a router, where a backend that cannot be reached is excluded from the next choice. The loop is
  written over an arbitrary routing function and its properties are proved from the routing
  contract; the interpretations of that contract then give them for every router.
\<close>

section \<open>The loop\<close>

datatype loop_result =
    LoopStream url RequestHandle bool int headers
  | LoopExhausted backend_exn
  | LoopTimeout url backend_exn
  | LoopRaise py_exn
  | LoopCancelled bool
  | LoopUnbound

text \<open>
  The choice at the head of an iteration. The first iteration uses the URL chosen before the
  loop; a later one chooses among the endpoints that have not failed, or takes the first of
  them when the request names an engine.
\<close>

datatype next_choice = TryUrl url | NoneLeft | ChoiceRaises py_exn

definition next_url ::
  "('s \<Rightarrow> EndpointInfo list \<Rightarrow> 'c \<Rightarrow> url option result \<times> 's) \<Rightarrow> 'c \<Rightarrow> bool \<Rightarrow> EndpointInfo list
     \<Rightarrow> nat \<Rightarrow> url \<Rightarrow> url list \<Rightarrow> 's \<Rightarrow> next_choice \<times> 's" where
  "next_url route c pinned eps attempt server_url error_urls s =
     (if attempt = 0 then (TryUrl server_url, s)
      else let remaining = filter (\<lambda>e. ep_url e \<notin> set error_urls) eps in
        if remaining = [] then (NoneLeft, s)
        else if pinned then (TryUrl (ep_url (hd remaining)), s)
        else (case route s remaining c of
                (Inr (Some u), s') \<Rightarrow> (TryUrl u, s')
              | (Inr None, s') \<Rightarrow> (ChoiceRaises (TypeError ''unsupported operand type(s) for +''), s')
              | (Inl x, s') \<Rightarrow> (ChoiceRaises x, s')))"

text \<open>What an exception before the headers makes of the loop: \<open>None\<close> is another iteration.\<close>

fun on_start_exn :: "url \<Rightarrow> backend_exn \<Rightarrow> loop_result option" where
  "on_start_exn u (Cancelled e) = Some (LoopCancelled e)"
| "on_start_exn u (OtherExn (HTTPException st d)) = Some (LoopRaise (HTTPException st d))"
| "on_start_exn u x =
     (if is_connect_error x then None
      else if is_timeout_error x then Some (LoopTimeout u x)
      else None)"

definition loop_end :: "backend_exn option \<Rightarrow> loop_result" where
  "loop_end last_error = (case last_error of None \<Rightarrow> LoopUnbound | Some e \<Rightarrow> LoopExhausted e)"

text \<open>
  The loop, on the number of iterations left; it also returns the URLs it tried, in order.
  The behaviour of the backend in an iteration may depend on its number and its URL.
\<close>

fun failover ::
  "('s \<Rightarrow> EndpointInfo list \<Rightarrow> 'c \<Rightarrow> url option result \<times> 's) \<Rightarrow> 'c \<Rightarrow> bool \<Rightarrow> EndpointInfo list
     \<Rightarrow> payload \<Rightarrow> string \<Rightarrow> (nat \<Rightarrow> url \<Rightarrow> attempt_env)
     \<Rightarrow> nat \<Rightarrow> nat \<Rightarrow> url \<Rightarrow> url list \<Rightarrow> backend_exn option \<Rightarrow> 's \<Rightarrow> RequestStatsMonitor
     \<Rightarrow> loop_result \<times> url list \<times> 's \<times> RequestStatsMonitor" where
  "failover route c pinned eps body rid env 0 attempt server_url errs last_error s m =
     (loop_end last_error, [], s, m)"
| "failover route c pinned eps body rid env (Suc left) attempt server_url errs last_error s m =
     (case next_url route c pinned eps attempt server_url errs s of
        (NoneLeft, s') \<Rightarrow> (loop_end last_error, [], s', m)
      | (ChoiceRaises x, s') \<Rightarrow> (LoopRaise x, [], s', m)
      | (TryUrl u, s') \<Rightarrow>
         (case attempt_start m body u rid (env attempt u) of
            (Started h is_streaming status hs, m') \<Rightarrow> (LoopStream u h is_streaming status hs, [u], s', m')
          | (StartHttp x, m') \<Rightarrow> (LoopRaise x, [u], s', m')
          | (StartRaised x, m') \<Rightarrow>
             (case on_start_exn u x of
                Some r \<Rightarrow> (r, [u], s', m')
              | None \<Rightarrow>
                 (let (r, tried, s'', m'') =
                        failover route c pinned eps body rid env left (Suc attempt) u (u # errs)
                          (Some x) s' m'
                  in (r, u # tried, s'', m'')))))"

text \<open>\<^verbatim>\<open>max_attempts\<close> iterations; a negative setting gives none.\<close>

definition max_attempts :: "int \<Rightarrow> nat" where
  "max_attempts max_reroutes = nat (max_reroutes + 1)"

section \<open>Facts\<close>

lemma on_start_exn_None: "on_start_exn u x = None \<Longrightarrow> is_connect_error x \<or> \<not> is_timeout_error x"
  by (cases "(u, x)" rule: on_start_exn.cases) auto

text \<open>One iteration: it stops the loop without an attempt, or makes the last attempt, or goes on.\<close>

lemma failover_Suc_cases:
  assumes "failover route c pinned eps body rid env (Suc left) attempt url errs last_error s m =
      (r, tried, s', m')"
  obtains (none) "next_url route c pinned eps attempt url errs s = (NoneLeft, s')"
      "r = loop_end last_error" "tried = []" "m' = m"
  | (raises) x where "next_url route c pinned eps attempt url errs s = (ChoiceRaises x, s')"
      "r = LoopRaise x" "tried = []" "m' = m"
  | (started) u h is_streaming status hs where
      "next_url route c pinned eps attempt url errs s = (TryUrl u, s')"
      "attempt_start m body u rid (env attempt u) = (Started h is_streaming status hs, m')"
      "r = LoopStream u h is_streaming status hs" "tried = [u]"
  | (http) u x where "next_url route c pinned eps attempt url errs s = (TryUrl u, s')"
      "attempt_start m body u rid (env attempt u) = (StartHttp x, m')"
      "r = LoopRaise x" "tried = [u]"
  | (final) u x where "next_url route c pinned eps attempt url errs s = (TryUrl u, s')"
      "attempt_start m body u rid (env attempt u) = (StartRaised x, m')"
      "on_start_exn u x = Some r" "tried = [u]"
  | (again) u s1 x m1 tried' where "next_url route c pinned eps attempt url errs s = (TryUrl u, s1)"
      "attempt_start m body u rid (env attempt u) = (StartRaised x, m1)"
      "on_start_exn u x = None" "tried = u # tried'"
      "failover route c pinned eps body rid env left (Suc attempt) u (u # errs) (Some x) s1 m1 =
         (r, tried', s', m')"
proof -
  obtain ch s1 where ch: "next_url route c pinned eps attempt url errs s = (ch, s1)" by fastforce
  show thesis
  proof (cases ch)
    case NoneLeft
    then show thesis using none assms ch by auto
  next
    case (ChoiceRaises x)
    then show thesis using raises assms ch by auto
  next
    case (TryUrl u)
    obtain sr m1 where a: "attempt_start m body u rid (env attempt u) = (sr, m1)" by fastforce
    show thesis
    proof (cases sr)
      case (Started h is_streaming status hs)
      then show thesis using started assms ch a TryUrl by auto
    next
      case (StartHttp x)
      then show thesis using http assms ch a TryUrl by auto
    next
      case (StartRaised x)
      show thesis
      proof (cases "on_start_exn u x")
        case None
        obtain r2 t2 s2 m2 where rec: "failover route c pinned eps body rid env left (Suc attempt) u
            (u # errs) (Some x) s1 m1 = (r2, t2, s2, m2)" by (metis surj_pair)
        then have "(r, tried, s', m') = (r2, u # t2, s2, m2)"
          using assms ch a TryUrl StartRaised None by simp
        then show thesis using again ch a TryUrl StartRaised None rec by simp
      next
        case (Some r')
        then have "(r, tried, s', m') = (r', [u], s1, m1)"
          using assms ch a TryUrl StartRaised by simp
        then show thesis using final ch a TryUrl StartRaised Some by simp
      qed
    qed
  qed
qed

lemma failover_tried_bound:
  "failover route c pinned eps body rid env left attempt url errs last_error s m = (r, tried, s', m') \<Longrightarrow>
   length tried \<le> left"
proof (induction left arbitrary: attempt url errs last_error s m r tried s' m')
  case (Suc left)
  from Suc.prems show ?case
    by (cases rule: failover_Suc_cases) (auto dest: Suc.IH)
qed simp

text \<open>A started stream belongs to the last backend that was tried.\<close>

lemma failover_stream_tried:
  "failover route c pinned eps body rid env left attempt url errs last_error s m =
     (LoopStream u h str status hs, tried, s', m') \<Longrightarrow> u \<in> set tried"
proof (induction left arbitrary: attempt url errs last_error s m tried s' m')
  case 0
  then show ?case by (auto simp: loop_end_def split: option.splits)
next
  case (Suc left)
  from Suc.prems show ?case
  proof (cases rule: failover_Suc_cases)
    case none
    then show ?thesis by (auto simp: loop_end_def split: option.splits)
  next
    case (final v x)
    then show ?thesis by (cases "(v, x)" rule: on_start_exn.cases) (auto split: if_splits)
  next
    case (again v s1 x m1 tried')
    then show ?thesis using Suc.IH by auto
  qed auto
qed

text \<open>The monitor through the loop: only a started stream leaves an attempt live.\<close>

lemma failover_monitor:
  "failover route c pinned eps body rid env left attempt url errs last_error s m = (r, tried, s', m') \<Longrightarrow>
   rsm_inv m \<Longrightarrow>
   rsm_inv m' \<and>
   (case r of
      LoopStream u h is_streaming status hs \<Rightarrow>
        rsm_live m h = None \<and> rsm_live m' = (rsm_live m)(h \<mapsto> (Prefill, u))
    | _ \<Rightarrow> rsm_live m' = rsm_live m)"
proof (induction left arbitrary: attempt url errs last_error s m r tried s' m')
  case 0
  then show ?case by (auto simp: loop_end_def split: option.split)
next
  case (Suc left)
  from Suc.prems(1) show ?case
  proof (cases rule: failover_Suc_cases)
    case none
    then show ?thesis using Suc.prems(2) by (auto simp: loop_end_def split: option.split)
  next
    case (raises x)
    then show ?thesis using Suc.prems(2) by simp
  next
    case (started u h is_streaming status hs)
    then show ?thesis
      using attempt_start_inv [OF Suc.prems(2) started(2)] attempt_start_live [OF Suc.prems(2) started(2)]
      by simp
  next
    case (http u x)
    then show ?thesis
      using attempt_start_inv [OF Suc.prems(2) http(2)] attempt_start_live [OF Suc.prems(2) http(2)]
      by simp
  next
    case (final u x)
    have "r \<noteq> LoopStream v h a st hs" for v h a st hs
      using final(3) by (cases "(u, x)" rule: on_start_exn.cases) (auto split: if_splits)
    then show ?thesis
      using attempt_start_inv [OF Suc.prems(2) final(2)] attempt_start_live [OF Suc.prems(2) final(2)]
      by (simp split: loop_result.split)
  next
    case (again u s1 x m1 tried')
    have "rsm_inv m1" "rsm_live m1 = rsm_live m"
      using attempt_start_inv [OF Suc.prems(2) again(2)] attempt_start_live [OF Suc.prems(2) again(2)]
      by simp_all
    then show ?thesis using Suc.IH [OF again(5)] by (simp split: loop_result.splits)
  qed
qed

section \<open>What the loop promises for any router\<close>

context routing_policy
begin

text \<open>A choice after the first is an endpoint that has not failed.\<close>

lemma next_url_fresh:
  assumes "invar s c" "next_url route c pinned eps attempt url errs s = (TryUrl u, s')" "attempt \<noteq> 0"
  shows "u \<in> set (urls_of eps) \<and> u \<notin> set errs"
proof -
  let ?rem = "filter (\<lambda>e. ep_url e \<notin> set errs) eps"
  have ne: "?rem \<noteq> []" using assms(2,3) by (auto simp: next_url_def split: if_splits)
  show ?thesis
  proof (cases pinned)
    case True
    then have "u = ep_url (hd ?rem)" using assms(2,3) ne by (simp add: next_url_def)
    then show ?thesis using hd_in_set [OF ne] by auto
  next
    case False
    then have "route s ?rem c = (Inr (Some u), s')"
      using assms(2,3) ne by (auto simp: next_url_def split: prod.splits sum.splits option.splits)
    from route_avoids [OF assms(1) this] show ?thesis .
  qed
qed

lemma next_url_invar:
  "invar s c \<Longrightarrow> next_url route c pinned eps attempt url errs s = (ch, s') \<Longrightarrow> invar s' c"
  using route_invar [of s c "filter (\<lambda>e. ep_url e \<notin> set errs) eps"]
  by (auto simp: next_url_def split: if_splits prod.splits sum.splits option.splits)

lemma failover_invar:
  "failover route c pinned eps body rid env left attempt url errs last_error s m = (r, tried, s', m') \<Longrightarrow>
   invar s c \<Longrightarrow> invar s' c"
proof (induction left arbitrary: attempt url errs last_error s m r tried s' m')
  case (Suc left)
  from Suc.prems(1) show ?case
  proof (cases rule: failover_Suc_cases)
    case (again u s1 x m1 tried')
    then show ?thesis using Suc.IH [OF again(5)] next_url_invar [OF Suc.prems(2) again(1)] by simp
  qed (use next_url_invar [OF Suc.prems(2)] in auto)
qed simp

text \<open>No backend is tried twice, and all that are tried were offered.\<close>

lemma failover_no_repeat:
  "failover route c pinned eps body rid env left attempt url errs last_error s m = (r, tried, s', m') \<Longrightarrow>
   invar s c \<Longrightarrow> (attempt = 0 \<Longrightarrow> errs = [] \<and> url \<in> set (urls_of eps)) \<Longrightarrow>
   distinct tried \<and> set tried \<subseteq> set (urls_of eps) \<and> set tried \<inter> set errs = {}"
proof (induction left arbitrary: attempt url errs last_error s m r tried s' m')
  case (Suc left)
  have fresh: "u \<in> set (urls_of eps) \<and> u \<notin> set errs"
    if "next_url route c pinned eps attempt url errs s = (TryUrl u, s1)" for u s1
    using next_url_fresh [OF Suc.prems(2) that] that Suc.prems(3)
    by (cases "attempt = 0") (auto simp: next_url_def)
  from Suc.prems(1) show ?case
  proof (cases rule: failover_Suc_cases)
    case (again u s1 x m1 tried')
    then show ?thesis
      using Suc.IH [OF again(5)] next_url_invar [OF Suc.prems(2) again(1)] fresh [OF again(1)] by auto
  qed (use fresh in auto)
qed simp

text \<open>
  Giving up is justified: when the loop ends with the last error, it made all its attempts or
  no offered backend is left.
\<close>

lemma failover_exhausts:
  "failover route c pinned eps body rid env left attempt url errs last_error s m = (r, tried, s', m') \<Longrightarrow>
   r = LoopExhausted e \<Longrightarrow>
   length tried = left \<or> set (urls_of eps) \<subseteq> set errs \<union> set tried"
proof (induction left arbitrary: attempt url errs last_error s m r tried s' m')
  case (Suc left)
  from Suc.prems(1) show ?case
  proof (cases rule: failover_Suc_cases)
    case none
    then show ?thesis
      by (auto simp: next_url_def filter_empty_conv split: if_splits prod.splits sum.splits option.splits)
  next
    case (final u x)
    then show ?thesis
      using Suc.prems(2) by (cases "(u, x)" rule: on_start_exn.cases) (auto split: if_splits)
  next
    case (again u s1 x m1 tried')
    then show ?thesis using Suc.IH [OF again(5) Suc.prems(2)] by auto
  qed (use Suc.prems(2) in auto)
qed simp

end

end
