(* ===== verification/Routers.thy ===== *)
theory Routers
  imports Failover
begin

text \<open>
  The router registry of \<^verbatim>\<open>src/src/vllm_router/routers/routing_logic.py\<close>: the routing logics, the
  singleton instances kept by \<^verbatim>\<open>SingletonABCMeta\<close> of \<^verbatim>\<open>src/src/vllm_router/utils.py\<close>, and their
  initialization, lookup and reconfiguration; and one routing function for whichever router is
  installed, which keeps the routing contract.
\<close>

section \<open>Routing logics and instances\<close>

datatype RoutingLogic =
    ROUND_ROBIN | SESSION_BASED | KVAWARE | LOADAWARE | PREFIXAWARE
  | DISAGGREGATED_PREFILL | DISAGGREGATED_PREFILL_ORCHESTRATED | PRIORITY

text \<open>The values of the enumeration, as they appear in configuration.\<close>

fun logic_value :: "RoutingLogic \<Rightarrow> string" where
  "logic_value ROUND_ROBIN = ''roundrobin''"
| "logic_value SESSION_BASED = ''session''"
| "logic_value KVAWARE = ''kvaware''"
| "logic_value LOADAWARE = ''loadaware''"
| "logic_value PREFIXAWARE = ''prefixaware''"
| "logic_value DISAGGREGATED_PREFILL = ''disaggregated_prefill''"
| "logic_value DISAGGREGATED_PREFILL_ORCHESTRATED = ''disaggregated_prefill_orchestrated''"
| "logic_value PRIORITY = ''priority''"

definition all_logics :: "RoutingLogic list" where
  "all_logics = [ROUND_ROBIN, SESSION_BASED, KVAWARE, LOADAWARE, PREFIXAWARE,
     DISAGGREGATED_PREFILL, DISAGGREGATED_PREFILL_ORCHESTRATED, PRIORITY]"

text \<open>\<^verbatim>\<open>RoutingLogic(value)\<close>.\<close>

definition logic_of_value :: "string \<Rightarrow> RoutingLogic option" where
  "logic_of_value v = find (\<lambda>l. logic_value l = v) all_logics"

datatype ('r, 't) router =
    RoundRobin RoundRobinRouter
  | Session "'r SessionRouter"
  | Kvaware "('r, 't) KvawareRouter"
  | LoadAware "('r, 't) LoadAwareRouter"
  | PrefixAware PrefixAwareRouter
  | Disagg DisaggregatedPrefillRouter
  | Orchestrated OrchestratedRouter
  | Priority PriorityRouter

fun logic_of_router :: "('r, 't) router \<Rightarrow> RoutingLogic" where
  "logic_of_router (RoundRobin _) = ROUND_ROBIN"
| "logic_of_router (Session _) = SESSION_BASED"
| "logic_of_router (Kvaware _) = KVAWARE"
| "logic_of_router (LoadAware _) = LOADAWARE"
| "logic_of_router (PrefixAware _) = PREFIXAWARE"
| "logic_of_router (Disagg _) = DISAGGREGATED_PREFILL"
| "logic_of_router (Orchestrated _) = DISAGGREGATED_PREFILL_ORCHESTRATED"
| "logic_of_router (Priority _) = PRIORITY"

text \<open>
  An instance with the attribute \<^verbatim>\<open>max_instance_failover_reroute_attempts\<close>, which is set
  after construction and not at all on the orchestrated router.
\<close>

record ('r, 't) router_instance =
  ri_router :: "('r, 't) router"
  ri_max_reroutes :: "int option"

text \<open>The keyword arguments; \<open>None\<close> is an absent keyword or the value \<^verbatim>\<open>None\<close>.\<close>

record routing_kwargs =
  kw_session_key :: "string option"
  kw_lmcache_controller_port :: "int option"
  kw_lmcache_controller_reply_port :: "int option"
  kw_lmcache_controller_heartbeat_port :: "int option"
  kw_kv_aware_threshold :: "int option"
  kw_loadaware_beta :: "real option"
  kw_prefix_min_match_length :: "int option"
  kw_prefill_model_labels :: labels
  kw_decode_model_labels :: labels
  kw_priority_header :: "string option"
  kw_priority_field :: "string option"
  kw_priority_default :: "int option"
  kw_priority_threshold :: "int option"
  kw_max_reroutes :: "int option"

definition opt_default :: "'a option \<Rightarrow> 'a \<Rightarrow> 'a" where
  "opt_default x d = (case x of None \<Rightarrow> d | Some y \<Rightarrow> y)"

text \<open>The constructor calls of \<^verbatim>\<open>initialize_routing_logic\<close>.\<close>

fun construct_router ::
  "'r ring_ops \<Rightarrow> (string \<Rightarrow> real option) \<Rightarrow> string option \<Rightarrow> RoutingLogic \<Rightarrow> routing_kwargs
     \<Rightarrow> ('r, 't) router result" where
  "construct_router R parse_float beta_env ROUND_ROBIN kw = Inr (RoundRobin rr_init)"
| "construct_router R parse_float beta_env SESSION_BASED kw =
     result_bind (session_init R (kw_session_key kw)) (\<lambda>s. Inr (Session s))"
| "construct_router R parse_float beta_env KVAWARE kw =
     Inr (Kvaware (kvaware_init R (kw_lmcache_controller_port kw) (kw_session_key kw)
       (kw_kv_aware_threshold kw) (kw_lmcache_controller_reply_port kw)
       (kw_lmcache_controller_heartbeat_port kw)))"
| "construct_router R parse_float beta_env LOADAWARE kw =
     Inr (LoadAware (loadaware_init R (kw_lmcache_controller_port kw) (kw_session_key kw)
       (kw_kv_aware_threshold kw) (kw_lmcache_controller_reply_port kw)
       (kw_lmcache_controller_heartbeat_port kw)
       (loadaware_beta parse_float beta_env (kw_loadaware_beta kw))))"
| "construct_router R parse_float beta_env PREFIXAWARE kw =
     Inr (PrefixAware (prefixaware_init (opt_default (kw_prefix_min_match_length kw) 0)))"
| "construct_router R parse_float beta_env DISAGGREGATED_PREFILL kw =
     Inr (Disagg \<lparr>dp_prefill_labels = kw_prefill_model_labels kw,
                  dp_decode_labels = kw_decode_model_labels kw\<rparr>)"
| "construct_router R parse_float beta_env DISAGGREGATED_PREFILL_ORCHESTRATED kw =
     Inr (Orchestrated (orchestrated_init (kw_prefill_model_labels kw) (kw_decode_model_labels kw)))"
| "construct_router R parse_float beta_env PRIORITY kw =
     Inr (Priority (priority_init (opt_default (kw_priority_header kw) ''x-request-priority'')
       (opt_default (kw_priority_field kw) ''priority'') (opt_default (kw_priority_default kw) 0)
       (kw_priority_threshold kw)))"

section \<open>The registry\<close>

type_synonym ('r, 't) registry = "(RoutingLogic, ('r, 't) router_instance) dict"

text \<open>
  Calling a class of the registry: an existing instance is returned as it is, whatever the
  arguments; a constructor that raises registers nothing.
\<close>

definition singleton_call ::
  "('r, 't) registry \<Rightarrow> RoutingLogic \<Rightarrow> ('r, 't) router result
     \<Rightarrow> ('r, 't) router_instance result \<times> ('r, 't) registry" where
  "singleton_call reg l new = (case map_of reg l of
     Some inst \<Rightarrow> (Inr inst, reg)
   | None \<Rightarrow> (case new of
       Inl x \<Rightarrow> (Inl x, reg)
     | Inr r \<Rightarrow> (let inst = \<lparr>ri_router = r, ri_max_reroutes = None\<rparr>
                 in (Inr inst, dict_set reg l inst))))"

definition initialize_routing_logic ::
  "'r ring_ops \<Rightarrow> (string \<Rightarrow> real option) \<Rightarrow> string option \<Rightarrow> ('r, 't) registry \<Rightarrow> RoutingLogic
     \<Rightarrow> routing_kwargs \<Rightarrow> ('r, 't) router_instance result \<times> ('r, 't) registry" where
  "initialize_routing_logic R parse_float beta_env reg l kw =
     (case singleton_call reg l (construct_router R parse_float beta_env l kw) of
        (Inl x, reg') \<Rightarrow> (Inl x, reg')
      | (Inr inst, reg') \<Rightarrow>
          if l = DISAGGREGATED_PREFILL_ORCHESTRATED then (Inr inst, reg')
          else let inst' = inst\<lparr>ri_max_reroutes := Some (opt_default (kw_max_reroutes kw) 0)\<rparr>
               in (Inr inst', dict_set reg' l inst'))"

text \<open>The order in which the lookup and the cleanup visit the classes.\<close>

definition lookup_order :: "RoutingLogic list" where
  "lookup_order = [SESSION_BASED, ROUND_ROBIN, KVAWARE, LOADAWARE, PREFIXAWARE,
     DISAGGREGATED_PREFILL, DISAGGREGATED_PREFILL_ORCHESTRATED, PRIORITY]"

definition get_routing_logic :: "('r, 't) registry \<Rightarrow> ('r, 't) router_instance result" where
  "get_routing_logic reg = (case find (\<lambda>l. map_of reg l \<noteq> None) lookup_order of
     None \<Rightarrow> Inl (ValueError ''The global router has not been initialized'')
   | Some l \<Rightarrow> Inr (the (map_of reg l)))"

definition cleanup_routing_logic :: "('r, 't) registry \<Rightarrow> ('r, 't) registry" where
  "cleanup_routing_logic reg =
     fold (\<lambda>l reg. if map_of reg l \<noteq> None then dict_pop reg l else reg) lookup_order reg"

definition reconfigure_routing_logic ::
  "'r ring_ops \<Rightarrow> (string \<Rightarrow> real option) \<Rightarrow> string option \<Rightarrow> ('r, 't) registry \<Rightarrow> RoutingLogic
     \<Rightarrow> routing_kwargs \<Rightarrow> ('r, 't) router_instance result \<times> ('r, 't) registry" where
  "reconfigure_routing_logic R parse_float beta_env reg l kw =
     initialize_routing_logic R parse_float beta_env (cleanup_routing_logic reg) l kw"

section \<open>Routing with the installed router\<close>

type_synonym 't route_ctx = "'t kv_env \<times> request_stats \<times> headers \<times> body"

definition lift_router :: "('s \<Rightarrow> ('r, 't) router) \<Rightarrow> 'a \<times> 's \<Rightarrow> 'a \<times> ('r, 't) router" where
  "lift_router f p = (fst p, f (snd p))"

fun router_route ::
  "'r ring_ops \<Rightarrow> (string \<Rightarrow> int) \<Rightarrow> (url set \<Rightarrow> url) \<Rightarrow> ('r, 't) router \<Rightarrow> EndpointInfo list
     \<Rightarrow> 't route_ctx \<Rightarrow> url option result \<times> ('r, 't) router" where
  "router_route R xxh pick (RoundRobin s) eps (env, stats, hs, b) =
     lift_router RoundRobin (rr_route s eps)"
| "router_route R xxh pick (Session s) eps (env, stats, hs, b) =
     lift_router Session (session_route R s eps stats hs b)"
| "router_route R xxh pick (Kvaware s) eps (env, stats, hs, b) =
     lift_router Kvaware (kvaware_route R env s eps stats hs b)"
| "router_route R xxh pick (LoadAware s) eps (env, stats, hs, b) =
     lift_router LoadAware (loadaware_route R env s eps stats hs b)"
| "router_route R xxh pick (PrefixAware s) eps (env, stats, hs, b) =
     lift_router PrefixAware (prefixaware_route xxh pick s eps stats b)"
| "router_route R xxh pick (Disagg s) eps (env, stats, hs, b) = (disagg_route s eps b, Disagg s)"
| "router_route R xxh pick (Orchestrated s) eps (env, stats, hs, b) =
     (orchestrated_route s eps, Orchestrated s)"
| "router_route R xxh pick (Priority s) eps (env, stats, hs, b) =
     lift_router Priority (priority_route_url s eps (stats, hs, b))"

text \<open>The invariant of the installed router.\<close>

fun router_ok :: "'r ring_ops \<Rightarrow> (url set \<Rightarrow> url) \<Rightarrow> ('r, 't) router \<Rightarrow> bool" where
  "router_ok R pick (RoundRobin s) = rr_ok s"
| "router_ok R pick (Session s) = ring_laws R"
| "router_ok R pick (Kvaware s) = kv_ok R s"
| "router_ok R pick (LoadAware s) = kv_ok R s"
| "router_ok R pick (PrefixAware s) = (pick_laws pick \<and> trie_ok (pa_hashtrie s))"
| "router_ok R pick (Disagg s) = True"
| "router_ok R pick (Orchestrated s) = True"
| "router_ok R pick (Priority s) = pr_ok s"

section \<open>Facts\<close>

lemma lift_router_eq: "lift_router f p = (r, s) \<longleftrightarrow> (\<exists>s'. p = (r, s') \<and> s = f s')"
  by (cases p) (auto simp: lift_router_def)

lemma lift_router_simps [simp]: "fst (lift_router f p) = fst p" "snd (lift_router f p) = f (snd p)"
  by (simp_all add: lift_router_def)

lemma router_route_sound:
  assumes "router_ok R pick s" "router_route R xxh pick s eps c = (Inr (Some u), s')"
  shows "u \<in> set (urls_of eps)"
proof -
  obtain env stats hs b where c: "c = (env, stats, hs, b)" by (metis surj_pair)
  show ?thesis
  proof (cases s)
    case (RoundRobin x)
    then show ?thesis using assms round_robin.route_sound [of x eps u] by (auto simp: c lift_router_eq)
  next
    case (Session x)
    then show ?thesis
      using assms session.route_sound [of R x eps "(stats, hs, b)" u] by (auto simp: c lift_router_eq)
  next
    case (Kvaware x)
    then show ?thesis using assms kvaware_route_sound by (fastforce simp: c lift_router_eq)
  next
    case (LoadAware x)
    then show ?thesis using assms loadaware_route_sound by (fastforce simp: c lift_router_eq)
  next
    case (PrefixAware x)
    then show ?thesis using assms prefixaware_route_effect by (fastforce simp: c lift_router_eq)
  next
    case (Disagg x)
    then show ?thesis using assms disagg_route_sound by (auto simp: c)
  next
    case (Orchestrated x)
    then show ?thesis using assms orchestrated_route_sound by (auto simp: c)
  next
    case (Priority x)
    then show ?thesis
      using assms priority.route_sound [of x eps "(stats, hs, b)" u] by (auto simp: c lift_router_eq)
  qed
qed

lemma prefixaware_route_some:
  assumes "pick_laws pick" "trie_ok (pa_hashtrie s)" "eps \<noteq> []"
  shows "fst (prefixaware_route xxh pick s eps stats b) \<noteq> Inr None"
proof (cases "prompt_of_body b")
  case (Inl x)
  then show ?thesis by (simp add: prefixaware_route_def)
next
  case (Inr p)
  then show ?thesis using prefixaware_route_total [OF assms(1,2) Inr assms(3), of xxh stats] by auto
qed

lemma router_route_some:
  assumes "router_ok R pick s" "eps \<noteq> []"
  shows "fst (router_route R xxh pick s eps c) \<noteq> Inr None"
proof -
  obtain env stats hs b where c: "c = (env, stats, hs, b)" by (metis surj_pair)
  show ?thesis
  proof (cases s)
    case (RoundRobin x)
    then show ?thesis using assms round_robin.route_some [of x eps] by (simp add: c)
  next
    case (Session x)
    then show ?thesis using assms session.route_some [of R eps x "(stats, hs, b)"] by (simp add: c)
  next
    case (Disagg x)
    then show ?thesis using assms disagg.route_some [of eps x b] by (simp add: c)
  next
    case (Orchestrated x)
    then show ?thesis using assms orchestrated.route_some [of eps x] by (simp add: c)
  next
    case (Priority x)
    then show ?thesis using assms priority.route_some [of x eps "(stats, hs, b)"] by (simp add: c)
  qed (use assms in \<open>simp_all add: c kvaware_route_some loadaware_route_some prefixaware_route_some\<close>)
qed

lemma router_route_ok:
  assumes "router_ok R pick s"
  shows "router_ok R pick (snd (router_route R xxh pick s eps c))"
proof -
  obtain env stats hs b where c: "c = (env, stats, hs, b)" by (metis surj_pair)
  show ?thesis
    using assms priority.route_invar
    by (cases s) (simp_all add: c rr_route_ok kvaware_route_ok loadaware_route_ok prefixaware_route_ok)
qed

interpretation any_router: routing_policy "router_route R xxh pick" "\<lambda>s c. router_ok R pick s" for R xxh pick
  by unfold_locales (auto dest: router_route_sound simp: router_route_some router_route_ok)

text \<open>Every freshly constructed router satisfies its invariant.\<close>

lemma construct_router_ok:
  assumes "construct_router R parse_float beta_env l kw = Inr r" "ring_laws R" "pick_laws pick"
  shows "router_ok R pick r"
  using assms
  by (cases l) (auto simp: rr_ok_init kv_ok_def kvaware_init_def loadaware_init_def
      KvawareRouter.defs LoadAwareRouter.defs prefixaware_init_def trie_ok_def hash_trie_init_def
      default_chunk_size_def downward_init priority_init_def pr_ok_def)

lemma construct_router_logic: "construct_router R parse_float beta_env l kw = Inr r \<Longrightarrow> logic_of_router r = l"
  by (cases l) auto

lemma logic_of_value_value: "logic_of_value (logic_value l) = Some l"
  by (cases l) (simp_all add: logic_of_value_def all_logics_def)

text \<open>The cleanup visits every class, so it leaves an empty registry.\<close>

lemma cleanup_fold:
  "map_of (fold (\<lambda>l reg. if map_of reg l \<noteq> None then dict_pop reg l else reg) ls reg) k =
     (if k \<in> set ls then None else map_of reg k)"
  by (induction ls arbitrary: reg) auto

lemma cleanup_routing_logic_empty: "cleanup_routing_logic reg = []"
proof -
  have "map_of (cleanup_routing_logic reg) k = None" for k
    unfolding cleanup_routing_logic_def cleanup_fold by (cases k) (simp_all add: lookup_order_def)
  then show ?thesis by (metis list.exhaust map_of_eq_None_iff list.set_intros(1) image_eqI)
qed

lemma get_routing_logic_single: "get_routing_logic [(l, inst)] = Inr inst"
  by (cases l) (simp_all add: get_routing_logic_def lookup_order_def)

section \<open>Which attempts go on\<close>

text \<open>Every attempt but the last ended in a failure that the loop may retry.\<close>

lemma failover_retries:
  "failover route c pinned eps body rid env left attempt url errs last_error s m = (r, tried, s', m') \<Longrightarrow>
   json_loads body = Some (JObj d) \<Longrightarrow> Suc i < length tried \<Longrightarrow>
   \<exists>x. ae_entry (env (attempt + i) (tried ! i)) = EntryRaises x \<and> on_start_exn (tried ! i) x = None"
proof (induction left arbitrary: attempt url errs last_error s m r tried s' m' i)
  case (Suc left)
  from Suc.prems(1) show ?case
  proof (cases rule: failover_Suc_cases)
    case (again u s1 x m1 tried')
    show ?thesis
    proof (cases i)
      case 0
      have "ae_entry (env attempt u) = EntryRaises x"
        using again(2) Suc.prems(2) by (auto simp: attempt_start_def split: entry.splits prod.splits)
      then show ?thesis using again(3,4) 0 by simp
    next
      case (Suc j)
      then show ?thesis using Suc.IH [OF again(5) Suc.prems(2), of j] Suc.prems(3) again(4) by simp
    qed
  qed (use Suc.prems(3) in auto)
qed simp

section \<open>Properties\<close>

text \<open>A cache controller that knows nothing, for the witnesses.\<close>

definition kv_example :: "unit kv_env" where
  "kv_example = \<lparr>kv_load_tokenizer = (\<lambda>m. Inr ()), kv_encode = (\<lambda>t p. Inr []),
     kv_remote_tokenize = (\<lambda>u m p. Inr []), kv_lookup = (\<lambda>toks. None),
     kv_query_inst = (\<lambda>ip. ip), kv_gather = (\<lambda>eps. eps)\<rparr>"

text \<open>C10. Failover is bounded and never hopeless: with any installed router, the loop tries pairwise
  different backends, all of them offered, at most one more than the configured number of
  reroutes; and it gives up with a connection error only after using all its attempts or after
  trying every offered backend.\<close>

theorem failover_tries_backends_once:
  assumes "router_ok R pick s" "url \<in> set (urls_of eps)"
    and "failover (router_route R xxh pick) c pinned eps body rid env (max_attempts k) 0 url [] None s m =
           (r, tried, s', m')"
  shows "distinct tried \<and> set tried \<subseteq> set (urls_of eps) \<and> length tried \<le> nat (k + 1) \<and>
     (\<forall>e. r = LoopExhausted e \<longrightarrow>
        length tried = nat (k + 1) \<or> set (urls_of eps) \<subseteq> set tried)"
  using any_router.failover_no_repeat [OF assms(3)] any_router.failover_exhausts [OF assms(3)]
    failover_tried_bound [OF assms(3)] assms(1,2)
  by (auto simp: max_attempts_def)

theorem failover_tries_backends_once_witness:
  "\<exists>r tried s' m'. failover (router_route first_ring (\<lambda>s. 0) Min)
      (kv_example, [], [], []) False [ep_example ''a'', ep_example ''b''] (JsonText (JObj [])) ''id''
      (\<lambda>n u. \<lparr>ae_start_time = 1, ae_fail_time = 2, ae_entry = EntryRaises ConnError\<rparr>)
      (max_attempts 1) 0 ''a'' [] None (RoundRobin rr_init :: (string list, unit) router) (rsm_start 10) =
        (r, tried, s', m') \<and> distinct tried \<and> length tried \<le> 2"
proof -
  obtain r tried s' m' where f: "failover (router_route first_ring (\<lambda>s. 0) Min)
      (kv_example, [], [], []) False [ep_example ''a'', ep_example ''b''] (JsonText (JObj [])) ''id''
      (\<lambda>n u. \<lparr>ae_start_time = 1, ae_fail_time = 2, ae_entry = EntryRaises ConnError\<rparr>)
      (max_attempts 1) 0 ''a'' [] None (RoundRobin rr_init :: (string list, unit) router) (rsm_start 10) =
        (r, tried, s', m')" by (metis surj_pair)
  show ?thesis using failover_tries_backends_once [OF _ _ f] f by (simp add: rr_ok_init)
qed

text \<open>C11. Failover keeps the books: whatever happens in the loop, the monitor's invariant holds after it,
  and the live attempts are those before it, plus the one attempt whose stream was started, on the
  backend that answered, when there is one.\<close>

theorem failover_keeps_accounting:
  assumes "rsm_inv m"
    and "failover (router_route R xxh pick) c pinned eps body rid env n 0 url [] None s m = (r, tried, s', m')"
  shows "rsm_inv m' \<and>
    (case r of
       LoopStream u h is_streaming status hs \<Rightarrow>
         rsm_live m h = None \<and> rsm_live m' = (rsm_live m)(h \<mapsto> (Prefill, u))
     | _ \<Rightarrow> rsm_live m' = rsm_live m)"
  using failover_monitor [OF assms(2,1)] .

theorem failover_keeps_accounting_witness:
  "\<exists>r tried s' m'. failover (router_route first_ring (\<lambda>s. 0) Min)
      (kv_example, [], [], []) False [ep_example ''a''] (JsonText (JObj [])) ''id''
      (\<lambda>n u. \<lparr>ae_start_time = 1, ae_fail_time = 2, ae_entry = EntryRaises ConnError\<rparr>)
      1 0 ''a'' [] None (RoundRobin rr_init :: (string list, unit) router) (rsm_start 10) =
        (r, tried, s', m') \<and> rsm_inv m'"
proof -
  obtain r tried s' m' where f: "failover (router_route first_ring (\<lambda>s. 0) Min)
      (kv_example, [], [], []) False [ep_example ''a''] (JsonText (JObj [])) ''id''
      (\<lambda>n u. \<lparr>ae_start_time = 1, ae_fail_time = 2, ae_entry = EntryRaises ConnError\<rparr>)
      1 0 ''a'' [] None (RoundRobin rr_init :: (string list, unit) router) (rsm_start 10) =
        (r, tried, s', m')" by (metis surj_pair)
  show ?thesis using failover_keeps_accounting [OF rsm_inv_start f] f by simp
qed

text \<open>C22. A read or entry timeout is never retried: of the attempts the loop makes on a JSON request, only
  the last one can have ended with a timeout after the connection was established.\<close>

theorem timeouts_are_not_retried:
  assumes "failover (router_route R xxh pick) c pinned eps (JsonText (JObj d)) rid env n 0 url [] None s m =
      (r, tried, s', m')"
    and "i < length tried" "ae_entry (env i (tried ! i)) = EntryRaises x"
    and "is_timeout_error x" "\<not> is_connect_error x"
  shows "Suc i = length tried"
proof (rule ccontr)
  assume "Suc i \<noteq> length tried"
  then have "Suc i < length tried" using assms(2) by simp
  then have "on_start_exn (tried ! i) x = None"
    using failover_retries [OF assms(1), of d i] assms(3) by auto
  from on_start_exn_None [OF this] show False using assms(4,5) by simp
qed

theorem timeouts_are_not_retried_witness:
  "\<exists>u r s' m'. failover (router_route first_ring (\<lambda>s. 0) Min)
      (kv_example, [], [], []) False [ep_example ''a'', ep_example ''b''] (JsonText (JObj [])) ''id''
      (\<lambda>n u. \<lparr>ae_start_time = 1, ae_fail_time = 2, ae_entry = EntryRaises ReadTimeout\<rparr>)
      3 0 ''a'' [] None (RoundRobin rr_init :: (string list, unit) router) (rsm_start 10) =
        (r, [u], s', m')"
proof -
  let ?env = "\<lambda>n u. \<lparr>ae_start_time = 1, ae_fail_time = 2, ae_entry = EntryRaises ReadTimeout\<rparr>"
  obtain r tried s' m' where f: "failover (router_route first_ring (\<lambda>s. 0) Min)
      (kv_example, [], [], []) False [ep_example ''a'', ep_example ''b''] (JsonText (JObj [])) ''id''
      ?env 3 0 ''a'' [] None (RoundRobin rr_init :: (string list, unit) router) (rsm_start 10) =
        (r, tried, s', m')" by (metis surj_pair)
  have "tried \<noteq> []"
    using f by (auto simp: eval_nat_numeral next_url_def attempt_start_def split: prod.splits)
  then have "Suc 0 = length tried" using timeouts_are_not_retried [OF f, of 0 ReadTimeout] by simp
  then show ?thesis using f by (cases tried) auto
qed

text \<open>Reconfiguration installs exactly the requested router: after it succeeds, the registry holds one
  instance, of the requested class, freshly constructed from the new arguments, and the lookup
  returns it; no state of the router it replaces survives.\<close>

theorem reconfigure_installs_router:
  assumes "reconfigure_routing_logic R parse_float beta_env reg l kw = (Inr inst, reg')"
  shows "get_routing_logic reg' = Inr inst \<and> keys reg' = [l] \<and>
    construct_router R parse_float beta_env l kw = Inr (ri_router inst) \<and>
    logic_of_router (ri_router inst) = l"
  using assms
  by (auto simp: reconfigure_routing_logic_def initialize_routing_logic_def cleanup_routing_logic_empty
      singleton_call_def get_routing_logic_single construct_router_logic split: sum.splits if_splits)

theorem reconfigure_installs_router_witness:
  "\<exists>inst reg'. reconfigure_routing_logic first_ring (\<lambda>s. None) None
      [(ROUND_ROBIN, \<lparr>ri_router = RoundRobin rr_init, ri_max_reroutes = Some 2\<rparr>)] PREFIXAWARE
      \<lparr>kw_session_key = None, kw_lmcache_controller_port = None, kw_lmcache_controller_reply_port = None,
       kw_lmcache_controller_heartbeat_port = None, kw_kv_aware_threshold = None, kw_loadaware_beta = None,
       kw_prefix_min_match_length = Some 3, kw_prefill_model_labels = NoLabels,
       kw_decode_model_labels = NoLabels, kw_priority_header = None, kw_priority_field = None,
       kw_priority_default = None, kw_priority_threshold = None, kw_max_reroutes = None\<rparr> =
      (Inr (inst :: (string list, unit) router_instance), reg') \<and> get_routing_logic reg' = Inr inst"
proof -
  let ?kw = "\<lparr>kw_session_key = None, kw_lmcache_controller_port = None, kw_lmcache_controller_reply_port = None,
       kw_lmcache_controller_heartbeat_port = None, kw_kv_aware_threshold = None, kw_loadaware_beta = None,
       kw_prefix_min_match_length = Some 3, kw_prefill_model_labels = NoLabels,
       kw_decode_model_labels = NoLabels, kw_priority_header = None, kw_priority_field = None,
       kw_priority_default = None, kw_priority_threshold = None, kw_max_reroutes = None\<rparr>"
  let ?reg = "[(ROUND_ROBIN, \<lparr>ri_router = RoundRobin rr_init, ri_max_reroutes = Some 2\<rparr>)]
     :: (string list, unit) registry"
  obtain inst reg' where e: "reconfigure_routing_logic first_ring (\<lambda>s. None) None ?reg PREFIXAWARE ?kw =
      (Inr inst, reg')"
    by (simp add: reconfigure_routing_logic_def initialize_routing_logic_def cleanup_routing_logic_empty
        singleton_call_def)
  then show ?thesis using reconfigure_installs_router [OF e] by blast
qed

end
