(* ===== verification/Config.thy ===== *)
theory Config
  imports Url_Syntax Routers
begin

text \<open>
  How the router is configured: the options of \<^verbatim>\<open>parsers/parser.py\<close> with their types, defaults and
  choices, what \<^verbatim>\<open>argparse\<close> makes of a command line, the YAML documents of
  \<^verbatim>\<open>parsers/yaml_utils.py\<close>, the validation of the arguments, and the reconfigurable part of
  \<^verbatim>\<open>dynamic_config.py\<close>.

  A namespace is a dictionary from destinations to Python values. A command line is the list of
  its options in order, each with its value if it has one: the split of the words into options is
  not modelled. The contents of files come in as parsed documents.
\<close>

section \<open>YAML documents\<close>

text \<open>\<^verbatim>\<open>",".join(values)\<close>: every value has to be a string.\<close>

fun strings_of :: "json list \<Rightarrow> string list result" where
  "strings_of [] = Inr []"
| "strings_of (JStr s # js) = result_bind (strings_of js) (\<lambda>ss. Inr (s # ss))"
| "strings_of (j # js) = Inl (TypeError ''sequence item: expected str instance'')"

definition comma_join :: "json list \<Rightarrow> string result" where
  "comma_join js = result_bind (strings_of js) (\<lambda>ss. Inr (str_join '','' ss))"

fun json_items :: "json \<Rightarrow> (string \<times> json) list result" where
  "json_items (JObj d) = Inr d"
| "json_items _ = Inl (AttributeError ''items'')"

fun backends_loop :: "(string \<times> json) list \<Rightarrow> json list result" where
  "backends_loop [] = Inr []"
| "backends_loop ((name, details) # ms) =
     result_bind (json_contains details ''static_backends'') (\<lambda>has.
     result_bind (if has then result_bind (json_index details ''static_backends'') json_iter else Inr []) (\<lambda>bs.
     result_bind (backends_loop ms) (\<lambda>rest. Inr (bs @ rest))))"

definition generate_static_backends :: "json \<Rightarrow> string result" where
  "generate_static_backends models =
     result_bind (json_items models) (\<lambda>ms. result_bind (backends_loop ms) comma_join)"

fun models_loop :: "(string \<times> json) list \<Rightarrow> json list result" where
  "models_loop [] = Inr []"
| "models_loop ((name, details) # ms) =
     result_bind (json_contains details ''static_backends'') (\<lambda>has.
     result_bind (if has then result_bind (json_index details ''static_backends'') json_iter else Inr []) (\<lambda>bs.
     result_bind (models_loop ms) (\<lambda>rest. Inr (replicate (length bs) (JStr name) @ rest))))"

definition generate_static_models :: "json \<Rightarrow> string result" where
  "generate_static_models models =
     result_bind (json_items models) (\<lambda>ms. result_bind (models_loop ms) comma_join)"

text \<open>\<open>show\<close> is \<^verbatim>\<open>str\<close> on values other than strings.\<close>

definition format_value :: "(json \<Rightarrow> string) \<Rightarrow> json \<Rightarrow> string" where
  "format_value show j = (case j of JStr s \<Rightarrow> s | _ \<Rightarrow> show j)"

definition generate_static_aliases :: "(json \<Rightarrow> string) \<Rightarrow> json \<Rightarrow> string result" where
  "generate_static_aliases show aliases = result_bind (json_items aliases) (\<lambda>ms.
     Inr (str_join '','' (map (\<lambda>(alias, model). alias @ '':'' @ format_value show model) ms)))"

fun types_loop :: "(string \<times> json) list \<Rightarrow> json list result" where
  "types_loop [] = Inr []"
| "types_loop ((name, details) # ms) =
     result_bind (json_contains details ''static_model_type'') (\<lambda>typed.
     result_bind (if typed then json_contains details ''static_backends'' else Inr False) (\<lambda>has.
     result_bind (if has then result_bind (json_index details ''static_model_type'') (\<lambda>t.
                    result_bind (result_bind (json_index details ''static_backends'') json_iter) (\<lambda>bs.
                      Inr (replicate (length bs) t))) else Inr []) (\<lambda>ts.
     result_bind (types_loop ms) (\<lambda>rest. Inr (ts @ rest)))))"

definition generate_static_model_types :: "json \<Rightarrow> string result" where
  "generate_static_model_types models =
     result_bind (json_items models) (\<lambda>ms. result_bind (types_loop ms) comma_join)"

text \<open>The document after \<^verbatim>\<open>yaml.safe_load\<close>; a document that cannot be parsed is an error of the caller.\<close>

definition process_yaml_config :: "(json \<Rightarrow> string) \<Rightarrow> json \<Rightarrow> (string, json) dict result" where
  "process_yaml_config show yaml_config =
     (if \<not> py_truthy yaml_config then Inr []
      else case yaml_config of
        JObj d \<Rightarrow>
          (let models = dict_get d ''static_models'' JNull; d1 = dict_pop d ''static_models'';
               aliases = dict_get d1 ''static_aliases'' JNull; d2 = dict_pop d1 ''static_aliases''
           in result_bind
                (if py_truthy models
                 then result_bind (generate_static_backends models) (\<lambda>b.
                      result_bind (generate_static_models models) (\<lambda>m.
                      result_bind (generate_static_model_types models) (\<lambda>t.
                        Inr (dict_set (dict_set (dict_set d2 ''static_backends'' (JStr b))
                               ''static_models'' (JStr m)) ''static_model_types'' (JStr t)))))
                 else Inr d2) (\<lambda>d3.
              if py_truthy aliases
              then result_bind (generate_static_aliases show aliases) (\<lambda>a. Inr (dict_set d3 ''static_aliases'' (JStr a)))
              else Inr d3))
      | JList _ \<Rightarrow> Inl (TypeError ''pop expected at most 1 argument'')
      | _ \<Rightarrow> Inl (AttributeError ''pop''))"

section \<open>Options\<close>

datatype arg_kind = AStr | AInt | AFloat | AFlag | AExit

text \<open>An option without default (\<^verbatim>\<open>SUPPRESS\<close>) is \<^verbatim>\<open>--help\<close> or \<^verbatim>\<open>--version\<close>.\<close>

record arg_spec =
  as_option :: string
  as_kind :: arg_kind
  as_default :: "json option"
  as_choices :: "string list option"

definition arg :: "string \<Rightarrow> arg_kind \<Rightarrow> json \<Rightarrow> arg_spec" where
  "arg n k d = \<lparr>as_option = n, as_kind = k, as_default = Some d, as_choices = None\<rparr>"

definition arg_choice :: "string \<Rightarrow> json \<Rightarrow> string list \<Rightarrow> arg_spec" where
  "arg_choice n d cs = \<lparr>as_option = n, as_kind = AStr, as_default = Some d, as_choices = Some cs\<rparr>"

definition arg_exit :: "string \<Rightarrow> arg_spec" where
  "arg_exit n = \<lparr>as_option = n, as_kind = AExit, as_default = None, as_choices = None\<rparr>"

definition server_options :: "arg_spec list" where
  "server_options =
     [arg ''host'' AStr (JStr ''0.0.0.0''),
      arg ''port'' AInt (JInt 8080),
      arg ''root-path'' AStr (JStr []),
      arg ''timeout-keep-alive'' AInt (JInt 5),
      arg ''backend-connect-timeout'' AFloat (JFloat 10),
      arg ''backend-read-timeout'' AFloat (JFloat 300)]"

definition discovery_options :: "arg_spec list" where
  "discovery_options =
     [arg_choice ''service-discovery'' JNull [''static'', ''k8s'', ''external-only''],
      arg_choice ''k8s-service-discovery-type'' JNull [''pod-ip'', ''service-name''],
      arg ''static-backends'' AStr JNull,
      arg ''static-models'' AStr JNull,
      arg ''static-aliases'' AStr JNull,
      arg ''static-model-types'' AStr JNull,
      arg ''static-model-labels'' AStr JNull,
      arg ''static-backend-health-checks'' AFlag (JBool False),
      arg ''static-backend-health-check-interval'' AInt (JInt 60),
      arg ''static-backend-health-check-timeout-seconds'' AInt (JInt 10),
      arg ''k8s-port'' AInt (JInt 8000),
      arg ''k8s-namespace'' AStr (JStr ''default''),
      arg ''k8s-label-selector'' AStr (JStr []),
      arg ''k8s-watcher-timeout-seconds'' AInt (JInt 0),
      arg ''backend-health-check-timeout-seconds'' AInt (JInt 10)]"

definition routing_options :: "arg_spec list" where
  "routing_options =
     [arg_choice ''routing-logic'' JNull
        [''roundrobin'', ''session'', ''kvaware'', ''loadaware'', ''prefixaware'', ''disaggregated_prefill'',
         ''disaggregated_prefill_orchestrated'', ''priority''],
      arg ''lmcache-controller-port'' AInt (JInt 9000),
      arg ''lmcache-controller-reply-port'' AInt JNull,
      arg ''lmcache-controller-heartbeat-port'' AInt JNull,
      arg ''session-key'' AStr JNull,
      arg ''callbacks'' AStr JNull]"

definition service_options :: "arg_spec list" where
  "service_options =
     [arg_choice ''request-rewriter'' (JStr ''noop'') [''noop''],
      arg ''enable-batch-api'' AFlag (JBool False),
      arg_choice ''file-storage-class'' (JStr ''local_file'') [''local_file''],
      arg ''file-storage-path'' AStr (JStr ''/tmp/vllm_files''),
      arg_choice ''batch-processor'' (JStr ''local'') [''local''],
      arg ''engine-stats-interval'' AInt (JInt 30),
      arg ''request-stats-window'' AInt (JInt 60),
      arg ''log-stats'' AFlag (JBool False),
      arg ''log-stats-interval'' AInt (JInt 10),
      arg ''dynamic-config-yaml'' AStr JNull,
      arg ''dynamic-config-json'' AStr JNull,
      arg_exit ''version'']"

definition semantic_cache_options :: "arg_spec list" where
  "semantic_cache_options =
     [arg ''semantic-cache-model'' AStr (JStr ''all-MiniLM-L6-v2''),
      arg ''semantic-cache-dir'' AStr (JStr ''semantic_cache''),
      arg ''semantic-cache-threshold'' AFloat (JFloat (95 / 100))]"

definition logging_options :: "arg_spec list" where
  "logging_options =
     [arg ''feature-gates'' AStr (JStr []),
      arg_choice ''log-level'' (JStr ''info'') [''critical'', ''error'', ''warning'', ''info'', ''debug'', ''trace''],
      arg_choice ''log-format'' (JStr ''text'') [''text'', ''json''],
      arg ''sentry-dsn'' AStr JNull,
      arg ''sentry-traces-sample-rate'' AFloat (JFloat (1 / 10)),
      arg ''sentry-profile-session-sample-rate'' AFloat (JFloat 1),
      arg ''otel-endpoint'' AStr JNull,
      arg ''otel-service-name'' AStr (JStr ''vllm-router''),
      arg ''otel-secure'' AFlag (JBool False)]"

definition tuning_options :: "arg_spec list" where
  "tuning_options =
     [arg ''prefill-model-labels'' AStr JNull,
      arg ''decode-model-labels'' AStr JNull,
      arg ''kv-aware-threshold'' AInt (JInt 2000),
      arg ''loadaware-beta'' AFloat JNull,
      arg ''prefix-min-match-length'' AInt (JInt 0),
      arg ''priority-header'' AStr (JStr ''x-request-priority''),
      arg ''priority-field'' AStr (JStr ''priority''),
      arg ''priority-default'' AInt (JInt 0),
      arg ''priority-threshold'' AInt JNull,
      arg ''max-instance-failover-reroute-attempts'' AInt (JInt 0),
      arg ''lmcache-health-check-interval'' AInt (JInt 5),
      arg ''lmcache-worker-timeout'' AInt (JInt 30),
      arg ''external-providers-config'' AStr JNull]"

text \<open>The parser; the semantic cache adds its options when its packages are installed.\<close>

definition build_parser :: "bool \<Rightarrow> arg_spec list" where
  "build_parser semantic_cache_available =
     arg_exit ''help'' # server_options @ discovery_options @ routing_options @ service_options @
     (if semantic_cache_available then semantic_cache_options else []) @ logging_options @ tuning_options"

section \<open>Parsing a command line\<close>

definition arg_dest :: "arg_spec \<Rightarrow> string" where
  "arg_dest a = map (\<lambda>c. if c = CHR ''-'' then CHR ''_'' else c) (as_option a)"

text \<open>\<open>parse_float\<close> is \<^verbatim>\<open>float(text)\<close>.\<close>

fun convert_arg :: "(string \<Rightarrow> real option) \<Rightarrow> arg_kind \<Rightarrow> string \<Rightarrow> json result" where
  "convert_arg parse_float AInt s = (case parse_int s of None \<Rightarrow> Inl (SystemExit 2) | Some i \<Rightarrow> Inr (JInt i))"
| "convert_arg parse_float AFloat s = (case parse_float s of None \<Rightarrow> Inl (SystemExit 2) | Some r \<Rightarrow> Inr (JFloat r))"
| "convert_arg parse_float _ s = Inr (JStr s)"

text \<open>An option is named in full or by a prefix that no other option shares.\<close>

definition find_option :: "arg_spec list \<Rightarrow> string \<Rightarrow> arg_spec result" where
  "find_option ps n = (case filter (\<lambda>a. as_option a = n) ps of
     a # _ \<Rightarrow> Inr a
   | [] \<Rightarrow> (case filter (\<lambda>a. startswith (as_option a) n) ps of [a] \<Rightarrow> Inr a | _ \<Rightarrow> Inl (SystemExit 2)))"

definition option_value :: "(string \<Rightarrow> real option) \<Rightarrow> arg_spec \<Rightarrow> string option \<Rightarrow> json result" where
  "option_value parse_float a v = (case as_kind a of
     AExit \<Rightarrow> Inl (SystemExit (if v = None then 0 else 2))
   | AFlag \<Rightarrow> (if v = None then Inr (JBool True) else Inl (SystemExit 2))
   | k \<Rightarrow> (case v of
       None \<Rightarrow> Inl (SystemExit 2)
     | Some s \<Rightarrow> result_bind (convert_arg parse_float k s) (\<lambda>j.
         if as_choices a \<noteq> None \<and> s \<notin> set (the (as_choices a)) then Inl (SystemExit 2) else Inr j)))"

text \<open>The two configuration files exclude each other.\<close>

definition exclusive :: "string \<Rightarrow> string \<Rightarrow> bool" where
  "exclusive d d' \<longleftrightarrow> d = ''dynamic_config_yaml'' \<and> d' = ''dynamic_config_json'' \<or>
     d = ''dynamic_config_json'' \<and> d' = ''dynamic_config_yaml''"

fun parse_options ::
  "(string \<Rightarrow> real option) \<Rightarrow> arg_spec list \<Rightarrow> (string \<times> string option) list \<Rightarrow> (string, json) dict
     \<Rightarrow> (string, json) dict result" where
  "parse_options parse_float ps [] given = Inr given"
| "parse_options parse_float ps ((n, v) # cli) given =
     result_bind (find_option ps n) (\<lambda>a.
     if list_ex (exclusive (arg_dest a)) (keys given) then Inl (SystemExit 2)
     else result_bind (option_value parse_float a v) (\<lambda>j.
       parse_options parse_float ps cli (dict_set given (arg_dest a) j)))"

text \<open>
  An option that was not given has its default; a default that is a string goes through the type of
  the option, but not through its choices.
\<close>

fun finish_options ::
  "(string \<Rightarrow> real option) \<Rightarrow> arg_spec list \<Rightarrow> (string, json) dict \<Rightarrow> (string, json) dict result" where
  "finish_options parse_float [] given = Inr []"
| "finish_options parse_float (a # ps) given =
     result_bind (case map_of given (arg_dest a) of
         Some v \<Rightarrow> Inr (Some v)
       | None \<Rightarrow> (case as_default a of
           None \<Rightarrow> Inr None
         | Some (JStr s) \<Rightarrow> result_bind (convert_arg parse_float (as_kind a) s) (\<lambda>j. Inr (Some j))
         | Some v \<Rightarrow> Inr (Some v))) (\<lambda>v.
     result_bind (finish_options parse_float ps given) (\<lambda>ns.
       Inr (case v of None \<Rightarrow> ns | Some j \<Rightarrow> (arg_dest a, j) # ns)))"

text \<open>\<^verbatim>\<open>set_defaults\<close> also keeps the keys that belong to no option; they end up in the namespace.\<close>

definition set_defaults :: "(string, json) dict \<Rightarrow> arg_spec list \<Rightarrow> arg_spec list" where
  "set_defaults kw ps = map (\<lambda>a. case map_of kw (arg_dest a) of
     None \<Rightarrow> a | Some v \<Rightarrow> a\<lparr>as_default := Some v\<rparr>) ps"

definition parse_args ::
  "(string \<Rightarrow> real option) \<Rightarrow> arg_spec list \<Rightarrow> (string, json) dict \<Rightarrow> (string \<times> string option) list
     \<Rightarrow> (string, json) dict result" where
  "parse_args parse_float ps kw cli =
     result_bind (parse_options parse_float (set_defaults kw ps) cli []) (\<lambda>given.
     result_bind (finish_options parse_float (set_defaults kw ps) given) (\<lambda>ns.
       Inr (ns @ filter (\<lambda>(k, v). map_of ns k = None) kw)))"

section \<open>Validation\<close>

text \<open>Every destination is present in a namespace, so a lookup needs no default.\<close>

abbreviation ns_get :: "(string, json) dict \<Rightarrow> string \<Rightarrow> json" where
  "ns_get ns k \<equiv> dict_get ns k JNull"

definition guard :: "bool \<Rightarrow> py_exn \<Rightarrow> unit result" where
  "guard bad x = (if bad then Inl x else Inr ())"

text \<open>Numbers as Python compares them.\<close>

fun json_number :: "json \<Rightarrow> real result" where
  "json_number (JInt i) = Inr (of_int i)"
| "json_number (JFloat r) = Inr r"
| "json_number (JBool b) = Inr (of_bool b)"
| "json_number _ = Inl (TypeError ''not supported between instances'')"

definition verify_required_args_provided :: "(string, json) dict \<Rightarrow> (string, json) dict result" where
  "verify_required_args_provided ns =
     (if \<not> py_truthy (ns_get ns ''routing_logic'') then Inl (SystemExit 1)
      else if py_truthy (ns_get ns ''service_discovery'') then Inr ns
      else if \<not> py_truthy (ns_get ns ''external_providers_config'') then Inl (SystemExit 1)
      else Inr (dict_set ns ''service_discovery'' (JStr ''external-only'')))"

definition validate_static_model_types :: "json \<Rightarrow> unit result" where
  "validate_static_model_types types = (case types of
     JNull \<Rightarrow> Inl (ValueError ''Static model types must be provided when using the backend healthcheck.'')
   | JStr s \<Rightarrow> guard (\<not> list_all (\<lambda>t. t \<in> set (map fst get_all_fields)) (str_split '','' s))
       (ValueError ''The model type is not supported.'')
   | _ \<Rightarrow> Inl (AttributeError ''split''))"

definition in_unit_interval :: "json \<Rightarrow> string \<Rightarrow> unit result" where
  "in_unit_interval j msg = result_bind (json_number j) (\<lambda>r. guard (\<not> (0 \<le> r \<and> r \<le> 1)) (ValueError msg))"

definition positive_number :: "json \<Rightarrow> string \<Rightarrow> unit result" where
  "positive_number j msg = result_bind (json_number j) (\<lambda>r. guard (r \<le> 0) (ValueError msg))"

definition validate_static_args :: "(string, json) dict \<Rightarrow> unit result" where
  "validate_static_args ns =
     (if ns_get ns ''service_discovery'' \<noteq> JStr ''static'' then Inr ()
      else result_bind (guard (ns_get ns ''static_backends'' = JNull) (ValueError ''Static backends must be provided'')) (\<lambda>_.
           result_bind (guard (ns_get ns ''static_models'' = JNull) (ValueError ''Static models must be provided'')) (\<lambda>_.
           if py_truthy (ns_get ns ''static_backend_health_checks'')
           then validate_static_model_types (ns_get ns ''static_model_types'') else Inr ())))"

definition validate_args :: "(string, json) dict \<Rightarrow> (string, json) dict result" where
  "validate_args args =
     result_bind (verify_required_args_provided args) (\<lambda>ns.
     result_bind (validate_static_args ns) (\<lambda>_.
     result_bind (guard (ns_get ns ''service_discovery'' = JStr ''k8s'' \<and> ns_get ns ''k8s_port'' = JNull)
       (ValueError ''K8s port must be provided'')) (\<lambda>_.
     result_bind (guard (ns_get ns ''routing_logic'' = JStr ''session'' \<and> ns_get ns ''session_key'' = JNull)
       (ValueError ''Session key must be provided'')) (\<lambda>_.
     result_bind (if py_truthy (ns_get ns ''log_stats'')
                  then positive_number (ns_get ns ''log_stats_interval'') ''Log stats interval'' else Inr ()) (\<lambda>_.
     result_bind (positive_number (ns_get ns ''engine_stats_interval'') ''Engine stats interval'') (\<lambda>_.
     result_bind (positive_number (ns_get ns ''request_stats_window'') ''Request stats window'') (\<lambda>_.
     result_bind (in_unit_interval (ns_get ns ''sentry_traces_sample_rate'') ''Sentry traces sample rate'') (\<lambda>_.
     result_bind (in_unit_interval (ns_get ns ''sentry_profile_session_sample_rate'')
       ''Sentry profile session sample rate'') (\<lambda>_. Inr ns)))))))))"

text \<open>The two kinds of files: \<open>yaml\<close> and \<open>json\<close> give the parsed document of a path.\<close>

record file_env =
  fe_yaml :: "string \<Rightarrow> json result"
  fe_json :: "string \<Rightarrow> json result"
  fe_show :: "json \<Rightarrow> string"

definition read_and_process_yaml_config_file :: "file_env \<Rightarrow> string \<Rightarrow> (string, json) dict result" where
  "read_and_process_yaml_config_file fe path = result_bind (fe_yaml fe path) (process_yaml_config (fe_show fe))"

text \<open>\<^verbatim>\<open>**json.load(f)\<close> needs a mapping.\<close>

fun as_mapping :: "json \<Rightarrow> (string, json) dict result" where
  "as_mapping (JObj d) = Inr d"
| "as_mapping _ = Inl (TypeError ''argument after ** must be a mapping'')"

fun path_of :: "json \<Rightarrow> string" where
  "path_of (JStr s) = s"
| "path_of _ = []"

definition load_initial_config ::
  "(string \<Rightarrow> real option) \<Rightarrow> file_env \<Rightarrow> arg_spec list \<Rightarrow> (string \<times> string option) list \<Rightarrow> (string, json) dict
     \<Rightarrow> (string, json) dict result" where
  "load_initial_config parse_float fe ps cli args =
     (if py_truthy (ns_get args ''dynamic_config_yaml'')
      then result_bind (read_and_process_yaml_config_file fe (path_of (ns_get args ''dynamic_config_yaml''))) (\<lambda>kw.
             parse_args parse_float ps kw cli)
      else if py_truthy (ns_get args ''dynamic_config_json'')
      then result_bind (result_bind (fe_json fe (path_of (ns_get args ''dynamic_config_json''))) as_mapping) (\<lambda>kw.
             parse_args parse_float ps kw cli)
      else Inr args)"

definition router_args ::
  "(string \<Rightarrow> real option) \<Rightarrow> file_env \<Rightarrow> bool \<Rightarrow> (string \<times> string option) list \<Rightarrow> (string, json) dict result" where
  "router_args parse_float fe semantic cli =
     result_bind (parse_args parse_float (build_parser semantic) [] cli) (\<lambda>args.
     result_bind (load_initial_config parse_float fe (build_parser semantic) cli args) validate_args)"

section \<open>The reconfigurable part\<close>

text \<open>The fields with their defaults; the first two have none.\<close>

type_synonym DynamicRouterConfig = "(string, json) dict"

definition dynamic_fields :: "(string \<times> json option) list" where
  "dynamic_fields =
     [(''service_discovery'', None), (''routing_logic'', None),
      (''static_backends'', Some JNull), (''static_models'', Some JNull), (''static_aliases'', Some JNull),
      (''static_model_labels'', Some JNull), (''static_model_types'', Some JNull),
      (''static_backend_health_checks'', Some (JBool False)),
      (''static_backend_health_check_interval'', Some (JInt 60)),
      (''static_backend_health_check_timeout_seconds'', Some (JInt 10)),
      (''prefill_model_labels'', Some JNull), (''decode_model_labels'', Some JNull),
      (''k8s_port'', Some (JInt 8000)), (''k8s_namespace'', Some (JStr ''default'')),
      (''k8s_label_selector'', Some (JStr [])), (''session_key'', Some JNull),
      (''priority_header'', Some (JStr ''x-request-priority'')), (''priority_field'', Some (JStr ''priority'')),
      (''priority_default'', Some (JInt 0)), (''priority_threshold'', Some JNull), (''callbacks'', Some JNull),
      (''timeout_keep_alive'', Some (JInt 5))]"

definition from_args :: "(string, json) dict \<Rightarrow> DynamicRouterConfig" where
  "from_args ns = map (\<lambda>(n, d). (n, ns_get ns n)) dynamic_fields"

definition recognized_arg_dests :: "bool \<Rightarrow> string list" where
  "recognized_arg_dests semantic = map arg_dest (build_parser semantic)"

definition from_config_dict :: "bool \<Rightarrow> (string, json) dict \<Rightarrow> DynamicRouterConfig result" where
  "from_config_dict semantic config =
     (let extra = filter (\<lambda>k. k \<notin> set (keys dynamic_fields)) (keys config);
          unrecognized = filter (\<lambda>k. k \<notin> set (recognized_arg_dests semantic)) extra
      in if unrecognized \<noteq> [] then Inl (ValueError ''Unrecognized dynamic-config key(s)'')
         else if list_ex (\<lambda>(n, d). d = None \<and> map_of config n = None) dynamic_fields
         then Inl (TypeError ''missing required positional arguments'')
         else Inr (map (\<lambda>(n, d). (n, case map_of config n of Some v \<Rightarrow> v | None \<Rightarrow> the d)) dynamic_fields))"

definition from_yaml :: "file_env \<Rightarrow> bool \<Rightarrow> string \<Rightarrow> DynamicRouterConfig result" where
  "from_yaml fe semantic path =
     result_bind (read_and_process_yaml_config_file fe path) (from_config_dict semantic)"

definition from_json :: "file_env \<Rightarrow> bool \<Rightarrow> string \<Rightarrow> DynamicRouterConfig result" where
  "from_json fe semantic path =
     result_bind (result_bind (fe_json fe path) json_items) (from_config_dict semantic)"

text \<open>
  Equality of configurations is Python's: numbers are equal by value, dictionaries by content.
\<close>

fun py_canon :: "json \<Rightarrow> json" where
  "py_canon (JBool b) = JFloat (of_bool b)"
| "py_canon (JInt i) = JFloat (of_int i)"
| "py_canon (JList l) = JList (map py_canon l)"
| "py_canon (JObj d) = JObj (sort_key fst (map (\<lambda>(k, v). (k, py_canon v)) d))"
| "py_canon j = j"

definition config_eq :: "DynamicRouterConfig \<Rightarrow> DynamicRouterConfig \<Rightarrow> bool" where
  "config_eq c c' = (map (\<lambda>(n, v). (n, py_canon v)) c = map (\<lambda>(n, v). (n, py_canon v)) c')"

section \<open>Facts about options\<close>

lemmas option_tables = server_options_def discovery_options_def routing_options_def service_options_def
  semantic_cache_options_def logging_options_def tuning_options_def arg_def arg_choice_def arg_exit_def

lemma distinct_dests: "distinct (map arg_dest (build_parser semantic))"
  by (cases semantic) (simp_all add: build_parser_def option_tables arg_dest_def)

lemma arg_dest_set_defaults [simp]: "map arg_dest (set_defaults kw ps) = map arg_dest ps"
  by (auto simp: set_defaults_def arg_dest_def split: option.splits)

lemma set_defaults_in:
  "a \<in> set ps \<Longrightarrow> \<exists>b \<in> set (set_defaults kw ps). arg_dest b = arg_dest a \<and> as_kind b = as_kind a \<and>
     as_default b = (case map_of kw (arg_dest a) of None \<Rightarrow> as_default a | Some v \<Rightarrow> Some v)"
proof
  assume "a \<in> set ps"
  let ?b = "case map_of kw (arg_dest a) of None \<Rightarrow> a | Some v \<Rightarrow> a\<lparr>as_default := Some v\<rparr>"
  show "arg_dest ?b = arg_dest a \<and> as_kind ?b = as_kind a \<and>
     as_default ?b = (case map_of kw (arg_dest a) of None \<Rightarrow> as_default a | Some v \<Rightarrow> Some v)"
    by (simp add: arg_dest_def split: option.split)
  show "?b \<in> set (set_defaults kw ps)" using \<open>a \<in> set ps\<close> unfolding set_defaults_def by (simp only: set_map) (rule imageI)
qed

text \<open>The value an option ends up with when it was not given on the command line.\<close>

fun default_value :: "(string \<Rightarrow> real option) \<Rightarrow> arg_kind \<Rightarrow> json \<Rightarrow> json result" where
  "default_value parse_float k (JStr s) = convert_arg parse_float k s"
| "default_value parse_float k v = Inr v"

lemma finish_options_value:
  assumes "finish_options pf ps given = Inr ns" "distinct (map arg_dest ps)" "a \<in> set ps" "as_default a = Some d"
  shows "\<exists>v. map_of ns (arg_dest a) = Some v \<and>
    (case map_of given (arg_dest a) of Some w \<Rightarrow> v = w | None \<Rightarrow> default_value pf (as_kind a) d = Inr v)"
  using assms
proof (induction ps arbitrary: ns)
  case (Cons b ps)
  from Cons.prems(1) obtain v ns' where ns': "finish_options pf ps given = Inr ns'"
    and ns: "ns = (case v of None \<Rightarrow> ns' | Some j \<Rightarrow> (arg_dest b, j) # ns')"
    and v: "(case map_of given (arg_dest b) of Some v \<Rightarrow> Inr (Some v)
       | None \<Rightarrow> (case as_default b of None \<Rightarrow> Inr None
           | Some (JStr s) \<Rightarrow> result_bind (convert_arg pf (as_kind b) s) (\<lambda>j. Inr (Some j))
           | Some v \<Rightarrow> Inr (Some v))) = Inr v" by auto
  show ?case
  proof (cases "a = b")
    case True
    with v Cons.prems(4) have "\<exists>j. v = Some j \<and> (case map_of given (arg_dest a) of Some w \<Rightarrow> j = w
        | None \<Rightarrow> default_value pf (as_kind a) d = Inr j)"
      by (cases "map_of given (arg_dest b)"; cases d) auto
    then show ?thesis using ns True by auto
  next
    case False
    then have a: "a \<in> set ps" using Cons.prems(3) by simp
    then have "arg_dest a \<noteq> arg_dest b" using Cons.prems(2) by (metis distinct.simps(2) image_eqI list.map(2) set_map)
    then show ?thesis using Cons.IH [OF ns' _ a Cons.prems(4)] Cons.prems(2) by (cases v) (simp_all add: ns)
  qed
qed simp

text \<open>The command line, then the file, then the parser's own default.\<close>

lemma parse_args_value:
  assumes "parse_args pf ps kw cli = Inr ns" "distinct (map arg_dest ps)" "a \<in> set ps" "as_default a = Some d"
  shows "\<exists>given v. parse_options pf (set_defaults kw ps) cli [] = Inr given \<and> map_of ns (arg_dest a) = Some v \<and>
    (case map_of given (arg_dest a) of Some w \<Rightarrow> v = w
     | None \<Rightarrow> default_value pf (as_kind a) (dict_get kw (arg_dest a) d) = Inr v)"
proof -
  obtain given ns' where g: "parse_options pf (set_defaults kw ps) cli [] = Inr given"
    and f: "finish_options pf (set_defaults kw ps) given = Inr ns'"
    and ns: "ns = ns' @ filter (\<lambda>(k, v). map_of ns' k = None) kw"
    using assms(1) by (auto simp: parse_args_def)
  obtain b where b: "b \<in> set (set_defaults kw ps)" "arg_dest b = arg_dest a" "as_kind b = as_kind a"
    "as_default b = Some (dict_get kw (arg_dest a) d)"
    using set_defaults_in [OF assms(3), of kw] assms(4) by (auto simp: dict_get_def split: option.splits)
  have "distinct (map arg_dest (set_defaults kw ps))" using assms(2) by simp
  from finish_options_value [OF f this b(1) b(4)] show ?thesis
    unfolding b(2,3) using g by (auto simp: ns map_add_Some_iff)
qed

lemma given_by_cli:
  assumes "parse_options pf ps cli given = Inr given'"
    and "\<forall>a \<in> set ps. arg_dest a = d \<longrightarrow> (\<forall>(n, v) \<in> set cli. find_option ps n \<noteq> Inr a)"
  shows "map_of given' d = map_of given d"
  using assms
proof (induction pf ps cli given rule: parse_options.induct)
  case (2 pf ps n v cli given)
  from 2(2) obtain a j where a: "find_option ps n = Inr a"
    and x: "\<not> list_ex (exclusive (arg_dest a)) (keys given)" and j: "option_value pf a v = Inr j"
    and r: "parse_options pf ps cli (dict_set given (arg_dest a) j) = Inr given'"
    by (auto split: if_splits)
  have "a \<in> set ps" using a by (auto simp: find_option_def split: list.splits dest: filter_eq_ConsD)
  then have "arg_dest a \<noteq> d" using 2(3) a by auto
  then show ?case using 2(1) [OF x r] 2(3) by auto
qed simp

lemma set_defaults_option:
  "filter (\<lambda>b. Q (as_option b)) (set_defaults kw ps) = set_defaults kw (filter (\<lambda>a. Q (as_option a)) ps)"
  by (induction ps) (auto simp: set_defaults_def split: option.splits)

lemma find_option_set_defaults:
  assumes "find_option (set_defaults kw ps) n = Inr b"
  shows "\<exists>a. find_option ps n = Inr a \<and> arg_dest a = arg_dest b"
proof -
  have d: "set_defaults kw xs = b # bs \<Longrightarrow> \<exists>a as. xs = a # as \<and> arg_dest a = arg_dest b \<and> bs = set_defaults kw as" for xs bs
    by (cases xs) (auto simp: set_defaults_def arg_dest_def split: option.splits)
  have nil: "set_defaults kw xs = [] \<longleftrightarrow> xs = []" "[] = set_defaults kw xs \<longleftrightarrow> xs = []" for xs
    by (auto simp: set_defaults_def)
  show ?thesis
    using assms
    by (auto simp: find_option_def set_defaults_option [of "\<lambda>x. x = n"] set_defaults_option [of "\<lambda>x. startswith x n"] nil
        split: list.splits dest!: d)
qed

lemma dynamic_field_option:
  assumes "(n, d) \<in> set dynamic_fields"
  shows "\<exists>a \<in> set (build_parser semantic). arg_dest a = n \<and> as_default a = Some (case d of Some v \<Rightarrow> v | None \<Rightarrow> JNull)"
proof -
  have "list_all (\<lambda>(n, d). list_ex (\<lambda>a. arg_dest a = n \<and>
      as_default a = Some (case d of Some v \<Rightarrow> v | None \<Rightarrow> JNull)) (build_parser semantic)) dynamic_fields"
    by (cases semantic; simp only:) code_simp+
  then show ?thesis using assms by (auto simp: list_all_iff list_ex_iff)
qed

lemma from_config_dict_value:
  assumes "from_config_dict semantic kw = Inr dc" "(n, d) \<in> set dynamic_fields"
  shows "map_of dc n = Some (dict_get kw n (case d of Some v \<Rightarrow> v | None \<Rightarrow> JNull))"
proof -
  let ?v = "\<lambda>(n, d). (n, case map_of kw n of Some v \<Rightarrow> v | None \<Rightarrow> the d)"
  have dc: "dc = map ?v dynamic_fields"
    and ok: "\<not> list_ex (\<lambda>(n, d). d = None \<and> map_of kw n = None) dynamic_fields"
    using assms(1) by (auto simp: from_config_dict_def split: if_splits)
  have "distinct (map fst dc)"
    unfolding dc by (simp add: comp_def case_prod_beta) (simp add: dynamic_fields_def)
  moreover have "?v (n, d) \<in> set dc" using assms(2) unfolding dc by force
  ultimately have "map_of dc n = Some (case map_of kw n of Some v \<Rightarrow> v | None \<Rightarrow> the d)" by simp
  moreover have "map_of kw n \<noteq> None" if "d = None" using ok assms(2) that by (auto simp: list_ex_iff)
  ultimately show ?thesis by (auto simp: dict_get_def split: option.splits)
qed

lemma default_value_same:
  "(\<And>s. v = JStr s \<Longrightarrow> k \<noteq> AInt \<and> k \<noteq> AFloat) \<Longrightarrow> default_value pf k v = Inr w \<Longrightarrow> w = v"
  by (cases v; cases k) auto

lemma map_of_keys:
  assumes "distinct (keys d)"
  shows "map (\<lambda>n. (n, the (map_of d n))) (keys d) = d"
  unfolding map_map by (rule map_idI) (use map_of_is_SomeI [OF assms] in auto)

definition with_default :: "(string, json) dict \<Rightarrow> arg_spec \<Rightarrow> arg_spec" where
  "with_default kw a = (case map_of kw (arg_dest a) of None \<Rightarrow> a | Some v \<Rightarrow> a\<lparr>as_default := Some v\<rparr>)"

lemma with_default_same [simp]:
  "as_option (with_default kw a) = as_option a" "as_kind (with_default kw a) = as_kind a"
  "as_choices (with_default kw a) = as_choices a"
  by (auto simp: with_default_def split: option.split)

lemma set_defaults_map: "set_defaults kw ps = map (with_default kw) ps"
  by (simp add: set_defaults_def with_default_def)

lemma find_option_defaults:
  "find_option (set_defaults kw ps) n = result_bind (find_option ps n) (\<lambda>a. Inr (with_default kw a))"
  unfolding find_option_def set_defaults_map filter_map comp_def with_default_same
  by (auto split: list.split)

lemma parse_options_set_defaults: "parse_options pf (set_defaults kw ps) cli given = parse_options pf ps cli given"
proof -
  have o: "option_value pf (with_default kw a) v = option_value pf a v" "arg_dest (with_default kw a) = arg_dest a" for pf a v
    unfolding option_value_def arg_dest_def with_default_same by simp_all
  show ?thesis
  proof (induction pf ps cli given rule: parse_options.induct)
    case (2 pf ps n v cli given)
    then show ?case
      by (cases "find_option ps n") (auto simp: find_option_defaults o intro!: arg_cong [where f = "result_bind _"])
  qed simp
qed

text \<open>An option given on the command line has the same value whatever defaults are set.\<close>

lemma given_option_kept:
  assumes "parse_args pf (build_parser semantic) [] cli = Inr args" "parse_args pf (build_parser semantic) kw cli = Inr ns"
    and "list_ex (\<lambda>a. arg_dest a = d \<and> as_default a = Some JNull) (build_parser semantic)"
    and "v \<noteq> JNull" "ns_get args d = v"
  shows "ns_get ns d = v"
proof -
  obtain a where a: "a \<in> set (build_parser semantic)" "arg_dest a = d" "as_default a = Some JNull"
    using assms(3) by (auto simp: list_ex_iff)
  from parse_args_value [OF assms(1) distinct_dests a(1,3)] parse_args_value [OF assms(2) distinct_dests a(1,3)]
  show ?thesis
    using assms(4,5) a(2) by (auto simp: parse_options_set_defaults dict_get_def split: option.splits)
qed

definition leaves_fields :: "bool \<Rightarrow> (string \<times> string option) list \<Rightarrow> bool" where
  "leaves_fields semantic cli \<longleftrightarrow> list_all (\<lambda>(n, v). case find_option (build_parser semantic) n of
     Inl _ \<Rightarrow> True | Inr a \<Rightarrow> arg_dest a \<notin> set (keys dynamic_fields)) cli"

definition typed_numbers :: "bool \<Rightarrow> DynamicRouterConfig \<Rightarrow> bool" where
  "typed_numbers semantic dc \<longleftrightarrow> list_all (\<lambda>a. as_kind a = AInt \<or> as_kind a = AFloat \<longrightarrow>
     (case map_of dc (arg_dest a) of Some (JStr s) \<Rightarrow> False | _ \<Rightarrow> True)) (build_parser semantic)"

lemma parsed_field:
  assumes "parse_args pf (build_parser semantic) kw cli = Inr ns" "from_config_dict semantic kw = Inr dc"
    and "leaves_fields semantic cli" "typed_numbers semantic dc" "(n, d) \<in> set dynamic_fields"
  shows "map_of ns n = map_of dc n"
proof -
  obtain a where a: "a \<in> set (build_parser semantic)" "arg_dest a = n"
    "as_default a = Some (case d of Some v \<Rightarrow> v | None \<Rightarrow> JNull)"
    using dynamic_field_option [OF assms(5)] by blast
  obtain given v where g: "parse_options pf (set_defaults kw (build_parser semantic)) cli [] = Inr given"
    and v: "map_of ns n = Some v" and val: "case map_of given n of Some w \<Rightarrow> v = w
       | None \<Rightarrow> default_value pf (as_kind a) (dict_get kw n (case d of Some v \<Rightarrow> v | None \<Rightarrow> JNull)) = Inr v"
    using parse_args_value [OF assms(1) distinct_dests a(1,3)] a(2) by auto
  have n: "n \<in> set (keys dynamic_fields)" using assms(5) by force
  have no: "find_option (set_defaults kw (build_parser semantic)) m \<noteq> Inr b"
    if "arg_dest b = n" "(m, w) \<in> set cli" for b m w
  proof
    assume "find_option (set_defaults kw (build_parser semantic)) m = Inr b"
    then obtain a where "find_option (build_parser semantic) m = Inr a" "arg_dest a = n"
      using find_option_set_defaults [of kw "build_parser semantic" m b] \<open>arg_dest b = n\<close> by metis
    then show False
      using bspec [OF assms(3) [unfolded leaves_fields_def list_all_iff] \<open>(m, w) \<in> set cli\<close>] n by simp
  qed
  have "map_of given n = map_of [] n" using no by (intro given_by_cli [OF g]) blast
  then have "default_value pf (as_kind a) (dict_get kw n (case d of Some v \<Rightarrow> v | None \<Rightarrow> JNull)) = Inr v"
    using val by simp
  moreover have dc: "map_of dc n = Some (dict_get kw n (case d of Some v \<Rightarrow> v | None \<Rightarrow> JNull))"
    by (rule from_config_dict_value [OF assms(2,5)])
  ultimately show ?thesis
    using assms(4) a(1,2) v
    by (auto simp: typed_numbers_def list_all_iff dest!: default_value_same [rotated] split: option.splits)
qed

text \<open>Startup and the watched file agree: when the router was started with a YAML file, the options
  on the command line leave the reconfigurable fields alone, and the file spells numbers as numbers,
  then the configuration derived from the arguments is the one the watcher reads from the same
  file, so the first look at an unchanged file changes nothing.\<close>

lemma startup_agrees_with_file:
  assumes "router_args pf fe semantic cli = Inr ns" "parse_args pf (build_parser semantic) [] cli = Inr args"
    and "ns_get args ''dynamic_config_yaml'' = JStr path" "path \<noteq> []"
    and "from_yaml fe semantic path = Inr dc" "py_truthy (ns_get dc ''service_discovery'')"
    and "leaves_fields semantic cli" "typed_numbers semantic dc"
  shows "from_args ns = dc" "ns_get ns ''dynamic_config_yaml'' = JStr path"
proof -
  obtain kw where kw: "read_and_process_yaml_config_file fe path = Inr kw" "from_config_dict semantic kw = Inr dc"
    using assms(5) by (auto simp: from_yaml_def)
  obtain ns' where ns': "parse_args pf (build_parser semantic) kw cli = Inr ns'" and v: "validate_args ns' = Inr ns"
    using assms(1-4) kw(1) by (auto simp: router_args_def load_initial_config_def)
  note field = parsed_field [OF ns' kw(2) assms(7,8)]
  have "ns_get ns' ''service_discovery'' = ns_get dc ''service_discovery''"
    using field [of "''service_discovery''" None] by (simp add: dynamic_fields_def dict_get_def)
  then have ns: "ns = ns'"
    using v assms(6) by (auto simp: validate_args_def verify_required_args_provided_def split: if_splits)
  have keys: "keys dc = keys dynamic_fields"
    using kw(2) by (auto simp: from_config_dict_def split: if_splits)
  have dist: "distinct (keys dc)" unfolding keys by (simp add: dynamic_fields_def)
  have "from_args ns = map (\<lambda>n. (n, the (map_of dc n))) (keys dc)"
    unfolding from_args_def keys map_map ns
    using field from_config_dict_value [OF kw(2)] by (fastforce simp: dict_get_def)
  also have "\<dots> = dc" using dist by (intro map_of_keys)
  finally show "from_args ns = dc" .
  show "ns_get ns ''dynamic_config_yaml'' = JStr path"
    unfolding ns by (rule given_option_kept [OF assms(2) ns' _ _ assms(3)]) (code_simp, simp)
qed

definition yaml_example :: json where
  "yaml_example = JObj [(''service_discovery'', JStr ''static''), (''routing_logic'', JStr ''roundrobin''),
     (''static_models'', JObj [(''m'', JObj [(''static_backends'', JList [JStr ''http://a:80''])])])]"

definition files_example :: file_env where
  "files_example = \<lparr>fe_yaml = (\<lambda>p. Inr yaml_example), fe_json = (\<lambda>p. Inl (FileNotFoundError p)), fe_show = (\<lambda>j. [])\<rparr>"

definition cli_example :: "(string \<times> string option) list" where
  "cli_example = [(''dynamic-config-yaml'', Some ''f'')]"

lemma router_args_example: "is_ok (router_args (\<lambda>s. None) files_example False cli_example)"
  by code_simp

section \<open>The lists generated from a YAML file\<close>

text \<open>The backends of a model entry, when they are a list of strings, and its type.\<close>

fun entry_backends :: "json \<Rightarrow> string list option" where
  "entry_backends (JObj d) = (case map_of d ''static_backends'' of
     None \<Rightarrow> Some []
   | Some (JList l) \<Rightarrow> (case strings_of l of Inr ss \<Rightarrow> Some ss | Inl _ \<Rightarrow> None)
   | Some _ \<Rightarrow> None)"
| "entry_backends _ = None"

fun entry_type :: "json \<Rightarrow> string option" where
  "entry_type (JObj d) = (case map_of d ''static_model_type'' of Some (JStr t) \<Rightarrow> Some t | _ \<Rightarrow> None)"
| "entry_type _ = None"

definition engine_rows :: "(string \<times> json) list \<Rightarrow> (url \<times> string \<times> string) list" where
  "engine_rows ms = concat (map (\<lambda>(n, e). map (\<lambda>b. (b, n, the (entry_type e))) (the (entry_backends e))) ms)"

lemma strings_of_inverse: "strings_of l = Inr ss \<Longrightarrow> l = map JStr ss"
  by (induction l arbitrary: ss rule: strings_of.induct) auto

lemma strings_of_map [simp]: "strings_of (map JStr ss) = Inr ss"
  by (induction ss) auto

lemma json_contains_map_of: "json_contains (JObj d) k = Inr (map_of d k \<noteq> None)"
  by (simp add: map_of_eq_None_iff)

declare json_contains.simps(1) [simp del] json_contains_map_of [simp]

lemma entry_backendsD:
  assumes "entry_backends e = Some ss"
  shows "\<exists>has. json_contains e ''static_backends'' = Inr has \<and>
    (if has then result_bind (json_index e ''static_backends'') json_iter else Inr []) = Inr (map JStr ss)"
  using assms by (cases e) (auto split: option.splits json.splits sum.splits dest: strings_of_inverse)

lemma engine_rows_Cons:
  "entry_backends e = Some ss \<Longrightarrow>
   engine_rows ((n, e) # ms) = map (\<lambda>b. (b, n, the (entry_type e))) ss @ engine_rows ms"
  by (simp add: engine_rows_def)

lemma backends_loop_rows:
  "list_all (\<lambda>(n, e). entry_backends e \<noteq> None) ms \<Longrightarrow> backends_loop ms = Inr (map (\<lambda>r. JStr (fst r)) (engine_rows ms))"
proof (induction ms)
  case (Cons x ms)
  obtain n e where x: "x = (n, e)" by fastforce
  then obtain ss where ss: "entry_backends e = Some ss" using Cons.prems by auto
  obtain has where h: "json_contains e ''static_backends'' = Inr has"
    "(if has then result_bind (json_index e ''static_backends'') json_iter else Inr []) = Inr (map JStr ss)"
    using entry_backendsD [OF ss] by blast
  have "backends_loop ms = Inr (map (\<lambda>r. JStr (fst r)) (engine_rows ms))" using Cons by simp
  then show ?case unfolding x backends_loop.simps h engine_rows_Cons [OF ss] result_bind.simps by (simp add: comp_def)
qed (simp add: engine_rows_def)

lemma models_loop_rows:
  "list_all (\<lambda>(n, e). entry_backends e \<noteq> None) ms \<Longrightarrow>
   models_loop ms = Inr (map (\<lambda>r. JStr (fst (snd r))) (engine_rows ms))"
proof (induction ms)
  case (Cons x ms)
  obtain n e where x: "x = (n, e)" by fastforce
  then obtain ss where ss: "entry_backends e = Some ss" using Cons.prems by auto
  obtain has where h: "json_contains e ''static_backends'' = Inr has"
    "(if has then result_bind (json_index e ''static_backends'') json_iter else Inr []) = Inr (map JStr ss)"
    using entry_backendsD [OF ss] by blast
  have "models_loop ms = Inr (map (\<lambda>r. JStr (fst (snd r))) (engine_rows ms))" using Cons by simp
  then show ?case unfolding x models_loop.simps h engine_rows_Cons [OF ss] result_bind.simps
    by (simp add: comp_def map_replicate_const)
qed (simp add: engine_rows_def)

lemma types_loop_rows:
  "list_all (\<lambda>(n, e). entry_backends e \<noteq> None \<and> entry_type e \<noteq> None) ms \<Longrightarrow>
   types_loop ms = Inr (map (\<lambda>r. JStr (snd (snd r))) (engine_rows ms))"
proof (induction ms)
  case (Cons x ms)
  obtain n e where x: "x = (n, e)" by fastforce
  then obtain ss t where ss: "entry_backends e = Some ss" and t: "entry_type e = Some t" using Cons.prems by auto
  have ty: "json_contains e ''static_model_type'' = Inr True" "json_index e ''static_model_type'' = Inr (JStr t)"
    using t by (cases e; auto split: option.splits json.splits)+
  obtain has where h: "json_contains e ''static_backends'' = Inr has"
    "(if has then result_bind (json_index e ''static_backends'') json_iter else Inr []) = Inr (map JStr ss)"
    using entry_backendsD [OF ss] by blast
  have r: "types_loop ms = Inr (map (\<lambda>r. JStr (snd (snd r))) (engine_rows ms))" using Cons by simp
  show ?case
  proof (cases has)
    case True
    then have "result_bind (json_index e ''static_backends'') json_iter = Inr (map JStr ss)" using h(2) by simp
    then show ?thesis unfolding x types_loop.simps ty h(1) engine_rows_Cons [OF ss]
      by (simp only: True if_True result_bind.simps r) (simp add: comp_def t map_replicate_const)
  next
    case False
    then have "ss = []" using h(2) by simp
    then show ?thesis unfolding x types_loop.simps ty h(1) engine_rows_Cons [OF ss] using False r by simp
  qed
qed (simp add: engine_rows_def)

lemma comma_join_map: "comma_join (map (\<lambda>x. JStr (f x)) xs) = Inr (str_join '','' (map f xs))"
  using strings_of_map [of "map f xs"] by (simp add: comma_join_def comp_def)


definition yaml_models_example :: "(string \<times> json) list" where
  "yaml_models_example = [(''m'', JObj [(''static_backends'', JList [JStr ''http://a'', JStr ''http://b'']), (''static_model_type'', JStr ''chat'')])]"


text \<open>
  An entry without a type shortens the third list: the types of the entries after it move up to the
  wrong engines.
\<close>

lemma yaml_types_shift:
  "\<exists>ms kw. process_yaml_config (\<lambda>j. []) (JObj [(''static_models'', JObj ms)]) = Inr kw \<and>
     map_of kw ''static_backends'' = Some (JStr ''http://a,http://b'') \<and>
     map_of kw ''static_model_types'' = Some (JStr ''chat'') \<and>
     map (\<lambda>(n, e). entry_type e) ms = [None, Some ''chat'']"
proof -
  let ?ms = "[(''x'', JObj [(''static_backends'', JList [JStr ''http://a''])]),
     (''y'', JObj [(''static_backends'', JList [JStr ''http://b'']), (''static_model_type'', JStr ''chat'')])]"
  have "case process_yaml_config (\<lambda>j. []) (JObj [(''static_models'', JObj ?ms)]) of Inl _ \<Rightarrow> False
    | Inr kw \<Rightarrow> map_of kw ''static_backends'' = Some (JStr ''http://a,http://b'') \<and>
        map_of kw ''static_model_types'' = Some (JStr ''chat'')" by code_simp
  then obtain kw where "process_yaml_config (\<lambda>j. []) (JObj [(''static_models'', JObj ?ms)]) = Inr kw"
    "map_of kw ''static_backends'' = Some (JStr ''http://a,http://b'')"
    "map_of kw ''static_model_types'' = Some (JStr ''chat'')" by (auto split: sum.splits)
  moreover have "map (\<lambda>(n, e). entry_type e) ?ms = [None, Some ''chat'']" by code_simp
  ultimately show ?thesis by (intro exI [of _ ?ms] exI [of _ kw] conjI)
qed

end
