(* ===== verification/External_Providers.thy ===== *)
theory External_Providers
  imports Attempt
begin

text \<open>
  External providers: the configuration records of
  \<^verbatim>\<open>src/src/vllm_router/external_providers/models.py\<close>, the manager of \<^verbatim>\<open>registry.py\<close> and the
  OpenAI-compatible adapter of \<^verbatim>\<open>openai_provider.py\<close>. A configuration document has the types of
  the dataclass annotations, with every key optional; the environment variables and what the
  provider answers are parameters.
\<close>

section \<open>Configuration\<close>

record ExternalModelConfig =
  xm_id :: string
  xm_type :: string
  xm_aliases :: "string list"

record ExternalProviderConfig =
  xp_name :: string
  xp_type :: string
  xp_api_base :: string
  xp_models :: "ExternalModelConfig list"
  xp_api_key_env_var :: "string option"
  xp_timeout :: real
  xp_max_retries :: int
  xp_custom_headers :: headers

text \<open>The documents as they are read, before the required keys are checked.\<close>

record raw_model =
  rm_id :: "string option"
  rm_type :: "string option"
  rm_aliases :: "string list option"

record raw_provider =
  rp_name :: "string option"
  rp_type :: "string option"
  rp_api_base :: "string option"
  rp_models :: "raw_model list option"
  rp_api_key_env_var :: "string option"
  rp_timeout :: "real option"
  rp_max_retries :: "int option"
  rp_custom_headers :: "headers option"

definition required :: "string \<Rightarrow> 'a option \<Rightarrow> 'a result" where
  "required k v = (case v of None \<Rightarrow> Inl (KeyError k) | Some x \<Rightarrow> Inr x)"

definition or_default :: "'a option \<Rightarrow> 'a \<Rightarrow> 'a" where
  "or_default v d = (case v of None \<Rightarrow> d | Some x \<Rightarrow> x)"

definition external_model_from_dict :: "raw_model \<Rightarrow> ExternalModelConfig result" where
  "external_model_from_dict d = result_bind (required ''id'' (rm_id d)) (\<lambda>i.
     Inr \<lparr>xm_id = i, xm_type = or_default (rm_type d) ''chat'', xm_aliases = or_default (rm_aliases d) []\<rparr>)"

fun external_models_from :: "raw_model list \<Rightarrow> ExternalModelConfig list result" where
  "external_models_from [] = Inr []"
| "external_models_from (d # ds) = result_bind (external_model_from_dict d) (\<lambda>m.
     result_bind (external_models_from ds) (\<lambda>ms. Inr (m # ms)))"

definition external_provider_from_dict :: "raw_provider \<Rightarrow> ExternalProviderConfig result" where
  "external_provider_from_dict d =
     result_bind (external_models_from (or_default (rp_models d) [])) (\<lambda>ms.
     result_bind (required ''name'' (rp_name d)) (\<lambda>n.
     result_bind (required ''type'' (rp_type d)) (\<lambda>t.
     result_bind (required ''api_base'' (rp_api_base d)) (\<lambda>b.
       Inr \<lparr>xp_name = n, xp_type = t, xp_api_base = b, xp_models = ms,
            xp_api_key_env_var = rp_api_key_env_var d, xp_timeout = or_default (rp_timeout d) 30,
            xp_max_retries = or_default (rp_max_retries d) 3,
            xp_custom_headers = or_default (rp_custom_headers d) []\<rparr>))))"

text \<open>\<^verbatim>\<open>api_key_env_var or default_env_var\<close>: an empty name counts as none.\<close>

definition get_api_key ::
  "(string \<Rightarrow> string option) \<Rightarrow> ExternalProviderConfig \<Rightarrow> string option \<Rightarrow> string option result" where
  "get_api_key getenv c default_env_var =
     (let env_var = (case xp_api_key_env_var c of
            None \<Rightarrow> or_default default_env_var []
          | Some v \<Rightarrow> if v = [] then or_default default_env_var [] else v)
      in if env_var = [] then Inr None
         else if or_default (getenv env_var) [] = []
              then Inl (ValueError (''API key for provider not found in environment variable ''))
              else Inr (getenv env_var))"

definition get_all_model_ids :: "ExternalProviderConfig \<Rightarrow> string list" where
  "get_all_model_ids c = concat (map (\<lambda>m. xm_id m # xm_aliases m) (xp_models c))"

definition resolve_model_id :: "ExternalProviderConfig \<Rightarrow> string \<Rightarrow> string option" where
  "resolve_model_id c r =
     map_option xm_id (find (\<lambda>m. r = xm_id m \<or> r \<in> set (xm_aliases m)) (xp_models c))"

section \<open>The manager\<close>

text \<open>An adapter is its configuration and the key read when it was built.\<close>

record OpenAIProvider =
  op_config :: ExternalProviderConfig
  op_api_key :: "string option"

definition openai_init :: "(string \<Rightarrow> string option) \<Rightarrow> ExternalProviderConfig \<Rightarrow> OpenAIProvider result" where
  "openai_init getenv c = result_bind (get_api_key getenv c (Some ''OPENAI_API_KEY'')) (\<lambda>k.
     Inr \<lparr>op_config = c, op_api_key = k\<rparr>)"

definition ADAPTER_REGISTRY :: "string list" where
  "ADAPTER_REGISTRY = [''openai'']"

record ExternalProviderManager =
  xg_adapters :: "(string, OpenAIProvider) dict"
  xg_model_index :: "(string, string \<times> OpenAIProvider \<times> string) dict"

definition manager_init :: ExternalProviderManager where
  "manager_init = \<lparr>xg_adapters = [], xg_model_index = []\<rparr>"

definition register_model_id ::
  "ExternalProviderManager \<Rightarrow> string \<Rightarrow> string \<Rightarrow> OpenAIProvider \<Rightarrow> string \<Rightarrow> unit result \<times> ExternalProviderManager" where
  "register_model_id g mid pname a canonical =
     (let g' = g\<lparr>xg_model_index := dict_set (xg_model_index g) mid (pname, a, canonical)\<rparr> in
      case map_of (xg_model_index g) mid of
        None \<Rightarrow> (Inr (), g')
      | Some (existing, _, _) \<Rightarrow>
          if existing \<noteq> pname then (Inl (ValueError (''Model ID conflicts'')), g) else (Inr (), g'))"

text \<open>The two nested loops of \<^verbatim>\<open>register\<close>: each model id, followed by its aliases.\<close>

definition config_entries :: "ExternalProviderConfig \<Rightarrow> (string \<times> string) list" where
  "config_entries c =
     concat (map (\<lambda>m. (xm_id m, xm_id m) # map (\<lambda>al. (al, xm_id m)) (xm_aliases m)) (xp_models c))"

fun register_entries ::
  "ExternalProviderManager \<Rightarrow> string \<Rightarrow> OpenAIProvider \<Rightarrow> (string \<times> string) list \<Rightarrow> unit result \<times> ExternalProviderManager" where
  "register_entries g pname a [] = (Inr (), g)"
| "register_entries g pname a ((mid, canonical) # es) = (case register_model_id g mid pname a canonical of
     (Inl x, g') \<Rightarrow> (Inl x, g')
   | (Inr _, g') \<Rightarrow> register_entries g' pname a es)"

definition register_provider ::
  "(string \<Rightarrow> string option) \<Rightarrow> ExternalProviderManager \<Rightarrow> ExternalProviderConfig \<Rightarrow> unit result \<times> ExternalProviderManager" where
  "register_provider getenv g c =
     (if xp_type c \<notin> set ADAPTER_REGISTRY then (Inl (ValueError ''No adapter found for provider type''), g)
      else case openai_init getenv c of
        Inl x \<Rightarrow> (Inl x, g)
      | Inr a \<Rightarrow> register_entries (g\<lparr>xg_adapters := dict_set (xg_adapters g) (xp_name c) a\<rparr>)
                  (xp_name c) a (config_entries c))"

definition is_external_model :: "ExternalProviderManager \<Rightarrow> string \<Rightarrow> bool" where
  "is_external_model g m = (map_of (xg_model_index g) m \<noteq> None)"

definition lookup_adapter :: "ExternalProviderManager \<Rightarrow> string \<Rightarrow> OpenAIProvider option" where
  "lookup_adapter g m = map_option (\<lambda>(p, a, c). a) (map_of (xg_model_index g) m)"

definition get_canonical_model_id :: "ExternalProviderManager \<Rightarrow> string \<Rightarrow> string option" where
  "get_canonical_model_id g m = map_option (\<lambda>(p, a, c). c) (map_of (xg_model_index g) m)"

definition get_provider_name :: "ExternalProviderManager \<Rightarrow> string \<Rightarrow> string option" where
  "get_provider_name g m = map_option (\<lambda>(p, a, c). p) (map_of (xg_model_index g) m)"

definition get_all_external_model_ids :: "ExternalProviderManager \<Rightarrow> string list" where
  "get_all_external_model_ids g = keys (xg_model_index g)"

definition get_registered_providers :: "ExternalProviderManager \<Rightarrow> string list" where
  "get_registered_providers g = keys (xg_adapters g)"

text \<open>\<open>fetch\<close> is what the provider lists as available, an empty list on any failure.\<close>

definition validate_provider ::
  "string \<Rightarrow> string list \<Rightarrow> ExternalProviderManager \<Rightarrow> ExternalProviderManager" where
  "validate_provider pname available g =
     (if available = [] then g
      else let to_remove = [mid. (mid, (p, a, c)) \<leftarrow> xg_model_index g, p = pname \<and> c \<notin> set available]
           in g\<lparr>xg_model_index := fold (\<lambda>mid d. dict_pop d mid) to_remove (xg_model_index g)\<rparr>)"

definition validate_models ::
  "(OpenAIProvider \<Rightarrow> string list) \<Rightarrow> ExternalProviderManager \<Rightarrow> ExternalProviderManager" where
  "validate_models fetch g = fold (\<lambda>(pname, a). validate_provider pname (fetch a)) (xg_adapters g) g"

text \<open>A health check that raises counts as unhealthy.\<close>

definition manager_health_check ::
  "(OpenAIProvider \<Rightarrow> bool result) \<Rightarrow> ExternalProviderManager \<Rightarrow> (string, bool) dict" where
  "manager_health_check check g =
     fold (\<lambda>(pname, a) d. dict_set d pname (case check a of Inl _ \<Rightarrow> False | Inr b \<Rightarrow> b)) (xg_adapters g) []"

definition manager_close :: "ExternalProviderManager \<Rightarrow> ExternalProviderManager" where
  "manager_close g = g\<lparr>xg_adapters := [], xg_model_index := []\<rparr>"

fun create_loop ::
  "(string \<Rightarrow> string option) \<Rightarrow> raw_provider list \<Rightarrow> ExternalProviderManager \<Rightarrow> ExternalProviderManager result" where
  "create_loop getenv [] g = Inr g"
| "create_loop getenv (d # ds) g = (case external_provider_from_dict d of
     Inl _ \<Rightarrow> Inl (ValueError ''Invalid provider configuration'')
   | Inr c \<Rightarrow> (case register_provider getenv g c of
       (Inl _, _) \<Rightarrow> Inl (ValueError ''Invalid provider configuration'')
     | (Inr _, g') \<Rightarrow> create_loop getenv ds g'))"

definition create_external_provider_manager ::
  "(string \<Rightarrow> string option) \<Rightarrow> raw_provider list \<Rightarrow> ExternalProviderManager result" where
  "create_external_provider_manager getenv ds = create_loop getenv ds manager_init"

section \<open>Sending a request\<close>

record ExternalProviderResponse =
  xr_status_code :: int
  xr_headers :: headers
  xr_body :: json
  xr_is_stream :: bool
  xr_chunks :: "string list"

definition openai_build_headers :: "OpenAIProvider \<Rightarrow> headers" where
  "openai_build_headers a =
     (let hs = [(''Content-Type'', ''application/json'')];
          hs = (case op_api_key a of None \<Rightarrow> hs
                | Some k \<Rightarrow> if k = [] then hs else dict_set hs ''Authorization'' (''Bearer '' @ k))
      in dict_update_all hs (xp_custom_headers (op_config a)))"

text \<open>\<^verbatim>\<open>{**payload, "model": canonical_id}\<close> when the requested name is an alias.\<close>

definition canonical_payload :: "ExternalProviderConfig \<Rightarrow> body \<Rightarrow> body" where
  "canonical_payload c payload = (case dict_get payload ''model'' (JStr []) of
     JStr m \<Rightarrow> (case resolve_model_id c m of
       None \<Rightarrow> payload
     | Some canonical \<Rightarrow> if canonical \<noteq> [] \<and> canonical \<noteq> m
                         then dict_set payload ''model'' (JStr canonical) else payload)
   | _ \<Rightarrow> payload)"

definition rstrip_slash :: "string \<Rightarrow> string" where
  "rstrip_slash s = rev (dropWhile (\<lambda>c. c = CHR ''/'') (rev s))"

definition provider_url :: "ExternalProviderConfig \<Rightarrow> string \<Rightarrow> url" where
  "provider_url c endpoint = rstrip_slash (xp_api_base c) @ endpoint"

text \<open>One exchange: an answer, an \<^verbatim>\<open>aiohttp.ClientError\<close>, or another exception.\<close>

datatype send_outcome = SendOk ExternalProviderResponse | SendClientError | SendRaises py_exn

datatype send_result = Sent ExternalProviderResponse | GaveUp | SendFailed py_exn

text \<open>
  The retry loop on the attempts left; the answer of an attempt may depend on its number. It also
  returns the number of requests made.
\<close>

fun send_loop :: "(nat \<Rightarrow> send_outcome) \<Rightarrow> nat \<Rightarrow> nat \<Rightarrow> bool \<Rightarrow> send_result \<times> nat" where
  "send_loop exchange 0 attempt failed =
     (if failed then GaveUp else SendFailed (TypeError ''exceptions must derive from BaseException''), 0)"
| "send_loop exchange (Suc left) attempt failed = (case exchange attempt of
     SendOk r \<Rightarrow> (Sent r, 1)
   | SendRaises x \<Rightarrow> (SendFailed x, 1)
   | SendClientError \<Rightarrow>
       (let (r, n) = send_loop exchange left (Suc attempt) True in (r, Suc n)))"

definition provider_exchange ::
  "(url \<Rightarrow> headers \<Rightarrow> body \<Rightarrow> bool \<Rightarrow> nat \<Rightarrow> send_outcome) \<Rightarrow> OpenAIProvider \<Rightarrow> string \<Rightarrow> body \<Rightarrow> bool
     \<Rightarrow> nat \<Rightarrow> send_outcome" where
  "provider_exchange post a endpoint payload stream =
     post (provider_url (op_config a) endpoint) (openai_build_headers a)
       (canonical_payload (op_config a) payload) stream"

definition openai_send_request ::
  "(url \<Rightarrow> headers \<Rightarrow> body \<Rightarrow> bool \<Rightarrow> nat \<Rightarrow> send_outcome) \<Rightarrow> OpenAIProvider \<Rightarrow> string \<Rightarrow> body \<Rightarrow> bool
     \<Rightarrow> send_result \<times> nat" where
  "openai_send_request post a endpoint payload stream =
     send_loop (provider_exchange post a endpoint payload stream)
       (nat (xp_max_retries (op_config a) + 1)) 0 False"

text \<open>\<open>fetch_available_model_ids\<close>: a status other than 200 or any exception gives no ids.\<close>

fun listed_ids :: "json list \<Rightarrow> string list option" where
  "listed_ids [] = Some []"
| "listed_ids (m # ms) = (case (json_index m ''id'', listed_ids ms) of
     (Inr (JStr i), Some is) \<Rightarrow> Some (i # is) | _ \<Rightarrow> None)"

definition fetch_available_model_ids :: "(int \<times> payload) option \<Rightarrow> string list" where
  "fetch_available_model_ids reply = (case reply of
     Some (st, b) \<Rightarrow>
       if st \<noteq> 200 then []
       else (case json_loads b of
          Some (JObj d) \<Rightarrow> (case dict_get d ''data'' (JList []) of
             JList ms \<Rightarrow> or_default (listed_ids ms) [] | _ \<Rightarrow> [])
        | _ \<Rightarrow> [])
   | None \<Rightarrow> [])"

definition openai_health_check :: "(int \<times> payload) option \<Rightarrow> bool" where
  "openai_health_check reply = (case reply of None \<Rightarrow> False | Some (st, b) \<Rightarrow> st = 200)"

section \<open>Facts about registration\<close>

lemma register_model_id_ok:
  assumes "register_model_id g mid p a c = (Inr u, g')"
  shows "g' = g\<lparr>xg_model_index := dict_set (xg_model_index g) mid (p, a, c)\<rparr>"
    and "case map_of (xg_model_index g) mid of None \<Rightarrow> True | Some (p', _) \<Rightarrow> p' = p"
  using assms by (auto simp: register_model_id_def split: option.splits if_splits)

text \<open>A registration that succeeds: the last entry of an id wins, and no id was another provider's.\<close>

lemma register_entries_ok:
  assumes "register_entries g p a es = (Inr u, g')"
  shows "map_of (xg_model_index g') m = (case map_of (rev es) m of
       None \<Rightarrow> map_of (xg_model_index g) m | Some c \<Rightarrow> Some (p, a, c)) \<and>
     (m \<in> fst ` set es \<longrightarrow>
      (case map_of (xg_model_index g) m of None \<Rightarrow> True | Some (p', _) \<Rightarrow> p' = p))"
  using assms
proof (induction g p a es rule: register_entries.induct)
  case (2 g p a mid c es)
  obtain g1 where g1: "register_model_id g mid p a c = (Inr (), g1)"
    using "2.prems" by (cases "register_model_id g mid p a c"; cases "fst (register_model_id g mid p a c)") auto
  note step = register_model_id_ok [OF g1]
  have rest: "register_entries g1 p a es = (Inr u, g')" using "2.prems" g1 by simp
  show ?case
    using "2.IH" [OF g1 [symmetric] refl rest] step
    by (cases "m = mid") (auto simp: map_add_def split: option.splits)
qed simp

lemma fst_config_entries: "fst ` set (config_entries c) = set (get_all_model_ids c)"
  by (auto simp: config_entries_def get_all_model_ids_def image_iff)

lemma keys_config_entries: "map fst (config_entries c) = get_all_model_ids c"
  by (simp add: config_entries_def get_all_model_ids_def map_concat comp_def)

lemma map_of_rev_member: "map_of (rev es) m = Some c \<Longrightarrow> (m, c) \<in> set es"
  using map_of_SomeD by fastforce

lemma map_of_rev_None: "map_of (rev es) m = None \<longleftrightarrow> m \<notin> fst ` set es"
  by (simp add: map_of_eq_None_iff)

text \<open>What the index holds after the configurations in a list were registered.\<close>

definition indexed :: "ExternalProviderConfig list \<Rightarrow> ExternalProviderManager \<Rightarrow> bool" where
  "indexed cs g \<longleftrightarrow>
     (\<forall>m p a c. map_of (xg_model_index g) m = Some (p, a, c) \<longrightarrow>
        op_config a \<in> set cs \<and> p = xp_name (op_config a) \<and> (m, c) \<in> set (config_entries (op_config a))) \<and>
     (\<forall>cfg \<in> set cs. \<forall>m \<in> set (get_all_model_ids cfg).
        get_provider_name g m = Some (xp_name cfg))"

lemma register_provider_ok:
  assumes "register_provider getenv g c = (Inr u, g')"
  obtains a where "op_config a = c"
    "register_entries (g\<lparr>xg_adapters := dict_set (xg_adapters g) (xp_name c) a\<rparr>) (xp_name c) a
       (config_entries c) = (Inr u, g')"
proof -
  obtain a where a: "openai_init getenv c = Inr a"
    using assms by (auto simp: register_provider_def split: if_splits sum.splits)
  then have "op_config a = c" by (auto simp: openai_init_def)
  then show thesis using that assms a by (simp add: register_provider_def split: if_splits)
qed

lemma register_provider_indexed:
  assumes "indexed cs g" "register_provider getenv g c = (Inr u, g')"
  shows "indexed (cs @ [c]) g'"
proof -
  obtain a where a: "op_config a = c" and
    r: "register_entries (g\<lparr>xg_adapters := dict_set (xg_adapters g) (xp_name c) a\<rparr>) (xp_name c) a
       (config_entries c) = (Inr u, g')"
    using register_provider_ok [OF assms(2)] .
  have look: "map_of (xg_model_index g') m = (case map_of (rev (config_entries c)) m of
       None \<Rightarrow> map_of (xg_model_index g) m | Some d \<Rightarrow> Some (xp_name c, a, d))" for m
    using register_entries_ok [OF r, of m] by (auto split: option.splits)
  have sound: "op_config a' \<in> set (cs @ [c]) \<and> p = xp_name (op_config a') \<and>
      (m, d) \<in> set (config_entries (op_config a'))"
    if "map_of (xg_model_index g') m = Some (p, a', d)" for m p a' d
    using that assms(1) a look [of m] map_of_rev_member [of "config_entries c" m]
    by (cases "map_of (rev (config_entries c)) m") (auto simp: indexed_def)
  have new: "get_provider_name g' m = Some (xp_name c)" if m: "m \<in> set (get_all_model_ids c)" for m
  proof -
    obtain d where "map_of (rev (config_entries c)) m = Some d"
      using m map_of_rev_None [of "config_entries c" m] unfolding fst_config_entries by blast
    then show ?thesis using look [of m] by (simp add: get_provider_name_def)
  qed
  have old: "get_provider_name g' m = Some (xp_name cfg)"
    if "cfg \<in> set cs" "m \<in> set (get_all_model_ids cfg)" for cfg m
  proof -
    have p: "get_provider_name g m = Some (xp_name cfg)" using assms(1) that by (simp add: indexed_def)
    show ?thesis
    proof (cases "m \<in> set (get_all_model_ids c)")
      case True
      then have "xp_name cfg = xp_name c"
        using register_entries_ok [OF r, of m] p
        by (auto simp: fst_config_entries get_provider_name_def split: option.splits)
      then show ?thesis using new [OF True] by simp
    next
      case False
      then show ?thesis
        using look [of m] p map_of_rev_None [of "config_entries c" m]
        by (simp add: fst_config_entries get_provider_name_def)
    qed
  qed
  show ?thesis unfolding indexed_def using sound new old by auto
qed

lemma create_loop_indexed:
  assumes "create_loop getenv ds g = Inr g'" "indexed cs g"
  shows "\<exists>cs'. map external_provider_from_dict ds = map Inr cs' \<and> indexed (cs @ cs') g'"
  using assms
proof (induction ds arbitrary: g cs)
  case (Cons d ds)
  obtain c where c: "external_provider_from_dict d = Inr c"
    using Cons.prems(1) by (cases "external_provider_from_dict d") auto
  obtain u g1 where r: "register_provider getenv g c = (Inr u, g1)"
    using Cons.prems(1) c by (cases "register_provider getenv g c"; cases "fst (register_provider getenv g c)") auto
  have "create_loop getenv ds g1 = Inr g'" using Cons.prems(1) c r by simp
  from Cons.IH [OF this register_provider_indexed [OF Cons.prems(2) r]] c
  show ?case by (metis append.assoc append_Cons append_Nil list.simps(9))
qed auto

text \<open>When the ids of a provider are pairwise different, adapter and index resolve aliases alike.\<close>

lemma find_entry:
  assumes "distinct (concat (map (\<lambda>m. xm_id m # xm_aliases m) ms))" "x \<in> set ms"
    and "r = xm_id x \<or> r \<in> set (xm_aliases x)"
  shows "find (\<lambda>m. r = xm_id m \<or> r \<in> set (xm_aliases m)) ms = Some x"
  using assms by (induction ms) auto

lemma resolve_model_id_entry:
  assumes "distinct (get_all_model_ids c)" "(m, d) \<in> set (config_entries c)"
  shows "resolve_model_id c m = Some d"
proof -
  obtain x where x: "x \<in> set (xp_models c)" "d = xm_id x" "m = xm_id x \<or> m \<in> set (xm_aliases x)"
    using assms(2) by (auto simp: config_entries_def)
  then show ?thesis
    using find_entry [OF assms(1) [unfolded get_all_model_ids_def] x(1,3)]
    by (simp add: resolve_model_id_def)
qed

section \<open>Facts about sending\<close>

lemma all_nat_split: "(\<forall>n. P n) \<longleftrightarrow> P 0 \<and> (\<forall>n. P (Suc n))"
  by (metis not0_implies_Suc)

lemma send_loop_spec:
  assumes "send_loop exchange left attempt failed = (r, n)"
  shows "n \<le> left \<and> (\<forall>i. Suc i < n \<longrightarrow> exchange (attempt + i) = SendClientError) \<and>
    (case r of
       Sent x \<Rightarrow> 0 < n \<and> exchange (attempt + n - 1) = SendOk x
     | GaveUp \<Rightarrow> n = left \<and> (failed \<or> 0 < n) \<and> (\<forall>i < n. exchange (attempt + i) = SendClientError)
     | SendFailed x \<Rightarrow> n = 0 \<and> left = 0 \<and> \<not> failed \<or> 0 < n \<and> exchange (attempt + n - 1) = SendRaises x)"
  using assms
proof (induction exchange left attempt failed arbitrary: r n rule: send_loop.induct)
  case (2 exchange left attempt failed)
  show ?case
  proof (cases "exchange attempt")
    case SendClientError
    obtain r' n' where l: "send_loop exchange left (Suc attempt) True = (r', n')" by fastforce
    then have rn: "r = r'" "n = Suc n'" using "2.prems" SendClientError by auto
    have shift: "(\<forall>i. P i \<longrightarrow> exchange (attempt + i) = SendClientError) \<longleftrightarrow>
        (\<forall>i. P (Suc i) \<longrightarrow> exchange (Suc attempt + i) = SendClientError)" for P
      using all_nat_split [of "\<lambda>i. P i \<longrightarrow> exchange (attempt + i) = SendClientError"] SendClientError
      by simp
    show ?thesis
      using "2.IH" [OF SendClientError l] SendClientError unfolding rn
      by (cases r') (simp_all add: shift)
  qed (use "2.prems" in auto)
qed auto

section \<open>Properties\<close>

text \<open>C16. The index of external models is exact: a manager built from a list of provider documents knows a
  model id exactly when some provider lists it as a model or an alias; providers that list the
  same id have the same name, and that name is reported; the adapter found for an id belongs to a
  provider that lists it; and if that provider's ids are pairwise different, the adapter rewrites
  the id to the same canonical model that the manager reports.\<close>

theorem external_index_exact:
  assumes "create_external_provider_manager getenv ds = Inr g"
  shows "\<exists>cs. map external_provider_from_dict ds = map Inr cs \<and>
    (\<forall>m. is_external_model g m \<longleftrightarrow> (\<exists>c \<in> set cs. m \<in> set (get_all_model_ids c))) \<and>
    (\<forall>c \<in> set cs. \<forall>m \<in> set (get_all_model_ids c). get_provider_name g m = Some (xp_name c)) \<and>
    (\<forall>m a. lookup_adapter g m = Some a \<longrightarrow>
       op_config a \<in> set cs \<and> m \<in> set (get_all_model_ids (op_config a)) \<and>
       (distinct (get_all_model_ids (op_config a)) \<longrightarrow>
          get_canonical_model_id g m = resolve_model_id (op_config a) m))"
proof -
  have "indexed [] manager_init" by (simp add: indexed_def manager_init_def)
  then obtain cs where cs: "map external_provider_from_dict ds = map Inr cs" and i: "indexed cs g"
    using create_loop_indexed [OF assms [unfolded create_external_provider_manager_def]] by fastforce
  have ext: "\<exists>c \<in> set cs. m \<in> set (get_all_model_ids c)" if "is_external_model g m" for m
    using that i by (force simp: is_external_model_def indexed_def fst_config_entries [symmetric])
  have names: "get_provider_name g m = Some (xp_name c)"
    if "c \<in> set cs" "m \<in> set (get_all_model_ids c)" for c m
    using i that by (simp add: indexed_def)
  have ad: "op_config a \<in> set cs \<and> m \<in> set (get_all_model_ids (op_config a)) \<and>
       (distinct (get_all_model_ids (op_config a)) \<longrightarrow>
          get_canonical_model_id g m = resolve_model_id (op_config a) m)"
    if l: "lookup_adapter g m = Some a" for m a
  proof -
    obtain p c where e: "map_of (xg_model_index g) m = Some (p, a, c)"
      using l by (auto simp: lookup_adapter_def)
    then have m: "op_config a \<in> set cs" "(m, c) \<in> set (config_entries (op_config a))"
      using i by (auto simp: indexed_def)
    then have "m \<in> set (get_all_model_ids (op_config a))"
      using fst_config_entries [of "op_config a"] by force
    then show ?thesis
      using m e resolve_model_id_entry [of "op_config a" m c] by (simp add: get_canonical_model_id_def)
  qed
  show ?thesis
    using cs ext names ad
    by (intro exI [of _ cs]) (fastforce simp: is_external_model_def get_provider_name_def)
qed

text \<open>A provider with one model and one alias, for the witnesses.\<close>

definition raw_provider_example :: raw_provider where
  "raw_provider_example = \<lparr>rp_name = Some ''p'', rp_type = Some ''openai'', rp_api_base = Some ''http://x'',
     rp_models = Some [\<lparr>rm_id = Some ''gpt'', rm_type = None, rm_aliases = Some [''g'']\<rparr>],
     rp_api_key_env_var = None, rp_timeout = None, rp_max_retries = Some 2, rp_custom_headers = None\<rparr>"

definition provider_example :: ExternalProviderConfig where
  "provider_example = \<lparr>xp_name = ''p'', xp_type = ''openai'', xp_api_base = ''http://x'',
     xp_models = [\<lparr>xm_id = ''gpt'', xm_type = ''chat'', xm_aliases = [''g'']\<rparr>],
     xp_api_key_env_var = None, xp_timeout = 30, xp_max_retries = 2, xp_custom_headers = []\<rparr>"

theorem external_index_exact_witness:
  "\<exists>g. create_external_provider_manager (\<lambda>v. Some ''key'') [raw_provider_example] = Inr g \<and>
     is_external_model g ''g'' \<and> get_provider_name g ''g'' = Some ''p'' \<and> \<not> is_external_model g ''h''"
proof -
  have p: "external_provider_from_dict raw_provider_example = Inr provider_example"
    by (simp add: external_provider_from_dict_def external_model_from_dict_def raw_provider_example_def
        provider_example_def required_def or_default_def)
  obtain g where g: "create_external_provider_manager (\<lambda>v. Some ''key'') [raw_provider_example] = Inr g"
    by (simp add: create_external_provider_manager_def p register_provider_def openai_init_def
        get_api_key_def or_default_def provider_example_def ADAPTER_REGISTRY_def config_entries_def
        register_model_id_def manager_init_def)
  have ids: "set (get_all_model_ids provider_example) = {''gpt'', ''g''}"
    by (simp add: get_all_model_ids_def provider_example_def)
  obtain cs where cs: "map external_provider_from_dict [raw_provider_example] = map Inr cs"
    "\<forall>m. is_external_model g m \<longleftrightarrow> (\<exists>c \<in> set cs. m \<in> set (get_all_model_ids c))"
    "\<forall>c \<in> set cs. \<forall>m \<in> set (get_all_model_ids c). get_provider_name g m = Some (xp_name c)"
    using external_index_exact [OF g] by blast
  have "cs = [provider_example]" using cs(1) p by (cases cs) auto
  then show ?thesis using g cs(2,3) ids by (simp add: provider_example_def)
qed

text \<open>C17. Retries to an external provider are bounded and only follow transport errors: at most one request
  more than the configured number of retries is made, every request but the last ended in a
  transport error, an answer is the one of the last request, and the adapter gives up only after
  using all of them.\<close>

theorem external_retries_bounded:
  assumes "openai_send_request post a endpoint payload stream = (r, n)"
  shows "n \<le> nat (xp_max_retries (op_config a) + 1) \<and>
    (\<forall>i. Suc i < n \<longrightarrow> provider_exchange post a endpoint payload stream i = SendClientError) \<and>
    (case r of
       Sent x \<Rightarrow> 0 < n \<and> provider_exchange post a endpoint payload stream (n - 1) = SendOk x
     | GaveUp \<Rightarrow> n = nat (xp_max_retries (op_config a) + 1)
     | SendFailed x \<Rightarrow> n = 0 \<and> xp_max_retries (op_config a) < 0 \<or>
                       0 < n \<and> provider_exchange post a endpoint payload stream (n - 1) = SendRaises x)"
  using send_loop_spec [OF assms [unfolded openai_send_request_def]]
  by (auto split: send_result.splits)

theorem external_retries_bounded_witness:
  "\<exists>r n. openai_send_request (\<lambda>u hs b st i. if i = 0 then SendClientError else SendRaises IndexError)
      \<lparr>op_config = provider_example, op_api_key = None\<rparr> ''/v1/completions'' [] False = (r, n) \<and> n \<le> 3"
proof -
  let ?a = "\<lparr>op_config = provider_example, op_api_key = None\<rparr>"
  obtain r n where r: "openai_send_request (\<lambda>u hs b st i. if i = 0 then SendClientError else SendRaises IndexError)
      ?a ''/v1/completions'' [] False = (r, n)" by fastforce
  then show ?thesis using external_retries_bounded [OF r] by (simp add: provider_example_def)
qed

end
