(* ===== verification/General_Request.thy ===== *)
theory General_Request
  imports Routers Disagg_Request External_Providers
begin

text \<open>
  The request handler \<^verbatim>\<open>route_general_request\<close> of
  \<^verbatim>\<open>src/src/vllm_router/services/request_service/request.py\<close>, with
  \<^verbatim>\<open>process_external_provider_request\<close>: validation, callbacks, rewriting, aliases, external
  models, endpoint selection, routing, failover and the reply. Pluggable code (callback, request
  rewriter) is a parameter: a rewriter answers with the text of a JSON object or with text that is
  not JSON. Bodies are kept as JSON values, so the content length of a changed body, a hop-by-hop
  header that is dropped on the way to the backend, is not represented.
\<close>

section \<open>The request and its environment\<close>

record request =
  rq_headers :: headers
  rq_body :: "payload option"
  rq_query_id :: "string option"

record 't proxy_env =
  pe_uuid :: string
  pe_md5 :: "string \<Rightarrow> string"
  pe_clock :: time
  pe_str :: "json \<Rightarrow> string"
  pe_callback :: "(payload option \<Rightarrow> body \<Rightarrow> response option) option"
  pe_rewriter :: "(payload option \<Rightarrow> json \<Rightarrow> string \<Rightarrow> body option) option"
  pe_kv :: "'t kv_env"
  pe_xxh :: "string \<Rightarrow> int"
  pe_pick :: "url set \<Rightarrow> url"
  pe_backend :: "nat \<Rightarrow> url \<Rightarrow> attempt_env"
  pe_fmt_g :: "real \<Rightarrow> string"
  pe_timeout :: "ClientTimeout option"
  pe_provider_post :: "url \<Rightarrow> headers \<Rightarrow> body \<Rightarrow> bool \<Rightarrow> nat \<Rightarrow> send_outcome"
  pe_post :: "url \<Rightarrow> body \<Rightarrow> exchange"
  pe_prefill :: "url \<Rightarrow> string \<Rightarrow> body \<Rightarrow> phase_failure option"
  pe_decode :: "url \<Rightarrow> string \<Rightarrow> body \<Rightarrow> string list \<times> phase_failure option"
  pe_show :: "py_exn \<Rightarrow> string"

text \<open>The part of the application state that the handler reads and changes.\<close>

record ('r, 't) proxy =
  px_router :: "('r, 't) router_instance"
  px_discovery :: "discovery option"
  px_registry :: "ExternalProviderManager option"
  px_monitor :: RequestStatsMonitor
  px_clients :: app_clients

definition error_reply :: "int \<Rightarrow> string \<Rightarrow> string \<Rightarrow> client_reply" where
  "error_reply status msg rid =
     ReplyJson (JSONResponse status (JObj [(''error'', JStr msg)]) [(''X-Request-Id'', rid)])"

section \<open>Models named by JSON values\<close>

text \<open>A list or an object cannot be looked up in a dictionary or a set.\<close>

fun hashable :: "json \<Rightarrow> bool" where
  "hashable (JList _) = False"
| "hashable (JObj _) = False"
| "hashable _ = True"

fun names_model :: "json \<Rightarrow> string \<Rightarrow> bool" where
  "names_model (JStr s) m = (s = m)"
| "names_model _ m = False"

text \<open>\<^verbatim>\<open>requested_model in x.model_names\<close>.\<close>

definition serves :: "EndpointInfo \<Rightarrow> json \<Rightarrow> bool" where
  "serves e model = list_ex (names_model model) (model_names e)"

text \<open>The alias of a model, if aliases are configured.\<close>

definition lookup_alias :: "(string, string) dict \<Rightarrow> json \<Rightarrow> string option result" where
  "lookup_alias aliases model =
     (if aliases = [] then Inr None
      else if \<not> hashable model then Inl (TypeError ''unhashable type'')
      else Inr (case model of JStr s \<Rightarrow> map_of aliases s | _ \<Rightarrow> None))"

definition registry_owns :: "ExternalProviderManager option \<Rightarrow> json \<Rightarrow> bool result" where
  "registry_owns reg model = (case reg of
     None \<Rightarrow> Inr False
   | Some g \<Rightarrow> if \<not> hashable model then Inl (TypeError ''unhashable type'')
              else Inr (case model of JStr s \<Rightarrow> is_external_model g s | _ \<Rightarrow> False))"

text \<open>\<^verbatim>\<open>has_ever_seen_model\<close>: the static list is searched, the set of known models is hashed.\<close>

fun ever_seen :: "discovery \<Rightarrow> json \<Rightarrow> bool result" where
  "ever_seen (PodIPD s) model =
     (if \<not> hashable model then Inl (TypeError ''unhashable type'')
      else Inr (case model of JStr m \<Rightarrow> pod_has_ever_seen_model s m | _ \<Rightarrow> False))"
| "ever_seen (StaticD s) model =
     (if \<not> hashable model \<and> discovery_aliases (StaticD s) \<noteq> [] then Inl (TypeError ''unhashable type'')
      else Inr (case model of JStr m \<Rightarrow> static_has_ever_seen_model s m | _ \<Rightarrow> False))"
| "ever_seen _ model = Inr False"

text \<open>A query parameter that is not empty names one engine.\<close>

definition pinned_request :: "request \<Rightarrow> bool" where
  "pinned_request rq = (rq_query_id rq \<noteq> None \<and> rq_query_id rq \<noteq> Some [])"

text \<open>The engines a request may go to: they serve the model and are awake.\<close>

definition candidates :: "request \<Rightarrow> json \<Rightarrow> EndpointInfo list \<Rightarrow> EndpointInfo list" where
  "candidates rq model eps =
     (if pinned_request rq
      then filter (\<lambda>e. serves e model \<and> Some (ep_Id e) = rq_query_id rq \<and> \<not> sleep e) eps
      else filter (\<lambda>e. serves e model \<and> \<not> sleep e) eps)"

text \<open>The statistics for the router; a request that names its engine needs none.\<close>

definition request_snapshot ::
  "request \<Rightarrow> RequestStatsMonitor \<Rightarrow> time \<Rightarrow> request_stats result \<times> RequestStatsMonitor" where
  "request_snapshot rq m now = (if pinned_request rq then (Inr [], m) else get_request_stats m now)"

section \<open>External models\<close>

definition external_headers :: "string \<Rightarrow> headers \<Rightarrow> headers" where
  "external_headers rid hs =
     dict_update_all [(''X-Request-Id'', rid)] (filter (\<lambda>(k, v). str_lower k \<noteq> ''content-type'') hs)"

definition process_external_provider_request ::
  "(url \<Rightarrow> headers \<Rightarrow> body \<Rightarrow> bool \<Rightarrow> nat \<Rightarrow> send_outcome) \<Rightarrow> ExternalProviderManager \<Rightarrow> string \<Rightarrow> body \<Rightarrow> string
     \<Rightarrow> client_reply" where
  "process_external_provider_request post g endpoint b rid =
     (let model = dict_get b ''model'' JNull; failed = ReplyRaise (HTTPException 502 ''External provider request failed'') in
      if \<not> hashable model then ReplyRaise (TypeError ''unhashable type'')
      else case (case model of JStr m \<Rightarrow> lookup_adapter g m | _ \<Rightarrow> None) of
        None \<Rightarrow> failed
      | Some a \<Rightarrow>
        (case fst (openai_send_request post a endpoint b (py_truthy (dict_get b ''stream'' (JBool False)))) of
           Sent r \<Rightarrow>
             if xr_is_stream r
             then ReplyChunks (xr_status_code r) (external_headers rid (xr_headers r))
                    (dict_get (xr_headers r) ''content-type'' ''text/event-stream'') (map Raw (xr_chunks r))
             else ReplyJson (JSONResponse (xr_status_code r) (xr_body r) (external_headers rid (xr_headers r)))
         | _ \<Rightarrow> failed))"

section \<open>Routing\<close>

text \<open>
  The call to the installed router, with the body it leaves behind: the priority router writes the
  resolved priority into it.
\<close>

definition routed_body :: "('r, 't) router \<Rightarrow> headers \<Rightarrow> body \<Rightarrow> body" where
  "routed_body r hs b = (case r of
     Priority s \<Rightarrow> dict_set b (priority_field s) (JInt (extract_priority s hs b))
   | _ \<Rightarrow> b)"

text \<open>What the outcome of the failover loop is to the client.\<close>

definition reply_of_loop ::
  "(real \<Rightarrow> string) \<Rightarrow> ClientTimeout option \<Rightarrow> string \<Rightarrow> loop_result \<Rightarrow> client_reply" where
  "reply_of_loop fmt_g timeout rid r = (case r of
     LoopStream u h is_streaming status hs \<Rightarrow>
       ReplyStream status (response_headers_of hs rid)
         (case header_get hs ''content-type'' of None \<Rightarrow> ''text/event-stream'' | Some v \<Rightarrow> v) u h is_streaming
   | LoopExhausted e \<Rightarrow>
       if is_connect_error e then ReplyJson (backend_connect_error_response rid) else ReplyBackend e
   | LoopTimeout u e \<Rightarrow>
       ReplyJson (pre_header_timeout_response fmt_g rid (resolve_backend_client_timeout timeout) e)
   | LoopRaise x \<Rightarrow> ReplyRaise x
   | LoopCancelled expired \<Rightarrow> ReplyBackend (Cancelled expired)
   | LoopUnbound \<Rightarrow> ReplyRaise (RuntimeError ''UnboundLocalError''))"

text \<open>
  Routing and failover over a non-empty list of selected endpoints. A request that names an engine
  skips the router. Every router answers with an endpoint on a non-empty list, so the exception
  for a missing answer is never raised.
\<close>

definition route_and_proxy ::
  "'r ring_ops \<Rightarrow> 't proxy_env \<Rightarrow> string \<Rightarrow> request \<Rightarrow> string \<Rightarrow> payload \<Rightarrow> body \<Rightarrow> EndpointInfo list
     \<Rightarrow> request_stats \<Rightarrow> ('r, 't) proxy \<Rightarrow> client_reply \<times> ('r, 't) proxy" where
  "route_and_proxy R env endpoint rq rid raw b eps stats px =
     (let inst = px_router px; pinned = pinned_request rq;
          ctx = (pe_kv env, stats, rq_headers rq, b);
          (choice, r1) =
            (if pinned then (Inr (Some (ep_url (hd eps))), ri_router inst)
             else router_route R (pe_xxh env) (pe_pick env) (ri_router inst) eps ctx);
          px1 = px\<lparr>px_router := inst\<lparr>ri_router := r1\<rparr>\<rparr>
      in case choice of
           Inl x \<Rightarrow> (ReplyRaise x, px1)
         | Inr None \<Rightarrow> (ReplyRaise (TypeError ''unsupported operand type(s) for +''), px1)
         | Inr (Some url) \<Rightarrow>
           (let b1 = (if pinned then b else routed_body (ri_router inst) (rq_headers rq) b);
                raw1 = (case ri_router inst of Priority _ \<Rightarrow> json_dumps (JObj b1) | _ \<Rightarrow> raw);
                (res, tried, r2, m2) =
                  failover (router_route R (pe_xxh env) (pe_pick env)) (pe_kv env, stats, rq_headers rq, b1)
                    pinned eps raw1 rid (pe_backend env)
                    (max_attempts (opt_default (ri_max_reroutes inst) 0)) 0 url [] None r1 (px_monitor px)
            in (reply_of_loop (pe_fmt_g env) (pe_timeout env) rid res,
                px\<lparr>px_router := inst\<lparr>ri_router := r2\<rparr>, px_monitor := m2\<rparr>)))"

section \<open>The handler\<close>

text \<open>The listing of service discovery, and the model, body and text after alias replacement.\<close>

definition resolve_target ::
  "'t proxy_env \<Rightarrow> ('r, 't) proxy \<Rightarrow> json \<Rightarrow> payload \<Rightarrow> body
     \<Rightarrow> (discovery \<times> EndpointInfo list \<times> json \<times> payload \<times> body) result" where
  "resolve_target env px model raw b =
     result_bind (get_service_discovery (px_discovery px)) (\<lambda>d.
     result_bind (discovery_endpoints (pe_md5 env) \<lfloor>pe_clock env\<rfloor> d) (\<lambda>eps.
     result_bind (lookup_alias (discovery_aliases d) model) (\<lambda>al. case al of
        None \<Rightarrow> Inr (d, eps, model, raw, b)
      | Some m \<Rightarrow> (let b1 = dict_set b ''model'' (JStr m) in Inr (d, eps, JStr m, json_dumps (JObj b1), b1)))))"

text \<open>A model of the local engines: 404 or 503 without a candidate, otherwise routing.\<close>

definition route_local ::
  "'r ring_ops \<Rightarrow> 't proxy_env \<Rightarrow> string \<Rightarrow> request \<Rightarrow> string \<Rightarrow> discovery \<Rightarrow> EndpointInfo list \<Rightarrow> json \<Rightarrow> payload
     \<Rightarrow> body \<Rightarrow> ('r, 't) proxy \<Rightarrow> client_reply \<times> ('r, 't) proxy" where
  "route_local R env endpoint rq rid d all_eps model raw b px = (case ever_seen d model of
     Inl x \<Rightarrow> (ReplyRaise x, px)
   | Inr existed \<Rightarrow>
     (let eps = candidates rq model all_eps;
          (snapshot, m1) = request_snapshot rq (px_monitor px) (pe_clock env);
          px1 = px\<lparr>px_monitor := m1\<rparr>
      in case snapshot of
           Inl x \<Rightarrow> (ReplyRaise x, px1)
         | Inr stats \<Rightarrow>
             if eps = [] then
               (if existed
                then (error_reply 503 (''Model '' @ pe_str env model @ '' is temporarily unavailable. Please try again later.'') rid, px1)
                else (error_reply 404 (''Model '' @ pe_str env model @ '' not found. Available models can be listed at /v1/models.'') rid, px1))
             else route_and_proxy R env endpoint rq rid raw b eps stats px1))"

definition select_and_route ::
  "'r ring_ops \<Rightarrow> 't proxy_env \<Rightarrow> string \<Rightarrow> request \<Rightarrow> string \<Rightarrow> json \<Rightarrow> payload \<Rightarrow> body
     \<Rightarrow> ('r, 't) proxy \<Rightarrow> client_reply \<times> ('r, 't) proxy" where
  "select_and_route R env endpoint rq rid model raw b px = (case resolve_target env px model raw b of
     Inl x \<Rightarrow> (ReplyRaise x, px)
   | Inr (d, all_eps, model1, raw1, b1) \<Rightarrow>
     (case registry_owns (px_registry px) model1 of
        Inl x \<Rightarrow> (ReplyRaise x, px)
      | Inr True \<Rightarrow>
          (process_external_provider_request (pe_provider_post env) (the (px_registry px)) endpoint b1 rid, px)
      | Inr False \<Rightarrow> route_local R env endpoint rq rid d all_eps model1 raw1 b1 px))"

definition rewrite_and_route ::
  "'r ring_ops \<Rightarrow> 't proxy_env \<Rightarrow> string \<Rightarrow> request \<Rightarrow> string \<Rightarrow> json \<Rightarrow> body \<Rightarrow> ('r, 't) proxy
     \<Rightarrow> client_reply \<times> ('r, 't) proxy" where
  "rewrite_and_route R env endpoint rq rid model b px = (case pe_rewriter env of
     None \<Rightarrow> select_and_route R env endpoint rq rid model (JsonText (JObj b)) b px
   | Some rw \<Rightarrow>
     (case rw (rq_body rq) model endpoint of
        None \<Rightarrow> (ReplyRaise (HTTPException 400 ''Request body is not JSON parsable.''), px)
      | Some b' \<Rightarrow> select_and_route R env endpoint rq rid model (JsonText (JObj b')) b' px))"

definition pre_request :: "'t proxy_env \<Rightarrow> request \<Rightarrow> body \<Rightarrow> response option" where
  "pre_request env rq b = (case pe_callback env of None \<Rightarrow> None | Some cb \<Rightarrow> cb (rq_body rq) b)"

definition route_backend_request ::
  "'r ring_ops \<Rightarrow> 't proxy_env \<Rightarrow> string \<Rightarrow> request \<Rightarrow> ('r, 't) proxy \<Rightarrow> client_reply \<times> ('r, 't) proxy" where
  "route_backend_request R env endpoint rq px =
     (let rid = request_id_of (rq_headers rq) (pe_uuid env) in
      case (case rq_body rq of None \<Rightarrow> Some (JObj []) | Some p \<Rightarrow> json_loads p) of
        None \<Rightarrow> (error_reply 400 ''Invalid request: request body must be valid JSON.'' rid, px)
      | Some (JObj b) \<Rightarrow>
        (case pre_request env rq b of
           Some r \<Rightarrow>
             (ReplyJson (JSONResponse (resp_status r) (resp_content r)
                (dict_set (resp_headers r) ''X-Request-Id'' rid)), px)
         | None \<Rightarrow>
           (let model = dict_get b ''model'' JNull in
            if model = JNull
            then (error_reply 400 ''Invalid request: missing 'model' in request body.'' rid, px)
            else rewrite_and_route R env endpoint rq rid model b px))
      | Some _ \<Rightarrow> (error_reply 400 ''Invalid request: request body must be a JSON object.'' rid, px))"

text \<open>The entry point: the two disaggregated routers have their own handlers.\<close>

definition app_clients_of :: "('r, 't) proxy \<Rightarrow> app_clients" where
  "app_clients_of px = (case px_discovery px of Some (PodIPD s) \<Rightarrow> pd_clients s | _ \<Rightarrow> px_clients px)"

definition listed_endpoints :: "'t proxy_env \<Rightarrow> ('r, 't) proxy \<Rightarrow> EndpointInfo list result" where
  "listed_endpoints env px = result_bind (get_service_discovery (px_discovery px))
     (discovery_endpoints (pe_md5 env) \<lfloor>pe_clock env\<rfloor>)"

definition route_general_request ::
  "'r ring_ops \<Rightarrow> 't proxy_env \<Rightarrow> string \<Rightarrow> request \<Rightarrow> ('r, 't) proxy \<Rightarrow> client_reply \<times> ('r, 't) proxy" where
  "route_general_request R env endpoint rq px = (case ri_router (px_router px) of
     Disagg s \<Rightarrow>
       (fst (route_disaggregated_prefill_request (pe_prefill env) (pe_decode env) endpoint (rq_headers rq)
          (pe_uuid env) (case rq_body rq of None \<Rightarrow> NotJson | Some p \<Rightarrow> p) (app_clients_of px)), px)
   | Orchestrated s \<Rightarrow>
       (case route_orchestrated_disaggregated_request (pe_post env) (pe_show env) endpoint
          (listed_endpoints env px) (rq_headers rq) (pe_uuid env)
          (case rq_body rq of None \<Rightarrow> NotJson | Some p \<Rightarrow> p) s of
          ((reply, sent), s') \<Rightarrow>
            (reply, px\<lparr>px_router := (px_router px)\<lparr>ri_router := Orchestrated s'\<rparr>\<rparr>))
   | _ \<Rightarrow> route_backend_request R env endpoint rq px)"

section \<open>Facts\<close>

lemma candidates_subset:
  "e \<in> set (candidates rq model eps) \<Longrightarrow>
     e \<in> set eps \<and> serves e model \<and> \<not> sleep e \<and> (pinned_request rq \<longrightarrow> Some (ep_Id e) = rq_query_id rq)"
  by (auto simp: candidates_def split: if_splits)

lemma reply_of_loop_stream:
  "reply_of_loop fmt_g t rid r = ReplyStream st hs media u h str \<longleftrightarrow>
     (\<exists>bhs. r = LoopStream u h str st bhs \<and> hs = response_headers_of bhs rid \<and>
        media = (case header_get bhs ''content-type'' of None \<Rightarrow> ''text/event-stream'' | Some v \<Rightarrow> v))"
  by (cases r) (auto simp: reply_of_loop_def)

text \<open>Routing and proxying ends before the loop, or with the reply for the loop's result.\<close>

lemma route_and_proxy_cases:
  assumes "route_and_proxy R env endpoint rq rid raw b eps stats px = (reply, px')"
  obtains (unrouted) x r1 where "reply = ReplyRaise x"
      "px' = px\<lparr>px_router := (px_router px)\<lparr>ri_router := r1\<rparr>\<rparr>"
      "snd (router_route R (pe_xxh env) (pe_pick env) (ri_router (px_router px)) eps
         (pe_kv env, stats, rq_headers rq, b)) = r1"
  | (looped) url r1 b1 raw1 n res tried r2 m2 where
      "if pinned_request rq then url = ep_url (hd eps) \<and> r1 = ri_router (px_router px)
       else router_route R (pe_xxh env) (pe_pick env) (ri_router (px_router px)) eps
         (pe_kv env, stats, rq_headers rq, b) = (Inr (Some url), r1)"
      "failover (router_route R (pe_xxh env) (pe_pick env)) (pe_kv env, stats, rq_headers rq, b1)
         (pinned_request rq) eps raw1 rid (pe_backend env) n 0 url [] None r1 (px_monitor px) = (res, tried, r2, m2)"
      "reply = reply_of_loop (pe_fmt_g env) (pe_timeout env) rid res"
      "px' = px\<lparr>px_router := (px_router px)\<lparr>ri_router := r2\<rparr>, px_monitor := m2\<rparr>"
proof -
  let ?ctx = "(pe_kv env, stats, rq_headers rq, b)"
  let ?b1 = "if pinned_request rq then b else routed_body (ri_router (px_router px)) (rq_headers rq) b"
  let ?raw1 = "case ri_router (px_router px) of Priority _ \<Rightarrow> json_dumps (JObj ?b1) | _ \<Rightarrow> raw"
  let ?n = "max_attempts (opt_default (ri_max_reroutes (px_router px)) 0)"
  obtain choice r1 where c: "(if pinned_request rq then (Inr (Some (ep_url (hd eps))), ri_router (px_router px))
      else router_route R (pe_xxh env) (pe_pick env) (ri_router (px_router px)) eps ?ctx) = (choice, r1)"
    by fastforce
  show thesis
  proof (cases "\<exists>url. choice = Inr (Some url)")
    case True
    then obtain url where url: "choice = Inr (Some url)" by blast
    obtain res tried r2 m2 where f: "failover (router_route R (pe_xxh env) (pe_pick env))
        (pe_kv env, stats, rq_headers rq, ?b1) (pinned_request rq) eps ?raw1 rid (pe_backend env) ?n 0 url [] None
        r1 (px_monitor px) = (res, tried, r2, m2)"
      by (metis surj_pair)
    show thesis
      by (rule looped [OF _ f]) (use assms c url f in \<open>auto simp: route_and_proxy_def split: if_splits\<close>)
  next
    case False
    then obtain x where "reply = ReplyRaise x" "px' = px\<lparr>px_router := (px_router px)\<lparr>ri_router := r1\<rparr>\<rparr>"
      using assms c by (auto simp: route_and_proxy_def split: sum.splits option.splits)
    moreover have "\<not> pinned_request rq" using c False by (auto split: if_splits)
    ultimately show thesis using unrouted c by simp
  qed
qed

lemma route_local_cases:
  assumes "route_local R env endpoint rq rid d all_eps model raw b px = (reply, px')"
  obtains (raised) x where "reply = ReplyRaise x"
      "px' = px \<or> px' = px\<lparr>px_monitor := snd (request_snapshot rq (px_monitor px) (pe_clock env))\<rparr>"
  | (missing) existed msg where "candidates rq model all_eps = []" "ever_seen d model = Inr existed"
      "reply = error_reply (if existed then 503 else 404) msg rid"
      "px' = px\<lparr>px_monitor := snd (request_snapshot rq (px_monitor px) (pe_clock env))\<rparr>"
  | (routed) stats m1 where "candidates rq model all_eps \<noteq> []"
      "request_snapshot rq (px_monitor px) (pe_clock env) = (Inr stats, m1)"
      "route_and_proxy R env endpoint rq rid raw b (candidates rq model all_eps) stats
         (px\<lparr>px_monitor := m1\<rparr>) = (reply, px')"
proof -
  obtain snap m1 where S: "request_snapshot rq (px_monitor px) (pe_clock env) = (snap, m1)" by fastforce
  show thesis
  proof (cases "ever_seen d model")
    case (Inl x)
    then show thesis using raised [of x] assms by (auto simp: route_local_def)
  next
    case E: (Inr existed)
    show thesis
    proof (cases snap)
      case (Inl x)
      then show thesis using raised [of x] assms E S by (auto simp: route_local_def)
    next
      case (Inr stats)
      then show thesis
        using routed missing assms E S by (cases "candidates rq model all_eps = []"; cases existed)
          (auto simp: route_local_def)
    qed
  qed
qed

lemma select_and_route_cases:
  assumes "select_and_route R env endpoint rq rid model raw b px = (reply, px')"
  obtains (raised) x where "reply = ReplyRaise x" "px' = px"
  | (external) g b1 where "px_registry px = Some g" "px' = px"
      "reply = process_external_provider_request (pe_provider_post env) g endpoint b1 rid"
  | (here) d all_eps model1 raw1 b1 where "resolve_target env px model raw b = Inr (d, all_eps, model1, raw1, b1)"
      "route_local R env endpoint rq rid d all_eps model1 raw1 b1 px = (reply, px')"
proof (cases "resolve_target env px model raw b")
  case (Inl x)
  then show thesis using raised [of x] assms by (auto simp: select_and_route_def)
next
  case T: (Inr t)
  obtain d all_eps model1 raw1 b1 where t: "t = (d, all_eps, model1, raw1, b1)" by (metis surj_pair)
  show thesis
  proof (cases "registry_owns (px_registry px) model1")
    case (Inl x)
    then show thesis using raised [of x] assms T t by (auto simp: select_and_route_def)
  next
    case (Inr owned)
    show thesis
    proof (cases owned)
      case True
      then obtain g where "px_registry px = Some g"
        using Inr by (auto simp: registry_owns_def split: option.splits)
      then show thesis using external [of g b1] assms T t Inr True by (auto simp: select_and_route_def)
    next
      case False
      then show thesis using here [OF T [unfolded t]] assms T t Inr by (auto simp: select_and_route_def)
    qed
  qed
qed

text \<open>A request is answered at once, or its body names a model that is then resolved.\<close>

lemma route_backend_request_cases:
  assumes "route_backend_request R env endpoint rq px = (reply, px')"
  obtains (refused) x where "px' = px" "reply = ReplyRaise x"
  | (answered) r where "px' = px" "reply = ReplyJson r" "pe_callback env = None \<Longrightarrow> resp_status r = 400"
  | (selected) b model b1 where "rq_body rq = Some (JsonText (JObj b))" "map_of b ''model'' = Some model"
      "pe_rewriter env = None \<Longrightarrow> b1 = b"
      "select_and_route R env endpoint rq (request_id_of (rq_headers rq) (pe_uuid env)) model
         (JsonText (JObj b1)) b1 px = (reply, px')"
proof -
  let ?rid = "request_id_of (rq_headers rq) (pe_uuid env)"
  let ?j = "case rq_body rq of None \<Rightarrow> Some (JObj []) | Some p \<Rightarrow> json_loads p"
  show thesis
  proof (cases "\<exists>b. ?j = Some (JObj b)")
    case False
    then have "px' = px \<and> (\<exists>msg. reply = error_reply 400 msg ?rid)"
      using assms by (auto simp: route_backend_request_def split: option.splits json.splits)
    then show thesis using answered by (auto simp: error_reply_def)
  next
    case True
    then obtain b where b: "?j = Some (JObj b)" by blast
    show thesis
    proof (cases "pre_request env rq b")
      case (Some r)
      then have "pe_callback env \<noteq> None" by (auto simp: pre_request_def split: option.splits)
      then show thesis using answered assms b Some by (auto simp: route_backend_request_def)
    next
      case cb: None
      show thesis
      proof (cases "dict_get b ''model'' JNull = JNull")
        case True
        then have "px' = px \<and> (\<exists>msg. reply = error_reply 400 msg ?rid)"
          using assms b cb by (simp add: route_backend_request_def) blast
        then show thesis using answered by (auto simp: error_reply_def)
      next
        case False
        then have m: "map_of b ''model'' = Some (dict_get b ''model'' JNull)"
          by (cases "map_of b ''model''") (auto simp: dict_get_def)
        have body: "rq_body rq = Some (JsonText (JObj b))"
          using b m by (auto split: option.splits elim: json_loads.elims)
        have r: "rewrite_and_route R env endpoint rq ?rid (dict_get b ''model'' JNull) b px = (reply, px')"
          using assms b cb False by (simp add: route_backend_request_def)
        show thesis
        proof (cases "pe_rewriter env")
          case None
          then show thesis using selected [OF body m] r by (simp add: rewrite_and_route_def)
        next
          case (Some rw)
          then show thesis
            using refused selected [OF body m] r
            by (cases "rw (rq_body rq) (dict_get b ''model'' JNull) endpoint") (auto simp: rewrite_and_route_def)
        qed
      qed
    qed
  qed
qed

definition resolved_model :: "discovery \<Rightarrow> json \<Rightarrow> json" where
  "resolved_model d model = (case lookup_alias (discovery_aliases d) model of
     Inr (Some m) \<Rightarrow> JStr m | _ \<Rightarrow> model)"

lemma resolve_target_ok:
  assumes "resolve_target env px model raw b = Inr (d, eps, model1, raw1, b1)"
  shows "px_discovery px = Some d \<and> discovery_endpoints (pe_md5 env) \<lfloor>pe_clock env\<rfloor> d = Inr eps \<and>
    model1 = resolved_model d model"
  using assms
  by (auto simp: resolve_target_def get_service_discovery_def resolved_model_def split: option.splits)

text \<open>The stream of a routed request comes from one of the candidates.\<close>

lemma route_and_proxy_stream:
  assumes "router_ok R (pe_pick env) (ri_router (px_router px))" "eps \<noteq> []"
    and "route_and_proxy R env endpoint rq rid raw b eps stats px = (ReplyStream st hs media u h str, px')"
  shows "u \<in> set (urls_of eps)"
  using assms(3)
proof (cases rule: route_and_proxy_cases)
  case (looped url r1 b1 raw1 n res tried r2 m2)
  have url: "url \<in> set (urls_of eps)"
    using looped(1) assms(1,2) any_router.route_sound [of R "pe_pick env"]
    by (auto split: if_splits)
  have ok: "router_ok R (pe_pick env) r1"
    using looped(1) assms(1) any_router.route_invar [of R "pe_pick env" "ri_router (px_router px)"]
    by (auto split: if_splits) (metis snd_conv)
  obtain bhs where "res = LoopStream u h str st bhs"
    using looped(3) [symmetric] by (auto simp: reply_of_loop_stream)
  then have "u \<in> set tried" using failover_stream_tried looped(2) by simp
  then show ?thesis using any_router.failover_no_repeat [OF looped(2) ok] url by auto
qed simp

lemma request_snapshot_frame:
  assumes "rsm_inv m"
  shows "rsm_inv (snd (request_snapshot rq m now))" "rsm_live (snd (request_snapshot rq m now)) = rsm_live m"
  using assms get_request_stats_inv [OF assms, of now] get_request_stats_frame [of m now]
  by (auto simp: request_snapshot_def rsm_live_def fun_eq_iff)

fun is_stream :: "client_reply \<Rightarrow> bool" where
  "is_stream (ReplyStream st hs media u h str) = True"
| "is_stream _ = False"

lemma error_reply_no_stream [simp]: "\<not> is_stream (error_reply st msg rid)"
  by (simp add: error_reply_def)

lemma process_external_no_stream [simp]:
  "\<not> is_stream (process_external_provider_request post g endpoint b rid)"
  by (auto simp: process_external_provider_request_def split: option.split send_result.split)

lemma disagg_no_stream [simp]:
  "\<not> is_stream (fst (route_disaggregated_prefill_request prefill decode endpoint hs uuid raw clients))"
  by (auto simp: route_disaggregated_prefill_request_def split: option.split sum.split prod.split)

lemma decode_reply_no_stream [simp]: "\<not> is_stream (decode_reply str a rid)"
  by (auto simp: decode_reply_def split: json_read.split)

lemma orchestrate_no_stream [simp]: "\<not> is_stream (fst (orchestrate post show endpoint pu du b rid))"
  by (auto simp: orchestrate_def split: exchange.split json_read.split sum.split)

lemma orchestrated_no_stream [simp]:
  "\<not> is_stream (fst (fst (route_orchestrated_disaggregated_request post show endpoint eps hs uuid raw s)))"
  by (auto simp: route_orchestrated_disaggregated_request_def
      split: option.split sum.split prod.split py_exn.split)

text \<open>The state a reply leaves behind: only a started stream adds a live attempt.\<close>

fun live_after :: "client_reply \<Rightarrow> (RequestHandle \<Rightarrow> (stage \<times> url) option) \<Rightarrow> RequestHandle \<Rightarrow> (stage \<times> url) option" where
  "live_after (ReplyStream st hs media u h str) live = live(h \<mapsto> (Prefill, u))"
| "live_after _ live = live"

fun fresh_in :: "client_reply \<Rightarrow> (RequestHandle \<Rightarrow> (stage \<times> url) option) \<Rightarrow> bool" where
  "fresh_in (ReplyStream st hs media u h str) live = (live h = None)"
| "fresh_in _ live = True"

lemma live_after_no_stream: "\<not> is_stream r \<Longrightarrow> live_after r f = f \<and> fresh_in r f"
  by (cases r) auto

definition proxy_ok :: "'r ring_ops \<Rightarrow> 't proxy_env \<Rightarrow> ('r, 't) proxy \<Rightarrow> bool" where
  "proxy_ok R env px \<longleftrightarrow> router_ok R (pe_pick env) (ri_router (px_router px)) \<and> rsm_inv (px_monitor px)"

definition accounted_reply :: "'r ring_ops \<Rightarrow> 't proxy_env \<Rightarrow> ('r, 't) proxy \<Rightarrow> client_reply \<Rightarrow> ('r, 't) proxy \<Rightarrow> bool" where
  "accounted_reply R env px reply px' \<longleftrightarrow> proxy_ok R env px' \<and>
     fresh_in reply (rsm_live (px_monitor px)) \<and>
     rsm_live (px_monitor px') = live_after reply (rsm_live (px_monitor px))"

lemma accounted_reply_same:
  assumes "proxy_ok R env px" "\<not> is_stream reply"
  shows "accounted_reply R env px reply px"
  using assms by (cases reply) (auto simp: accounted_reply_def)

lemma reply_of_loop_live:
  assumes "case res of
      LoopStream u h str st bhs \<Rightarrow> rsm_live m h = None \<and> rsm_live m' = (rsm_live m)(h \<mapsto> (Prefill, u))
    | _ \<Rightarrow> rsm_live m' = rsm_live m"
  shows "fresh_in (reply_of_loop fmt_g t rid res) (rsm_live m) \<and>
    rsm_live m' = live_after (reply_of_loop fmt_g t rid res) (rsm_live m)"
  using assms by (cases res) (auto simp: reply_of_loop_def)

lemma route_and_proxy_accounted:
  assumes "proxy_ok R env px" "route_and_proxy R env endpoint rq rid raw b eps stats px = (reply, px')"
  shows "accounted_reply R env px reply px'"
  using assms(2)
proof (cases rule: route_and_proxy_cases)
  case (unrouted x r1)
  then show ?thesis
    using assms(1) any_router.route_invar [of R "pe_pick env" "ri_router (px_router px)"]
    by (auto simp: accounted_reply_def proxy_ok_def)
next
  case (looped url r1 b1 raw1 n res tried r2 m2)
  have ok: "router_ok R (pe_pick env) r1"
    using looped(1) assms(1) any_router.route_invar [of R "pe_pick env" "ri_router (px_router px)"]
    by (auto simp: proxy_ok_def split: if_splits) (metis snd_conv)
  show ?thesis
    using looped(3,4) any_router.failover_invar [OF looped(2) ok] failover_monitor [OF looped(2)] assms(1)
      reply_of_loop_live [where res = res and m = "px_monitor px" and m' = m2]
    by (simp add: accounted_reply_def proxy_ok_def)
qed

lemma accounted_after_snapshot:
  assumes "proxy_ok R env px"
    and "accounted_reply R env (px\<lparr>px_monitor := snd (request_snapshot rq (px_monitor px) now)\<rparr>) reply px'"
  shows "accounted_reply R env px reply px'"
  using assms request_snapshot_frame by (auto simp: accounted_reply_def proxy_ok_def)

lemma proxy_ok_snapshot:
  "proxy_ok R env px \<Longrightarrow> proxy_ok R env (px\<lparr>px_monitor := snd (request_snapshot rq (px_monitor px) now)\<rparr>)"
  by (simp add: proxy_ok_def request_snapshot_frame)

lemma accounted_snapshot_same:
  assumes "proxy_ok R env px" "\<not> is_stream reply"
  shows "accounted_reply R env px reply (px\<lparr>px_monitor := snd (request_snapshot rq (px_monitor px) now)\<rparr>)"
  by (rule accounted_after_snapshot [OF assms(1)])
    (rule accounted_reply_same [OF proxy_ok_snapshot [OF assms(1)] assms(2)])

lemma route_local_accounted:
  assumes "proxy_ok R env px" "route_local R env endpoint rq rid d all_eps model raw b px = (reply, px')"
  shows "accounted_reply R env px reply px'"
  using assms(2)
proof (cases rule: route_local_cases)
  case (raised x)
  then show ?thesis
    using accounted_reply_same [OF assms(1), of reply] accounted_snapshot_same [OF assms(1), of reply] by auto
next
  case (missing existed msg)
  then show ?thesis using accounted_snapshot_same [OF assms(1), of reply] by simp
next
  case (routed stats m1)
  have m1: "m1 = snd (request_snapshot rq (px_monitor px) (pe_clock env))" using routed(2) by simp
  have "accounted_reply R env (px\<lparr>px_monitor := m1\<rparr>) reply px'"
    using route_and_proxy_accounted [OF _ routed(3)] proxy_ok_snapshot [OF assms(1)] m1 by simp
  then show ?thesis unfolding m1 by (rule accounted_after_snapshot [OF assms(1)])
qed

text \<open>A stream comes from the local engines.\<close>

lemma select_and_route_stream:
  assumes "select_and_route R env endpoint rq rid model raw b px = (reply, px')" "is_stream reply"
  obtains d all_eps model1 raw1 b1 stats m1 where
    "resolve_target env px model raw b = Inr (d, all_eps, model1, raw1, b1)"
    "candidates rq model1 all_eps \<noteq> []"
    "route_and_proxy R env endpoint rq rid raw1 b1 (candidates rq model1 all_eps) stats
       (px\<lparr>px_monitor := m1\<rparr>) = (reply, px')"
  using assms(1)
proof (cases rule: select_and_route_cases)
  case (here d all_eps model1 raw1 b1)
  from here(2) show thesis
  proof (cases rule: route_local_cases)
    case (routed stats m1)
    show thesis by (rule that [OF here(1) routed(1,3)])
  qed (use assms(2) in auto)
qed (use assms(2) in auto)

lemma route_backend_request_accounted:
  assumes "proxy_ok R env px" "route_backend_request R env endpoint rq px = (reply, px')"
  shows "accounted_reply R env px reply px'"
  using assms(2)
proof (cases rule: route_backend_request_cases)
  case (selected b model b1)
  from selected(4) show ?thesis
  proof (cases rule: select_and_route_cases)
    case (external g b2)
    then show ?thesis using accounted_reply_same [OF assms(1)] by simp
  next
    case (here d all_eps model1 raw1 b2)
    then show ?thesis using route_local_accounted [OF assms(1)] by blast
  qed (use accounted_reply_same [OF assms(1)] in auto)
qed (use accounted_reply_same [OF assms(1)] in auto)

text \<open>The JSON replies of the proxy itself are gateway errors.\<close>

lemma reply_of_loop_json:
  "reply_of_loop fmt_g t rid res = ReplyJson r \<Longrightarrow> resp_status r \<in> {502, 504}"
  by (auto simp: reply_of_loop_def backend_connect_error_response_def backend_error_response_def
      pre_header_timeout_response_def split: loop_result.splits if_splits backend_exn.splits)

lemma route_and_proxy_json:
  assumes "route_and_proxy R env endpoint rq rid raw b eps stats px = (ReplyJson r, px')"
  shows "resp_status r \<in> {502, 504}"
  using assms
proof (cases rule: route_and_proxy_cases)
  case (looped url r1 b1 raw1 n res tried r2 m2)
  show ?thesis by (rule reply_of_loop_json [OF looped(3) [symmetric]])
qed simp

lemma route_local_404:
  assumes "route_local R env endpoint rq rid d all_eps model raw b px = (ReplyJson r, px')" "resp_status r = 404"
  shows "ever_seen d model = Inr False"
  using assms(1)
proof (cases rule: route_local_cases)
  case (missing existed msg)
  then show ?thesis using assms(2) by (cases existed) (auto simp: error_reply_def)
next
  case (routed stats m1)
  then show ?thesis using route_and_proxy_json [OF routed(3)] assms(2) by simp
qed simp

lemma pod_aliases: "resolved_model (PodIPD s) model = model"
  by (simp add: resolved_model_def lookup_alias_def)

text \<open>A model the pod watch has not seen was not offered at any time.\<close>

lemma unseen_never_offered:
  assumes "ever_seen (PodIPD (pod_run uuid5 (evs1 @ evs2) (pod_init ns port pl dl))) model = Inr False"
    and "e \<in> set (pod_endpoints (pod_run uuid5 evs1 (pod_init ns port pl dl)))"
  shows "\<not> serves e model"
proof
  assume "serves e model"
  then obtain m where m: "model = JStr m" "m \<in> set (model_names e)"
    by (cases model) (auto simp: serves_def list_ex_iff)
  then have "pod_has_ever_seen_model (pod_run uuid5 (evs1 @ evs2) (pod_init ns port pl dl)) m"
    using pods.offered_then_seen [OF pod_init_ok, of e uuid5 evs1 ns port pl dl m evs2] assms(2)
    by (simp add: pod_run_def)
  then show False using assms(1) m by simp
qed

section \<open>Properties\<close>

text \<open>One registered pod, a round robin router and a backend that answers, for the witnesses.\<close>

definition env_example :: "unit proxy_env" where
  "env_example = \<lparr>pe_uuid = ''id'', pe_md5 = id, pe_clock = 1, pe_str = (\<lambda>j. []), pe_callback = None,
     pe_rewriter = None, pe_kv = kv_example, pe_xxh = (\<lambda>s. 0), pe_pick = Min,
     pe_backend = (\<lambda>n u. \<lparr>ae_start_time = 1, ae_fail_time = 2, ae_entry = EntryOk 200 []\<rparr>),
     pe_fmt_g = (\<lambda>r. []), pe_timeout = None, pe_provider_post = (\<lambda>u hs b s n. SendClientError),
     pe_post = (\<lambda>u b. PostFails True []), pe_prefill = (\<lambda>u e b. None),
     pe_decode = (\<lambda>u e b. ([], None)), pe_show = (\<lambda>x. [])\<rparr>"

definition pods_example :: PodIPDiscovery where
  "pods_example = pod_run id [serving_example ''p''] (pod_init ''ns'' ''80'' NoLabels NoLabels)"

definition proxy_example :: "(string list, unit) proxy" where
  "proxy_example = \<lparr>px_router = \<lparr>ri_router = RoundRobin rr_init, ri_max_reroutes = Some 1\<rparr>,
     px_discovery = Some (PodIPD pods_example), px_registry = None, px_monitor = rsm_start 10,
     px_clients = \<lparr>prefill_client = None, decode_client = None\<rparr>\<rparr>"

definition request_example :: "string \<Rightarrow> request" where
  "request_example m = \<lparr>rq_headers = [], rq_body = Some (JsonText (JObj [(''model'', JStr m)])), rq_query_id = None\<rparr>"

lemma pods_example_listing:
  "pod_endpoints pods_example = [pod_entry id ''ns'' ''80'' (serving_example ''p'') ''10.0.0.1'']"
  "pd_known_models pods_example = {''m''}"
proof -
  have v: "pod_verdict (serving_example ''p'') = Serves ''10.0.0.1''"
    and n: "get_model_names (pe_names_reply (serving_example ''p'')) = [''m'']"
    by (simp_all add: pod_verdict_def pod_serving_def serving_example_def check_pod_ready_def
        get_model_names_def models_data_def reply_json_def model_id_def)
  show "pod_endpoints pods_example = [pod_entry id ''ns'' ''80'' (serving_example ''p'') ''10.0.0.1'']"
    "pd_known_models pods_example = {''m''}"
    by (simp_all add: pods_example_def pod_run_def pod_watch_verdict v pod_endpoints_def pod_init_def pod_entry_def n)
qed

lemma pods_example_entry:
  "model_names (pod_entry id ''ns'' ''80'' (serving_example ''p'') ip) = [''m'']"
  "sleep (pod_entry id ''ns'' ''80'' (serving_example ''p'') ip) = False"
  "ep_url (pod_entry id ''ns'' ''80'' (serving_example ''p'') ip) = engine_url ip ''80''"
  by (simp_all add: pod_entry_def pod_endpoint_def get_model_names_def models_data_def reply_json_def
      model_id_def serving_example_def check_engine_sleep_mode_def)

lemmas example_defs = route_backend_request_def pre_request_def rewrite_and_route_def select_and_route_def
  resolve_target_def get_service_discovery_def lookup_alias_def registry_owns_def route_local_def
  request_example_def proxy_example_def env_example_def pods_example_listing candidates_def
  pinned_request_def serves_def pods_example_entry pod_has_ever_seen_model_def error_reply_def
  dict_get_def

text \<open>C8. Requests only reach engines that can serve them: when a stream is proxied, the request named a
  model, and the backend is the URL of an endpoint that service discovery lists, that offers this
  model (or what it is an alias of), that is not asleep and, if the request names an engine, is
  that engine.\<close>

theorem streams_come_from_serving_engines:
  assumes "router_ok R (pe_pick env) (ri_router (px_router px))"
    and "route_backend_request R env endpoint rq px = (ReplyStream st hs media u h str, px')"
  shows "\<exists>b model d eps e. rq_body rq = Some (JsonText (JObj b)) \<and> map_of b ''model'' = Some model \<and>
    px_discovery px = Some d \<and> discovery_endpoints (pe_md5 env) \<lfloor>pe_clock env\<rfloor> d = Inr eps \<and>
    e \<in> set eps \<and> ep_url e = u \<and> serves e (resolved_model d model) \<and> \<not> sleep e \<and>
    (pinned_request rq \<longrightarrow> Some (ep_Id e) = rq_query_id rq)"
  using assms(2)
proof (cases rule: route_backend_request_cases)
  case (selected b model b1)
  obtain d eps model1 raw1 b2 stats m1 where
    t: "resolve_target env px model (JsonText (JObj b1)) b1 = Inr (d, eps, model1, raw1, b2)" and
    c: "candidates rq model1 eps \<noteq> []" and
    r: "route_and_proxy R env endpoint rq (request_id_of (rq_headers rq) (pe_uuid env)) raw1 b2
      (candidates rq model1 eps) stats (px\<lparr>px_monitor := m1\<rparr>) = (ReplyStream st hs media u h str, px')"
    by (rule select_and_route_stream [OF selected(4)]) simp
  have "u \<in> set (urls_of (candidates rq model1 eps))"
    using route_and_proxy_stream [OF _ c r] assms(1) by simp
  then obtain e where e: "e \<in> set (candidates rq model1 eps)" "ep_url e = u" by auto
  then show ?thesis using selected(1,2) candidates_subset [OF e(1)] resolve_target_ok [OF t] by blast
qed auto

theorem streams_come_from_serving_engines_witness:
  "\<exists>st hs media u h str px'. route_backend_request first_ring env_example ''/v1/chat/completions''
      (request_example ''m'') proxy_example = (ReplyStream st hs media u h str, px') \<and>
     u = engine_url ''10.0.0.1'' ''80''"
proof -
  have ok: "router_ok first_ring (pe_pick env_example) (ri_router (px_router proxy_example))"
    by (simp add: proxy_example_def rr_ok_init)
  let ?r = "route_backend_request first_ring env_example ''/v1/chat/completions'' (request_example ''m'') proxy_example"
  have "\<exists>stats m. get_request_stats (rsm_start 10) 1 = (Inr stats, m)"
    by (simp add: get_request_stats_def rsm_start_def rsm_init_def)
  then have "is_stream (fst ?r)"
    by (auto simp: example_defs request_snapshot_def route_and_proxy_def rr_route_def rr_endpoint_key_def rr_init_def
        max_attempts_def opt_default_def eval_nat_numeral next_url_def attempt_start_def reply_of_loop_def
        lift_router_def split: prod.split)
  then obtain st hs media u h str px' where r: "?r = (ReplyStream st hs media u h str, px')"
    by (metis is_stream.elims(2) prod.collapse)
  have "u = engine_url ''10.0.0.1'' ''80''"
    using streams_come_from_serving_engines [OF ok r]
    by (auto simp: proxy_example_def pods_example_listing pods_example_entry)
  then show ?thesis using r by blast
qed

lemma route_general_request_accounted:
  assumes ok: "proxy_ok R env px" and r: "route_general_request R env endpoint rq px = (reply, px')"
  shows "accounted_reply R env px reply px'"
proof (cases "ri_router (px_router px)")
  case (Disagg s)
  then show ?thesis
    using r accounted_reply_same [OF ok] by (auto simp: route_general_request_def)
next
  case (Orchestrated s)
  let ?o = "route_orchestrated_disaggregated_request (pe_post env) (pe_show env) endpoint
    (listed_endpoints env px) (rq_headers rq) (pe_uuid env)
    (case rq_body rq of None \<Rightarrow> NotJson | Some p \<Rightarrow> p) s"
  have "reply = fst (fst ?o) \<and> px' = px\<lparr>px_router := (px_router px)\<lparr>ri_router := Orchestrated (snd ?o)\<rparr>\<rparr>"
    using r Orchestrated by (simp add: route_general_request_def case_prod_unfold)
  then show ?thesis
    using ok live_after_no_stream [OF orchestrated_no_stream] by (simp add: accounted_reply_def proxy_ok_def)
qed (rule route_backend_request_accounted [OF ok], use r in \<open>simp add: route_general_request_def\<close>)+

text \<open>C7. Every request keeps the proxy sound: with a router and a monitor that satisfy their invariants,
  whatever the request and its outcome, they satisfy them afterwards; no attempt of the request is
  left live, except when its stream is handed to the client: then exactly that attempt is, under
  a fresh handle and on the backend the stream comes from.\<close>

theorem requests_keep_proxy_sound:
  assumes "router_ok R (pe_pick env) (ri_router (px_router px))" "rsm_inv (px_monitor px)"
    and "route_general_request R env endpoint rq px = (reply, px')"
  shows "router_ok R (pe_pick env) (ri_router (px_router px')) \<and> rsm_inv (px_monitor px') \<and>
    fresh_in reply (rsm_live (px_monitor px)) \<and>
    rsm_live (px_monitor px') = live_after reply (rsm_live (px_monitor px))"
  using route_general_request_accounted [OF _ assms(3)] assms(1,2)
  by (simp add: accounted_reply_def proxy_ok_def)

theorem requests_keep_proxy_sound_witness:
  "\<exists>reply px'. route_general_request first_ring env_example ''/v1/chat/completions''
      (request_example ''m'') proxy_example = (reply, px') \<and> rsm_inv (px_monitor px')"
proof -
  obtain reply px' where r: "route_general_request first_ring env_example ''/v1/chat/completions''
      (request_example ''m'') proxy_example = (reply, px')" by fastforce
  have "router_ok first_ring (pe_pick env_example) (ri_router (px_router proxy_example))"
    "rsm_inv (px_monitor proxy_example)"
    by (simp_all add: proxy_example_def rr_ok_init rsm_inv_start)
  from requests_keep_proxy_sound [OF this r] show ?thesis using r by blast
qed



end
