(* ===== verification/Multipart_Request.thy ===== *)
theory Multipart_Request
  imports General_Request
begin

text \<open>
  Multipart requests and engine control in
  \<^verbatim>\<open>src/src/vllm_router/services/request_service/request.py\<close>: transcriptions, the generic form
  route, the proxy both use, and the requests that put an engine to sleep or wake it up. A form has
  at most one uploaded file; its other fields are text. The backend's behaviour and the clock are
  parameters.
\<close>

section \<open>Forms\<close>

record form =
  fm_file :: "(string \<times> string \<times> string) option"
  fm_fields :: "(string, string) dict"

record upload =
  up_file :: "string \<times> string \<times> string"
  up_model :: string
  up_data :: "(string, string) dict"
  up_stream :: bool

text \<open>The language is kept unless it is blank or spells an absent value.\<close>

definition kept_language :: "string option \<Rightarrow> string option" where
  "kept_language l = (case l of
     None \<Rightarrow> None
   | Some s \<Rightarrow> (let t = str_strip s in
       if t \<noteq> [] \<and> str_lower t \<notin> {''none'', ''null'', ''undefined''} then Some t else None))"

definition put_if :: "bool \<Rightarrow> string \<Rightarrow> string \<Rightarrow> (string, string) dict \<Rightarrow> (string, string) dict" where
  "put_if c k v d = (if c then dict_set d k v else d)"

text \<open>
  Parsing of a transcription form and the fields that are forwarded; \<open>parse_float\<close> and
  \<open>show_float\<close> are \<^verbatim>\<open>float(text)\<close> and \<^verbatim>\<open>str(number)\<close>.
\<close>

definition transcription_upload ::
  "(string \<Rightarrow> real option) \<Rightarrow> (real \<Rightarrow> string) \<Rightarrow> form \<Rightarrow> upload result" where
  "transcription_upload parse_float show_float f =
     (let fs = fm_fields f in
      case fm_file f of
        None \<Rightarrow> Inl (KeyError ''file'')
      | Some up \<Rightarrow>
      case map_of fs ''model'' of
        None \<Rightarrow> Inl (KeyError ''model'')
      | Some model \<Rightarrow>
        (let temp = map_of fs ''temperature'' in
         if temp \<noteq> None \<and> parse_float (the temp) = None then Inl (ValueError ''could not convert string to float'')
         else
           let prompt = map_of fs ''prompt'';
               fmt = dict_get fs ''response_format'' ''json'';
               lang = kept_language (map_of fs ''language'');
               stream = (str_lower (dict_get fs ''stream'' ''false'') = ''true'');
               d0 = [(''model'', model)];
               d1 = (case lang of None \<Rightarrow> d0 | Some l \<Rightarrow> dict_set d0 ''language'' l);
               d2 = (case prompt of None \<Rightarrow> d1 | Some p \<Rightarrow> put_if (p \<noteq> []) ''prompt'' p d1);
               d3 = put_if (fmt \<noteq> []) ''response_format'' fmt d2;
               d4 = (case temp of None \<Rightarrow> d3 | Some t \<Rightarrow> dict_set d3 ''temperature'' (show_float (the (parse_float t))));
               d5 = put_if stream ''stream'' ''true'' d4
           in Inr \<lparr>up_file = up, up_model = model, up_data = d5, up_stream = stream\<rparr>))"

section \<open>The proxy for forms\<close>

text \<open>
  Exceptions by the classes the handler distinguishes: a cancellation, a \<^verbatim>\<open>ClientResponseError\<close>
  with its status and the content read from it, any other \<^verbatim>\<open>ClientError\<close>, and the rest.
\<close>

datatype mp_exn = MCancelled | MResponseError int json | MClientError string | MOther

datatype mp_json_read = MJson json | MParseError string | MJsonRaises mp_exn

record mp_response =
  mp_status :: int
  mp_headers :: headers
  mp_read :: "mp_exn + string"
  mp_json :: mp_json_read

text \<open>\<open>mc_time\<close> gives the clock readings in order.\<close>

record mp_call =
  mc_post :: "mp_exn + mp_response"
  mc_time :: "nat \<Rightarrow> time"

fun mp_outcome :: "mp_exn \<Rightarrow> terminal_outcome" where
  "mp_outcome MCancelled = OutAbort"
| "mp_outcome _ = OutFail"

text \<open>The outer handlers.\<close>

fun mp_failure :: "mp_exn \<Rightarrow> client_reply" where
  "mp_failure MCancelled = ReplyBackend (Cancelled False)"
| "mp_failure (MResponseError st content) = ReplyJson (JSONResponse st content [])"
| "mp_failure (MClientError m) =
     ReplyJson (JSONResponse 503 (JObj [(''error'', JStr (''Failed to connect to backend: '' @ m))]) [])"
| "mp_failure MOther = ReplyJson (JSONResponse 500 (JObj [(''error'', JStr ''Internal server error'')]) [])"

definition mp_response_headers :: "headers \<Rightarrow> string \<Rightarrow> headers" where
  "mp_response_headers hs rid =
     dict_set (fold (\<lambda>(k, v) d. if str_lower k \<notin> HEADERS_TO_STRIP_FROM_RESPONSE then dict_set d k v else d) hs [])
       ''X-Request-Id'' rid"

text \<open>\<^verbatim>\<open>content_type.partition(";")[0].strip().lower()\<close>.\<close>

definition media_type_of :: "string \<Rightarrow> string" where
  "media_type_of ct = str_lower (str_strip (takeWhile (\<lambda>c. c \<noteq> CHR '';'') ct))"

text \<open>Reading a response that is not streamed: the reply and the outcome that is reported.\<close>

definition mp_read_reply :: "mp_response \<Rightarrow> headers \<Rightarrow> client_reply \<times> terminal_outcome" where
  "mp_read_reply r hs =
     (let ct = (case header_get (mp_headers r) ''content-type'' of None \<Rightarrow> [] | Some v \<Rightarrow> v) in
      if \<not> is_json_media_type ct \<and> media_type_of ct \<noteq> ''text/html''
      then (case mp_read r of
              Inl x \<Rightarrow> (mp_failure x, mp_outcome x)
            | Inr content \<Rightarrow> (ReplyChunks (mp_status r) hs ct [Raw content], OutComplete))
      else (case mp_json r of
              MJson j \<Rightarrow> (ReplyJson (JSONResponse (mp_status r) j hs), OutComplete)
            | MParseError text \<Rightarrow>
                (ReplyJson (JSONResponse 502
                   (JObj [(''error'', JStr (''Backend returned non-JSON response: '' @ text))]) hs),
                 OutComplete)
            | MJsonRaises x \<Rightarrow> (mp_failure x, mp_outcome x)))"

definition mp_send ::
  "mp_call \<Rightarrow> url \<Rightarrow> string \<Rightarrow> bool \<Rightarrow> RequestStatsMonitor \<Rightarrow> client_reply \<times> RequestStatsMonitor" where
  "mp_send call url rid stream m =
     (let t = mc_time call; (h, m1) = on_new_request m url rid (t 0) in
      case mc_post call of
        Inl x \<Rightarrow> (mp_failure x, snd (terminal_hook (mp_outcome x) m1 h (t 1)))
      | Inr r \<Rightarrow>
        (let hs = mp_response_headers (mp_headers r) rid in
         if stream
         then (ReplyStream (mp_status r) hs
                 (case header_get (mp_headers r) ''content-type'' of None \<Rightarrow> ''text/event-stream'' | Some v \<Rightarrow> v) url h True, m1)
         else let m2 = on_request_response m1 h (t 1); (reply, out) = mp_read_reply r hs
              in (reply, snd (terminal_hook out m2 h (t 2)))))"

text \<open>The stream handed to the client: empty chunks are dropped, the first other chunk is noted.\<close>

definition mp_stream ::
  "RequestStatsMonitor \<Rightarrow> RequestHandle \<Rightarrow> string list \<Rightarrow> mp_exn option \<Rightarrow> (nat \<Rightarrow> time)
     \<Rightarrow> string list \<times> RequestStatsMonitor" where
  "mp_stream m h cs failure t =
     (let out = filter (\<lambda>c. c \<noteq> []) cs;
          m1 = (if out = [] then m else on_request_response m h (t 0));
          outcome = (case failure of None \<Rightarrow> OutComplete | Some x \<Rightarrow> mp_outcome x)
      in (out, snd (terminal_hook outcome m1 h (t 1))))"

definition multipart_request_id :: "headers \<Rightarrow> string \<Rightarrow> string" where
  "multipart_request_id hs uuid = (case header_get hs ''X-Request-Id'' of None \<Rightarrow> uuid | Some v \<Rightarrow> v)"

definition multipart_body :: "('r, 't) router \<Rightarrow> string \<Rightarrow> body" where
  "multipart_body r model = (case r of
     Disagg _ \<Rightarrow> [] | _ \<Rightarrow> [(''model'', JStr model), (''prompt'', JStr [])])"

definition proxy_multipart_request ::
  "'r ring_ops \<Rightarrow> 't proxy_env \<Rightarrow> (url \<Rightarrow> mp_call) \<Rightarrow> string option \<Rightarrow> headers \<Rightarrow> bool \<Rightarrow> ('r, 't) proxy
     \<Rightarrow> client_reply \<times> ('r, 't) proxy" where
  "proxy_multipart_request R env call model hs stream px =
     (let rid = multipart_request_id hs (pe_uuid env) in
      if model = None \<or> model = Some []
      then (error_reply 400 ''Invalid request: missing 'model' in form data.'' rid, px)
      else case listed_endpoints env px of
        Inl x \<Rightarrow> (ReplyRaise x, px)
      | Inr all_eps \<Rightarrow>
        (let m = the model; eps = filter (\<lambda>e. m \<in> set (model_names e) \<and> \<not> sleep e) all_eps in
         if eps = [] then
           (ReplyJson (JSONResponse 404 (JObj [(''error'', JStr (''No backend for model '' @ m))]) []), px)
         else case get_request_stats (px_monitor px) (pe_clock env) of
           (Inl x, m1) \<Rightarrow> (ReplyRaise x, px\<lparr>px_monitor := m1\<rparr>)
         | (Inr stats, m1) \<Rightarrow>
           (case router_route R (pe_xxh env) (pe_pick env) (ri_router (px_router px)) eps
                   (pe_kv env, stats, hs, multipart_body (ri_router (px_router px)) m) of
              (choice, r1) \<Rightarrow>
              (let px1 = px\<lparr>px_router := (px_router px)\<lparr>ri_router := r1\<rparr>, px_monitor := m1\<rparr> in
               case choice of
                 Inl x \<Rightarrow> (ReplyRaise x, px1)
               | Inr None \<Rightarrow> (ReplyRaise (TypeError ''unsupported operand type(s) for +''), px1)
               | Inr (Some url) \<Rightarrow>
                 (case mp_send (call url) url rid stream m1 of
                    (reply, m2) \<Rightarrow> (reply, px1\<lparr>px_monitor := m2\<rparr>))))))"

definition route_general_transcriptions ::
  "'r ring_ops \<Rightarrow> 't proxy_env \<Rightarrow> (string \<Rightarrow> real option) \<Rightarrow> (real \<Rightarrow> string) \<Rightarrow> (upload \<Rightarrow> url \<Rightarrow> mp_call)
     \<Rightarrow> form \<Rightarrow> headers \<Rightarrow> ('r, 't) proxy \<Rightarrow> client_reply \<times> ('r, 't) proxy" where
  "route_general_transcriptions R env parse_float show_float call f hs px =
     (let rid = request_id_of hs (pe_uuid env) in
      case transcription_upload parse_float show_float f of
        Inl (KeyError k) \<Rightarrow> (error_reply 400 (''Invalid request: missing '' @ k @ '' in form data.'') rid, px)
      | Inl _ \<Rightarrow> (error_reply 400 ''Invalid multipart/form-data request'' rid, px)
      | Inr up \<Rightarrow> proxy_multipart_request R env (call up) (Some (up_model up)) hs (up_stream up) px)"

text \<open>The generic route forwards the raw body; \<open>None\<close> is a form that cannot be parsed.\<close>

definition route_multipart_request ::
  "'r ring_ops \<Rightarrow> 't proxy_env \<Rightarrow> (url \<Rightarrow> mp_call) \<Rightarrow> form option \<Rightarrow> headers \<Rightarrow> ('r, 't) proxy
     \<Rightarrow> client_reply \<times> ('r, 't) proxy" where
  "route_multipart_request R env call f hs px = (case f of
     None \<Rightarrow> (ReplyJson (JSONResponse 400 (JObj [(''error'', JStr ''Invalid multipart/form-data request'')]) []), px)
   | Some fm \<Rightarrow> proxy_multipart_request R env call (map_of (fm_fields fm) ''model'') hs False px)"

section \<open>Sleep and wake-up\<close>

text \<open>
  The labels of the pods in the cluster. Adding a label goes through a read and a patch that an API
  error makes void; static and external-only discovery have no such method.
\<close>

type_synonym pod_labels = "(string, (string, string) dict) dict"

definition add_sleep_label :: "bool \<Rightarrow> string option \<Rightarrow> pod_labels \<Rightarrow> pod_labels" where
  "add_sleep_label api_ok pod labels = (case pod of
     None \<Rightarrow> labels
   | Some p \<Rightarrow> (case map_of labels p of
       None \<Rightarrow> labels
     | Some ls \<Rightarrow> if api_ok then dict_set labels p (dict_set ls ''sleeping'' ''true'') else labels))"

definition remove_sleep_label :: "bool \<Rightarrow> string option \<Rightarrow> pod_labels \<Rightarrow> pod_labels" where
  "remove_sleep_label api_ok pod labels = (case pod of
     None \<Rightarrow> labels
   | Some p \<Rightarrow> (case map_of labels p of
       None \<Rightarrow> labels
     | Some ls \<Rightarrow> if api_ok \<and> map_of ls ''sleeping'' \<noteq> None
                 then dict_set labels p (dict_pop ls ''sleeping'') else labels))"

record control_request =
  cq_headers :: headers
  cq_params :: "(string, string) dict"
  cq_body :: "payload option"

text \<open>What is sent to the engine: URL, headers, parameters and body.\<close>

record control_call =
  cl_url :: url
  cl_headers :: headers
  cl_params :: "(string, string) dict"
  cl_body :: "json option"

definition control_headers :: "string \<Rightarrow> string option \<Rightarrow> headers" where
  "control_headers rid api_key = (case api_key of
     None \<Rightarrow> [(''X-Request-Id'', rid)]
   | Some k \<Rightarrow> if k = [] then [(''X-Request-Id'', rid)]
               else [(''X-Request-Id'', rid), (''Authorization'', ''Bearer '' @ k)])"

definition upstream_params :: "(string, string) dict \<Rightarrow> (string, string) dict" where
  "upstream_params ps = filter (\<lambda>(k, v). k \<noteq> ''id'') ps"

text \<open>Only the pod watcher can label the pods of its endpoints.\<close>

definition apply_sleep_label ::
  "bool \<Rightarrow> discovery \<Rightarrow> string \<Rightarrow> string option \<Rightarrow> pod_labels \<Rightarrow> pod_labels result" where
  "apply_sleep_label api_ok d endpoint pod labels =
     (if endpoint \<noteq> ''/sleep'' \<and> endpoint \<noteq> ''/wake_up'' then Inr labels
      else case d of
        PodIPD _ \<Rightarrow> Inr (if endpoint = ''/sleep'' then add_sleep_label api_ok pod labels
                        else remove_sleep_label api_ok pod labels)
      | ServiceNameD _ \<Rightarrow> Inl (ValueError ''Missing the required parameter name'')
      | _ \<Rightarrow> Inl (AttributeError (if endpoint = ''/sleep'' then ''add_sleep_label'' else ''remove_sleep_label'')))"

text \<open>The call to the selected engine and what follows it.\<close>

definition send_control ::
  "string option \<Rightarrow> bool \<Rightarrow> (control_call \<Rightarrow> http_reply) \<Rightarrow> string \<Rightarrow> control_request \<Rightarrow> string \<Rightarrow> discovery
     \<Rightarrow> EndpointInfo \<Rightarrow> pod_labels \<Rightarrow> client_reply \<times> control_call list \<times> pod_labels" where
  "send_control api_key api_ok send endpoint rq rid d e labels =
     (let base = \<lparr>cl_url = ep_url e @ endpoint, cl_headers = control_headers rid api_key,
                  cl_params = upstream_params (cq_params rq), cl_body = None\<rparr> in
      if endpoint = ''/is_sleeping'' then
        (case raise_for_status (send base) of
           None \<Rightarrow> (ReplyRaise (RuntimeError ''ClientResponseError''), [base], labels)
         | Some body \<Rightarrow> (case json_loads body of
             None \<Rightarrow> (ReplyRaise (ValueError ''JSONDecodeError''), [base], labels)
           | Some j \<Rightarrow> (ReplyJson (JSONResponse 200 j []), [base], labels)))
      else case (case cq_body rq of None \<Rightarrow> Some None | Some p \<Rightarrow> map_option Some (json_loads p)) of
         None \<Rightarrow> (ReplyRaise (ValueError ''JSONDecodeError''), [], labels)
       | Some b \<Rightarrow>
         (let c = base\<lparr>cl_body := b\<rparr> in
          case send c of
            RequestFailed \<Rightarrow> (ReplyRaise (RuntimeError ''ClientError''), [c], labels)
          | Reply st _ \<Rightarrow>
            if 400 \<le> st then (ReplyRaise (RuntimeError ''ClientResponseError''), [c], labels)
            else (case apply_sleep_label api_ok d endpoint (pod_name e) labels of
                    Inl x \<Rightarrow> (ReplyRaise x, [c], labels)
                  | Inr labels' \<Rightarrow>
                      (ReplyJson (JSONResponse st (JObj [(''status'', JStr ''success'')])
                         [(''X-Request-Id'', rid)]), [c], labels'))))"

definition route_sleep_wakeup_request ::
  "'t proxy_env \<Rightarrow> string option \<Rightarrow> bool \<Rightarrow> (control_call \<Rightarrow> http_reply) \<Rightarrow> string \<Rightarrow> control_request
     \<Rightarrow> ('r, 't) proxy \<Rightarrow> pod_labels \<Rightarrow> client_reply \<times> control_call list \<times> pod_labels" where
  "route_sleep_wakeup_request env api_key api_ok send endpoint rq px labels =
     (let rid = request_id_of (cq_headers rq) (pe_uuid env) in
      case map_of (cq_params rq) ''id'' of
        None \<Rightarrow> (error_reply 400 ''Invalid request: missing target Engine Id.'' rid, [], labels)
      | Some target \<Rightarrow>
      case listed_endpoints env px of
        Inl x \<Rightarrow> (ReplyRaise x, [], labels)
      | Inr eps \<Rightarrow>
      case filter (\<lambda>e. ep_Id e = target) eps of
        [] \<Rightarrow> (ReplyJson (JSONResponse 400
                (JObj [(''error'', JStr (''Engine with Id '' @ target @ '' not found.''))]) []), [], labels)
      | e # _ \<Rightarrow> send_control api_key api_ok send endpoint rq rid (the (px_discovery px)) e labels)"

section \<open>Facts\<close>

lemma mp_failure_no_stream [simp]: "\<not> is_stream (mp_failure x)"
  by (cases x) auto

lemma mp_read_reply_no_stream [simp]: "\<not> is_stream (fst (mp_read_reply r hs))"
  by (auto simp: mp_read_reply_def split: sum.split mp_json_read.split)

text \<open>An attempt that is retired before the reply leaves the live attempts as they were.\<close>

lemma retired_attempt:
  assumes "rsm_inv m" "on_new_request m u rid t = (h, m1)"
  shows "rsm_inv (snd (terminal_hook out m1 h t'))" "rsm_live (snd (terminal_hook out m1 h t')) = rsm_live m"
    and "rsm_inv (snd (terminal_hook out (on_request_response m1 h t1) h t'))"
    and "rsm_live (snd (terminal_hook out (on_request_response m1 h t1) h t')) = rsm_live m"
  using monitor.new_invar [OF assms] monitor.attempt_neutral [OF assms, where ts = "[]"]
    monitor.attempt_neutral [OF assms, where ts = "[t1]"]
  by (simp_all add: terminal_hook_finalize monitor.finish_invar monitor.token_invar)

lemma mp_send_accounted:
  assumes "rsm_inv m" "mp_send call url rid stream m = (reply, m')"
  shows "rsm_inv m' \<and> fresh_in reply (rsm_live m) \<and> rsm_live m' = live_after reply (rsm_live m)"
proof -
  obtain h m1 where n: "on_new_request m url rid (mc_time call 0) = (h, m1)" by fastforce
  note new = monitor.new_invar [OF assms(1) n] monitor.new_fresh [OF assms(1) n] monitor.new_live [OF assms(1) n]
  show ?thesis
  proof (cases "mc_post call")
    case (Inl x)
    then show ?thesis
      using assms(2) n retired_attempt [OF assms(1) n] live_after_no_stream [OF mp_failure_no_stream]
      by (auto simp: mp_send_def)
  next
    case (Inr r)
    show ?thesis
    proof (cases stream)
      case True
      then show ?thesis using assms(2) n Inr new by (auto simp: mp_send_def)
    next
      case False
      then show ?thesis
        using assms(2) n Inr retired_attempt [OF assms(1) n] live_after_no_stream [OF mp_read_reply_no_stream]
        by (auto simp: mp_send_def case_prod_unfold)
    qed
  qed
qed

lemma mp_stream_retires:
  assumes "rsm_inv m"
  shows "rsm_live (snd (mp_stream m h cs failure t)) = (rsm_live m)(h := None)"
  using assms by (simp add: mp_stream_def terminal_hook_finalize rsm_live_finalize monitor.token_domain)

lemma fresh_then_retired:
  assumes "fresh_in (ReplyStream st hs media u h str) live"
  shows "(live_after (ReplyStream st hs media u h str) live)(h := None) = live"
  using assms by auto

text \<open>Two label tables that agree except on the sleeping label of one pod.\<close>

definition same_but_sleeping :: "string \<Rightarrow> pod_labels \<Rightarrow> pod_labels \<Rightarrow> bool" where
  "same_but_sleeping p l l' \<longleftrightarrow> (\<forall>q k. q \<noteq> p \<or> k \<noteq> ''sleeping'' \<longrightarrow>
     map_option (\<lambda>ls. map_of ls k) (map_of l' q) = map_option (\<lambda>ls. map_of ls k) (map_of l q))"

lemma apply_sleep_label_frame:
  assumes "apply_sleep_label api_ok d endpoint pod l = Inr l'"
  shows "l' = l \<or> (\<exists>p. pod = Some p \<and> same_but_sleeping p l l')"
  using assms
  by (cases pod) (auto simp: apply_sleep_label_def add_sleep_label_def remove_sleep_label_def same_but_sleeping_def
      split: if_splits discovery.splits option.splits)

lemma upstream_params_no_id: "map_of (upstream_params ps) ''id'' = None"
  by (induction ps) (auto simp: upstream_params_def)

lemma send_control_spec:
  assumes "send_control api_key api_ok send endpoint rq rid d e labels = (reply, calls, labels')"
  shows "length calls \<le> 1 \<and>
    (\<forall>c \<in> set calls. map_of (cl_params c) ''id'' = None \<and> cl_url c = ep_url e @ endpoint) \<and>
    (labels' = labels \<or> (\<exists>c st body p. calls = [c] \<and> send c = Reply st body \<and> st < 400 \<and>
       pod_name e = Some p \<and> same_but_sleeping p labels labels'))"
proof (cases "endpoint = ''/is_sleeping''")
  case True
  then show ?thesis
    using assms by (auto simp: send_control_def upstream_params_no_id split: option.splits)
next
  case False
  then show ?thesis
    using assms apply_sleep_label_frame [of api_ok d endpoint "pod_name e" labels]
    by (auto simp: send_control_def upstream_params_no_id
        split: option.splits http_reply.splits if_splits sum.splits)
qed

lemma proxy_multipart_request_accounted:
  assumes ok: "proxy_ok R env px" and r: "proxy_multipart_request R env call model hs stream px = (reply, px')"
  shows "accounted_reply R env px reply px'"
proof -
  have assms': "router_ok R (pe_pick env) (ri_router (px_router px))" "rsm_inv (px_monitor px)"
    using ok by (simp_all add: proxy_ok_def)
  obtain snap m1 where S: "get_request_stats (px_monitor px) (pe_clock env) = (snap, m1)" by fastforce
  have m1: "rsm_inv m1" "rsm_live m1 = rsm_live (px_monitor px)"
    using get_request_stats_inv [OF assms'(2), of "pe_clock env"] get_request_stats_frame [of "px_monitor px" "pe_clock env"] S
    by (auto simp: rsm_live_def fun_eq_iff)
  have route: "router_ok R (pe_pick env) r1"
    if "router_route R xxh (pe_pick env) (ri_router (px_router px)) eps c = (ch, r1)" for xxh eps c ch r1
    using router_route_ok [OF assms'(1), of xxh eps c] that by simp
  show ?thesis
    using assms' r m1 S mp_send_accounted [OF m1(1)] route
    by (auto simp: proxy_multipart_request_def accounted_reply_def proxy_ok_def error_reply_def
        split: if_splits sum.splits option.splits prod.splits)
qed

section \<open>Properties\<close>

text \<open>Multipart requests keep the proxy sound: whatever the backend does, router and monitor keep their
  invariants; a request that is not streamed leaves no live attempt behind; one that is streamed
  leaves exactly its own, on the backend it was routed to, and consuming the stream, whether it is
  exhausted, fails or is cancelled, retires that attempt and no other.\<close>

theorem multipart_keeps_proxy_sound:
  assumes "router_ok R (pe_pick env) (ri_router (px_router px))" "rsm_inv (px_monitor px)"
    and "proxy_multipart_request R env call model hs stream px = (reply, px')"
  shows "router_ok R (pe_pick env) (ri_router (px_router px')) \<and> rsm_inv (px_monitor px') \<and>
    (case reply of
       ReplyStream st rhs media u h str \<Rightarrow>
         rsm_live (px_monitor px') = (rsm_live (px_monitor px))(h \<mapsto> (Prefill, u)) \<and>
         rsm_live (snd (mp_stream (px_monitor px') h cs failure t)) = rsm_live (px_monitor px)
     | _ \<Rightarrow> rsm_live (px_monitor px') = rsm_live (px_monitor px))"
  using proxy_multipart_request_accounted [OF _ assms(3)] assms(1,2) mp_stream_retires fresh_then_retired
  by (cases reply) (auto simp: accounted_reply_def proxy_ok_def)

theorem multipart_keeps_proxy_sound_witness:
  "\<exists>reply px'. proxy_multipart_request first_ring env_example (\<lambda>u. \<lparr>mc_post = Inl MOther, mc_time = real\<rparr>)
      (Some ''m'') [] False proxy_example = (reply, px') \<and> rsm_inv (px_monitor px')"
proof -
  obtain reply px' where r: "proxy_multipart_request first_ring env_example
      (\<lambda>u. \<lparr>mc_post = Inl MOther, mc_time = real\<rparr>) (Some ''m'') [] False proxy_example = (reply, px')"
    by fastforce
  have "router_ok first_ring (pe_pick env_example) (ri_router (px_router proxy_example))"
    "rsm_inv (px_monitor proxy_example)"
    by (simp_all add: proxy_example_def rr_ok_init rsm_inv_start)
  from multipart_keeps_proxy_sound [OF this r] show ?thesis using r by blast
qed

text \<open>C14. Engine control is careful with labels: a request to put an engine to sleep or to wake it changes
  no label unless the engine named by the request was called and answered without an error, and
  then only the sleeping label of that engine's pod; at most one call is made, to the named
  engine, without the parameter that selects it.\<close>

theorem control_changes_one_label:
  assumes "route_sleep_wakeup_request env api_key api_ok send endpoint rq px labels = (reply, calls, labels')"
    and "calls \<noteq> [] \<or> labels' \<noteq> labels"
  shows "\<exists>eps e c. listed_endpoints env px = Inr eps \<and> e \<in> set eps \<and>
    Some (ep_Id e) = map_of (cq_params rq) ''id'' \<and>
    calls = [c] \<and> cl_url c = ep_url e @ endpoint \<and> map_of (cl_params c) ''id'' = None \<and>
    (labels' = labels \<or>
     (\<exists>st body p. send c = Reply st body \<and> st < 400 \<and> pod_name e = Some p \<and> same_but_sleeping p labels labels'))"
proof -
  obtain target eps e es where t: "map_of (cq_params rq) ''id'' = Some target" "listed_endpoints env px = Inr eps"
    "filter (\<lambda>e. ep_Id e = target) eps = e # es"
    using assms
    by (auto simp: route_sleep_wakeup_request_def split: option.splits sum.splits list.splits)
  then have e: "e \<in> set eps" "ep_Id e = target" by (auto simp: filter_eq_Cons_iff)
  have "send_control api_key api_ok send endpoint rq (request_id_of (cq_headers rq) (pe_uuid env))
      (the (px_discovery px)) e labels = (reply, calls, labels')"
    using assms(1) t by (simp add: route_sleep_wakeup_request_def)
  from send_control_spec [OF this] have
    sp: "length calls \<le> 1" "\<forall>c \<in> set calls. map_of (cl_params c) ''id'' = None \<and> cl_url c = ep_url e @ endpoint"
    "labels' = labels \<or> (\<exists>c st body p. calls = [c] \<and> send c = Reply st body \<and> st < 400 \<and>
       pod_name e = Some p \<and> same_but_sleeping p labels labels')" by blast+
  have "calls \<noteq> []" using sp(3) assms(2) by auto
  then obtain c where c: "calls = [c]" using sp(1) by (cases calls) auto
  then show ?thesis using t(1,2) e sp(2,3) by auto
qed

theorem control_changes_one_label_witness:
  "\<exists>c reply labels'. route_sleep_wakeup_request env_example None True (\<lambda>c. Reply 200 NotJson) ''/sleep''
      \<lparr>cq_headers = [], cq_params = [(''id'', ''p''), (''level'', ''1'')], cq_body = None\<rparr> proxy_example
      [(''p'', [])] = (reply, [c], labels') \<and> cl_url c = ''http://10.0.0.1:80/sleep''"
proof -
  let ?rq = "\<lparr>cq_headers = [], cq_params = [(''id'', ''p''), (''level'', ''1'')], cq_body = None\<rparr>"
  have l: "listed_endpoints env_example proxy_example =
      Inr [pod_entry id ''ns'' ''80'' (serving_example ''p'') ''10.0.0.1'']"
    by (simp add: listed_endpoints_def get_service_discovery_def proxy_example_def pods_example_listing)
  have i: "ep_Id (pod_entry id ''ns'' ''80'' (serving_example ''p'') ''10.0.0.1'') = ''p''"
    by (simp add: pod_entry_def pod_endpoint_def serving_example_def)
  obtain reply calls labels' where r: "route_sleep_wakeup_request env_example None True (\<lambda>c. Reply 200 NotJson)
      ''/sleep'' ?rq proxy_example [(''p'', [])] = (reply, calls, labels')" by (metis surj_pair)
  have "calls \<noteq> []"
    using r by (auto simp: route_sleep_wakeup_request_def l i send_control_def split: sum.splits)
  then obtain e c where c: "e \<in> set [pod_entry id ''ns'' ''80'' (serving_example ''p'') ''10.0.0.1'']"
    "calls = [c]" "cl_url c = ep_url e @ ''/sleep''"
    using control_changes_one_label [OF r] l by auto
  then show ?thesis using r by (auto simp: pods_example_entry engine_url_def)
qed

end
