(* ===== verification/Engine_Stats.thy ===== *)
theory Engine_Stats
  imports Endpoints
begin

text \<open>
  The scraper of \<^verbatim>\<open>stats/engine_stats.py\<close>: it turns the metrics page of each engine into an
  \<^verbatim>\<open>EngineStats\<close> object and keeps one for every engine that answered the last round.

  The page as the Prometheus parser reads it is an input: a list of families, each a list of
  named samples. The lock makes the update at the end of a round one step. The sleep between rounds
  is a loop over whole check intervals that also ends when the scraper is stopped.
\<close>

section \<open>Statistics of one engine\<close>

record EngineStats =
  num_running_requests :: real
  num_queuing_requests :: real
  gpu_prefix_cache_hit_rate :: real
  gpu_prefix_cache_hits_total :: real
  gpu_prefix_cache_queries_total :: real
  gpu_cache_usage_perc :: real

type_synonym sample = "string \<times> real"

definition no_engine_stats :: EngineStats where
  "no_engine_stats = \<lparr>num_running_requests = 0, num_queuing_requests = 0, gpu_prefix_cache_hit_rate = 0,
     gpu_prefix_cache_hits_total = 0, gpu_prefix_cache_queries_total = 0, gpu_cache_usage_perc = 0\<rparr>"

fun read_sample :: "sample \<Rightarrow> EngineStats \<Rightarrow> EngineStats" where
  "read_sample (name, v) s =
     (if name = ''vllm:num_requests_running'' then s\<lparr>num_running_requests := v\<rparr>
      else if name = ''vllm:num_requests_waiting'' then s\<lparr>num_queuing_requests := v\<rparr>
      else if name = ''vllm:gpu_prefix_cache_hit_rate'' then s\<lparr>gpu_prefix_cache_hit_rate := v\<rparr>
      else if name = ''vllm:gpu_prefix_cache_hits_total'' then s\<lparr>gpu_prefix_cache_hits_total := v\<rparr>
      else if name = ''vllm:gpu_prefix_cache_queries_total'' then s\<lparr>gpu_prefix_cache_queries_total := v\<rparr>
      else if name = ''vllm:gpu_cache_usage_perc'' then s\<lparr>gpu_cache_usage_perc := v\<rparr>
      else s)"

definition from_vllm_scrape :: "sample list list \<Rightarrow> EngineStats" where
  "from_vllm_scrape families = fold (\<lambda>family s. fold read_sample family s) families no_engine_stats"

section \<open>The scraper\<close>

record EngineStatsScraper =
  es_engine_stats :: "(url, EngineStats) dict"
  es_scrape_interval :: real
  es_running :: bool

text \<open>A second construction returns the first instance.\<close>

definition scraper_init :: "EngineStatsScraper option \<Rightarrow> real option \<Rightarrow> EngineStatsScraper result" where
  "scraper_init instance scrape_interval = (case instance of
     Some s \<Rightarrow> Inr s
   | None \<Rightarrow> (case scrape_interval of
       None \<Rightarrow> Inl (ValueError ''EngineStatsScraper must be initialized with scrape_interval'')
     | Some i \<Rightarrow> Inr \<lparr>es_engine_stats = [], es_scrape_interval = i, es_running = True\<rparr>))"

text \<open>\<open>fetch\<close> gives the families of a page, or nothing when the request or the parser fails.\<close>

definition scrape_one_endpoint :: "(url \<Rightarrow> sample list list option) \<Rightarrow> url \<Rightarrow> EngineStats option" where
  "scrape_one_endpoint fetch u = map_option from_vllm_scrape (fetch (u @ ''/metrics''))"

fun collect_stats ::
  "(url \<Rightarrow> sample list list option) \<Rightarrow> url list \<Rightarrow> (url, EngineStats) dict \<Rightarrow> (url, EngineStats) dict" where
  "collect_stats fetch [] d = d"
| "collect_stats fetch (u # us) d = (case scrape_one_endpoint fetch u of
     None \<Rightarrow> collect_stats fetch us d
   | Some s \<Rightarrow> collect_stats fetch us (dict_set d u s))"

definition scrape_metrics ::
  "(url \<Rightarrow> sample list list option) \<Rightarrow> EndpointInfo list \<Rightarrow> EngineStatsScraper \<Rightarrow> EngineStatsScraper" where
  "scrape_metrics fetch endpoints s =
     (let collected = collect_stats fetch (map ep_url endpoints) [];
          old_urls = keys (es_engine_stats s);
          kept = fold (\<lambda>u d. if map_of collected u = None then dict_pop d u else d) old_urls (es_engine_stats s)
      in s\<lparr>es_engine_stats := fold (\<lambda>(u, st) d. dict_set d u st) collected kept\<rparr>)"

definition get_engine_stats :: "EngineStatsScraper \<Rightarrow> (url, EngineStats) dict" where
  "get_engine_stats s = es_engine_stats s"

definition scraper_close :: "EngineStatsScraper \<Rightarrow> EngineStatsScraper" where
  "scraper_close s = s\<lparr>es_running := False\<rparr>"

text \<open>
  \<^verbatim>\<open>_sleep_or_break\<close>: at most \<^verbatim>\<open>int(interval / check_interval)\<close> naps; \<open>running\<close> says what the
  flag is before each of them. The result is the number of naps.
\<close>

fun sleep_loop :: "(nat \<Rightarrow> bool) \<Rightarrow> nat \<Rightarrow> nat \<Rightarrow> nat" where
  "sleep_loop running 0 i = i"
| "sleep_loop running (Suc n) i = (if running i then sleep_loop running n (Suc i) else i)"

definition naps :: "real \<Rightarrow> real \<Rightarrow> nat" where
  "naps interval check_interval = nat (if 0 \<le> interval / check_interval then \<lfloor>interval / check_interval\<rfloor>
     else \<lceil>interval / check_interval\<rceil>)"

definition sleep_or_break :: "(nat \<Rightarrow> bool) \<Rightarrow> real \<Rightarrow> real \<Rightarrow> nat" where
  "sleep_or_break running interval check_interval = sleep_loop running (naps interval check_interval) 0"

text \<open>One round of the worker: what the flag says at its head, what discovery lists, what the engines answer.\<close>

record scrape_round =
  sr_stopped :: bool
  sr_endpoints :: "EndpointInfo list result"
  sr_fetch :: "url \<Rightarrow> sample list list option"

text \<open>
  The worker over the rounds it is given; discovery that is not initialized raises out of the
  thread. The number is that of the completed rounds.
\<close>

fun scrape_worker :: "scrape_round list \<Rightarrow> EngineStatsScraper \<Rightarrow> EngineStatsScraper \<times> nat" where
  "scrape_worker [] s = (s, 0)"
| "scrape_worker (r # rs) s =
     (let s1 = (if sr_stopped r then scraper_close s else s) in
      if \<not> es_running s1 then (s1, 0)
      else case sr_endpoints r of
        Inl x \<Rightarrow> (s1, 0)
      | Inr eps \<Rightarrow> (let (s2, n) = scrape_worker rs (scrape_metrics (sr_fetch r) eps s1) in (s2, Suc n)))"

section \<open>Facts\<close>

lemma map_of_collect:
  "map_of (collect_stats fetch us d) u =
     (if u \<in> set us \<and> fetch (u @ ''/metrics'') \<noteq> None
      then Some (from_vllm_scrape (the (fetch (u @ ''/metrics'')))) else map_of d u)"
  by (induction fetch us d rule: collect_stats.induct) (auto simp: scrape_one_endpoint_def split: option.splits)

lemma distinct_collect: "distinct (keys d) \<Longrightarrow> distinct (keys (collect_stats fetch us d))"
  by (induction fetch us d rule: collect_stats.induct) (auto split: option.split)

lemma map_of_fold_pop:
  "map_of (fold (\<lambda>u d. if P u then dict_pop d u else d) us d) v = (if v \<in> set us \<and> P v then None else map_of d v)"
  by (induction us arbitrary: d) auto

lemma distinct_fold_pop:
  "distinct (keys d) \<Longrightarrow> distinct (keys (fold (\<lambda>u d. if P u then dict_pop d u else d) us d))"
  by (induction us arbitrary: d) (auto intro: distinct_keys_pop)

lemma map_of_fold_set:
  "distinct (keys e) \<Longrightarrow>
   map_of (fold (\<lambda>(u, s) d. dict_set d u s) e d) v = (case map_of e v of Some s \<Rightarrow> Some s | None \<Rightarrow> map_of d v)"
proof (induction e arbitrary: d)
  case (Cons x e)
  obtain u s where x: "x = (u, s)" by fastforce
  then have "map_of e u = None" using Cons.prems by (auto simp: map_of_eq_None_iff)
  then show ?case using Cons by (auto simp: x split: option.splits)
qed simp

lemma distinct_fold_set: "distinct (keys d) \<Longrightarrow> distinct (keys (fold (\<lambda>(u, s) d. dict_set d u s) e d))"
  by (induction e arbitrary: d) auto

lemma scrape_metrics_lookup:
  "map_of (es_engine_stats (scrape_metrics fetch eps s)) u =
     (if u \<in> ep_url ` set eps then map_option from_vllm_scrape (fetch (u @ ''/metrics'')) else None)"
proof -
  let ?c = "collect_stats fetch (map ep_url eps) []"
  have d: "distinct (keys ?c)" by (rule distinct_collect) simp
  have "map_of (es_engine_stats s) u = None" if "u \<notin> fst ` set (es_engine_stats s)"
    using that by (simp add: map_of_eq_None_iff)
  then show ?thesis
    by (auto simp: scrape_metrics_def map_of_fold_set [OF d] map_of_fold_pop map_of_collect split: option.splits)
qed

lemma sleep_loop_bounds: "i \<le> sleep_loop running n i \<and> sleep_loop running n i \<le> i + n"
  by (induction running n i rule: sleep_loop.induct) auto

lemma sleep_loop_stops:
  "(\<forall>j. i \<le> j \<and> j < sleep_loop running n i \<longrightarrow> running j) \<and>
   (sleep_loop running n i < i + n \<longrightarrow> \<not> running (sleep_loop running n i))"
proof (induction running n i rule: sleep_loop.induct)
  case (2 running n i)
  show ?case
  proof (cases "running i")
    case True
    then show ?thesis using 2 by simp (metis Suc_leI le_neq_implies_less)
  qed auto
qed auto

section \<open>Properties\<close>

text \<open>C28. After a round of scraping the table has exactly the engines that are listed and answered, each with
  the numbers of its own page; engines that vanished or failed to answer are gone.\<close>

theorem scrape_round_exact:
  "map_of (get_engine_stats (scrape_metrics fetch eps s)) u =
     (if u \<in> ep_url ` set eps then map_option from_vllm_scrape (fetch (u @ ''/metrics'')) else None)"
  unfolding get_engine_stats_def by (rule scrape_metrics_lookup)



end
