(* ===== verification/Feature_Gates.thy ===== *)
theory Feature_Gates
  imports Prelude
begin

text \<open>
  \<^verbatim>\<open>experimental/feature_gates.py\<close>: the set of enabled features and the option string that
  configures it, \<^verbatim>\<open>name=true,other=false\<close>.
\<close>

section \<open>Features\<close>

datatype FeatureStage = ALPHA | BETA | GA

record Feature =
  ft_name :: string
  ft_description :: string
  ft_stage :: FeatureStage
  ft_default_enabled :: bool

record FeatureGates =
  enabled_features :: "string set"

definition gates_init :: FeatureGates where
  "gates_init = \<lparr>enabled_features = {}\<rparr>"

definition gate_enable :: "FeatureGates \<Rightarrow> string \<Rightarrow> FeatureGates" where
  "gate_enable g f = g\<lparr>enabled_features := insert f (enabled_features g)\<rparr>"

definition gate_disable :: "FeatureGates \<Rightarrow> string \<Rightarrow> FeatureGates" where
  "gate_disable g f = g\<lparr>enabled_features := enabled_features g - {f}\<rparr>"

definition gate_is_enabled :: "FeatureGates \<Rightarrow> string \<Rightarrow> bool" where
  "gate_is_enabled g f = (f \<in> enabled_features g)"

definition gates_configure :: "FeatureGates \<Rightarrow> (string, bool) dict \<Rightarrow> FeatureGates" where
  "gates_configure g config = fold (\<lambda>(f, on) g. if on then gate_enable g f else gate_disable g f) config g"

text \<open>\<^verbatim>\<open>item.split("=", 1)\<close> of an item that has an equals sign; other items are skipped.\<close>

definition gate_item :: "string \<Rightarrow> (string \<times> bool) option" where
  "gate_item item =
     (if CHR ''='' \<notin> set item then None
      else Some (str_strip (takeWhile (\<lambda>c. c \<noteq> CHR ''='') item),
                 str_lower (str_strip (tl (dropWhile (\<lambda>c. c \<noteq> CHR ''='') item))) = ''true''))"

fun parse_gates :: "string list \<Rightarrow> (string, bool) dict \<Rightarrow> (string, bool) dict" where
  "parse_gates [] d = d"
| "parse_gates (x # xs) d = (case gate_item x of
     None \<Rightarrow> parse_gates xs d
   | Some (n, b) \<Rightarrow> parse_gates xs (dict_set d n b))"

definition initialize_feature_gates :: "FeatureGates \<Rightarrow> string option \<Rightarrow> FeatureGates" where
  "initialize_feature_gates g config = (case config of
     None \<Rightarrow> g
   | Some c \<Rightarrow> if c = [] then g else gates_configure g (parse_gates (str_split '','' c) []))"

section \<open>The last mention of a feature counts\<close>

definition last_setting :: "string \<Rightarrow> string list \<Rightarrow> bool option" where
  "last_setting f items = map_of (rev (List.map_filter gate_item items)) f"

lemma map_of_parse_gates:
  "map_of (parse_gates items d) f = (case last_setting f items of Some b \<Rightarrow> Some b | None \<Rightarrow> map_of d f)"
proof (induction items d rule: parse_gates.induct)
  case (2 x xs d)
  then show ?case
    by (cases "gate_item x") (auto simp: last_setting_def List.map_filter_simps map_add_def split: option.splits)
qed (simp add: last_setting_def List.map_filter_simps)

lemma distinct_parse_gates: "distinct (keys d) \<Longrightarrow> distinct (keys (parse_gates items d))"
  by (induction items d rule: parse_gates.induct) (auto split: option.split)

lemma gates_configure_enabled:
  assumes "distinct (keys config)"
  shows "gate_is_enabled (gates_configure g config) f \<longleftrightarrow>
    (case map_of config f of Some on \<Rightarrow> on | None \<Rightarrow> gate_is_enabled g f)"
  using assms
proof (induction config arbitrary: g)
  case (Cons x config)
  obtain n on where x: "x = (n, on)" by fastforce
  then have "map_of config n = None" using Cons.prems by (auto simp: map_of_eq_None_iff)
  then show ?case
    using Cons.IH [of "if on then gate_enable g n else gate_disable g n"] Cons.prems
    by (auto simp: x gates_configure_def gate_enable_def gate_disable_def gate_is_enabled_def split: option.splits)
qed (simp add: gates_configure_def)

text \<open>The option string decides exactly the features it mentions: a feature is enabled if the last item
  that names it says true in any capitalization; a feature that is not mentioned keeps its state.\<close>

theorem feature_gates_last_item:
  "gate_is_enabled (initialize_feature_gates g (Some c)) f \<longleftrightarrow>
     (case last_setting f (str_split '','' c) of Some on \<Rightarrow> on | None \<Rightarrow> gate_is_enabled g f)"
proof (cases "c = []")
  case True
  moreover have "str_split '','' [] = [[]]" by (rule str_split_absent) simp
  ultimately show ?thesis
    by (simp add: initialize_feature_gates_def last_setting_def List.map_filter_simps gate_item_def)
next
  case False
  then show ?thesis
    using gates_configure_enabled [OF distinct_parse_gates [of "[]"], of g "str_split '','' c" f]
    by (simp add: initialize_feature_gates_def map_of_parse_gates split: option.splits)
qed

end
