(* ===== verification/Files_Batches.thy ===== *)
theory Files_Batches
  imports Disagg_Request
begin

text \<open>
  The files and batches services: the local file storage of \<^verbatim>\<open>services/files_service\<close>, the batch queue of
  \<^verbatim>\<open>services/batch_service\<close> with its background processor, and the HTTP handlers of
  \<^verbatim>\<open>routers/files_router.py\<close> and \<^verbatim>\<open>routers/batches_router.py\<close>.

  The file system is a dictionary from path names to contents with a change time. The database table
  is the list of its rows in insertion order; ties of \<^verbatim>\<open>ORDER BY\<close> are broken by that order. Clock
  readings and fresh identifiers are arguments. \<open>vllm_router.batch\<close>, from which the processor imports the
  batch records, does not exist in the package; the records of \<^verbatim>\<open>batch.py\<close> are what is meant.
\<close>

section \<open>Files\<close>

record OpenAIFile =
  of_id :: string
  of_object :: string
  of_bytes :: int
  of_created_at :: int
  of_filename :: string
  of_purpose :: string

definition file_to_dict :: "OpenAIFile \<Rightarrow> (string, json) dict" where
  "file_to_dict f =
     [(''id'', JStr (of_id f)), (''object'', JStr (of_object f)), (''bytes'', JInt (of_bytes f)),
      (''created_at'', JInt (of_created_at f)), (''filename'', JStr (of_filename f)), (''purpose'', JStr (of_purpose f))]"

definition file_metadata :: "OpenAIFile \<Rightarrow> (string, json) dict" where
  "file_metadata f =
     [(''id'', JStr (of_id f)), (''bytes'', JInt (of_bytes f)), (''created_at'', JInt (of_created_at f)),
      (''filename'', JStr (of_filename f)), (''purpose'', JStr (of_purpose f))]"

text \<open>A path name has a content and a change time; \<^verbatim>\<open>os.path.join\<close> drops the first part before an absolute one.\<close>

type_synonym filesystem = "(string, string \<times> int) dict"

definition os_path_join :: "string \<Rightarrow> string \<Rightarrow> string" where
  "os_path_join a b =
     (if startswith b ''/'' then b else if a = [] \<or> endswith a ''/'' then a @ b else a @ ''/'' @ b)"

definition DEFAULT_USER_ID :: string where
  "DEFAULT_USER_ID = ''uid_default''"

definition DEFAULT_PURPOSE :: string where
  "DEFAULT_PURPOSE = ''batch''"

definition file_path :: "string \<Rightarrow> string \<Rightarrow> string \<Rightarrow> string" where
  "file_path base user_id file_id = os_path_join (os_path_join base user_id) file_id"

text \<open>\<open>fresh\<close> is the identifier drawn when none is given.\<close>

definition save_file ::
  "string \<Rightarrow> int \<Rightarrow> string \<Rightarrow> string option \<Rightarrow> string \<Rightarrow> string option \<Rightarrow> string option \<Rightarrow> string \<Rightarrow> filesystem
     \<Rightarrow> OpenAIFile result \<times> filesystem" where
  "save_file base now fresh file_id user_id file_name content purpose fs = (case content of
     None \<Rightarrow> (Inl (ValueError ''Content cannot be None''), fs)
   | Some c \<Rightarrow>
     (let fid = (case file_id of None \<Rightarrow> ''file-'' @ fresh | Some i \<Rightarrow> i);
          fs' = dict_set fs (file_path base user_id fid) (c, now)
      in (Inr \<lparr>of_id = fid, of_object = ''file'', of_bytes = int (length c), of_created_at = now,
            of_filename = (case file_name of None \<Rightarrow> fid | Some n \<Rightarrow> if n = [] then fid else n),
            of_purpose = purpose\<rparr>, fs')))"

text \<open>Writing at an offset past the end fills the gap with zero bytes; writing nothing changes nothing.\<close>

definition write_at :: "string \<Rightarrow> nat \<Rightarrow> string \<Rightarrow> string" where
  "write_at content offset chunk =
     (if chunk = [] then content
      else take offset (content @ replicate (offset - length content) (CHR 0x00)) @ chunk
           @ drop (offset + length chunk) content)"

definition save_file_chunk ::
  "string \<Rightarrow> int \<Rightarrow> string \<Rightarrow> string \<Rightarrow> string option \<Rightarrow> int \<Rightarrow> filesystem \<Rightarrow> unit result \<times> filesystem" where
  "save_file_chunk base now file_id user_id chunk offset fs =
     (let p = file_path base user_id file_id in
      case map_of fs p of
        None \<Rightarrow> (Inl (FileNotFoundError p), fs)
      | Some (c, t) \<Rightarrow>
        if offset < 0 then (Inl (RuntimeError ''OSError''), fs)
        else case chunk of
          None \<Rightarrow> (Inl (TypeError ''a bytes-like object is required''), fs)
        | Some ch \<Rightarrow> (Inr (), dict_set fs p (write_at c (nat offset) ch, now)))"

definition get_file :: "string \<Rightarrow> string \<Rightarrow> string \<Rightarrow> filesystem \<Rightarrow> OpenAIFile result" where
  "get_file base file_id user_id fs = (case map_of fs (file_path base user_id file_id) of
     None \<Rightarrow> Inl (FileNotFoundError file_id)
   | Some (c, t) \<Rightarrow> Inr \<lparr>of_id = file_id, of_object = ''file'', of_bytes = int (length c), of_created_at = t,
        of_filename = file_id, of_purpose = DEFAULT_PURPOSE\<rparr>)"

definition get_file_content :: "string \<Rightarrow> string \<Rightarrow> string \<Rightarrow> filesystem \<Rightarrow> string result" where
  "get_file_content base file_id user_id fs = (case map_of fs (file_path base user_id file_id) of
     None \<Rightarrow> Inl (FileNotFoundError file_id) | Some (c, t) \<Rightarrow> Inr c)"

text \<open>The names directly below the directory of the user.\<close>

definition list_files :: "string \<Rightarrow> string \<Rightarrow> filesystem \<Rightarrow> string list" where
  "list_files base user_id fs =
     (let d = os_path_join base user_id @ ''/'' in
      filter (\<lambda>n. CHR ''/'' \<notin> set n) (map (drop (length d)) (filter (\<lambda>p. startswith p d) (keys fs))))"

definition delete_file :: "string \<Rightarrow> string \<Rightarrow> string \<Rightarrow> filesystem \<Rightarrow> filesystem" where
  "delete_file base file_id user_id fs = dict_pop fs (file_path base user_id file_id)"

definition initialize_storage :: "string \<Rightarrow> string \<Rightarrow> string result" where
  "initialize_storage storage_type base =
     (if storage_type = ''local_file'' then Inr base else Inl (ValueError ''Unsupported storage type''))"

section \<open>File handlers\<close>

text \<open>\<open>storage\<close> is the base path, if the batch interface is enabled; \<open>show\<close> is \<^verbatim>\<open>str(e)\<close>.\<close>

definition with_storage :: "string option \<Rightarrow> (string \<Rightarrow> 'a result) \<Rightarrow> 'a result" where
  "with_storage storage f = (case storage of None \<Rightarrow> Inl (AttributeError ''batch_storage'') | Some base \<Rightarrow> f base)"

definition error_content :: "int \<Rightarrow> string \<Rightarrow> client_reply" where
  "error_content status msg = ReplyJson (JSONResponse status (JObj [(''error'', JStr msg)]) [])"

definition route_files ::
  "(py_exn \<Rightarrow> string) \<Rightarrow> string option \<Rightarrow> int \<Rightarrow> string \<Rightarrow> string \<Rightarrow> (string option \<times> string) option \<Rightarrow> filesystem
     \<Rightarrow> client_reply \<times> filesystem" where
  "route_files show storage now fresh purpose upload fs = (case upload of
     None \<Rightarrow> (error_content 400 ''Missing required parameter 'file' '', fs)
   | Some (name, content) \<Rightarrow> (case storage of
       None \<Rightarrow> (error_content 500 (''Failed to save file: '' @ show (AttributeError ''batch_storage'')), fs)
     | Some base \<Rightarrow> (case save_file base now fresh None DEFAULT_USER_ID name (Some content) purpose fs of
         (Inl x, fs') \<Rightarrow> (error_content 500 (''Failed to save file: '' @ show x), fs')
       | (Inr f, fs') \<Rightarrow> (ReplyJson (JSONResponse 200 (JObj (file_metadata f)) []), fs'))))"

definition not_found_or_raise :: "string \<Rightarrow> py_exn \<Rightarrow> client_reply" where
  "not_found_or_raise msg x = (case x of FileNotFoundError _ \<Rightarrow> error_content 404 msg | _ \<Rightarrow> ReplyRaise x)"

definition route_get_file :: "string option \<Rightarrow> string \<Rightarrow> filesystem \<Rightarrow> client_reply" where
  "route_get_file storage file_id fs =
     (case with_storage storage (\<lambda>base. get_file base file_id DEFAULT_USER_ID fs) of
        Inl x \<Rightarrow> not_found_or_raise (''File '' @ file_id @ '' not found'') x
      | Inr f \<Rightarrow> ReplyJson (JSONResponse 200 (JObj (file_metadata f)) []))"

definition route_get_file_content :: "string option \<Rightarrow> string \<Rightarrow> filesystem \<Rightarrow> client_reply" where
  "route_get_file_content storage file_id fs =
     (case with_storage storage (\<lambda>base. get_file_content base file_id DEFAULT_USER_ID fs) of
        Inl x \<Rightarrow> not_found_or_raise (''File '' @ file_id @ '' not found'') x
      | Inr c \<Rightarrow> ReplyChunks 200 [] [] [Raw c])"

section \<open>Batches\<close>

datatype BatchStatus = PENDING | RUNNING | COMPLETED | FAILED

fun status_value :: "BatchStatus \<Rightarrow> string" where
  "status_value PENDING = ''pending''"
| "status_value RUNNING = ''running''"
| "status_value COMPLETED = ''completed''"
| "status_value FAILED = ''failed''"

definition status_of_value :: "string \<Rightarrow> BatchStatus result" where
  "status_of_value s = (case find (\<lambda>b. status_value b = s) [PENDING, RUNNING, COMPLETED, FAILED] of
     None \<Rightarrow> Inl (ValueError ''is not a valid BatchStatus'') | Some b \<Rightarrow> Inr b)"

text \<open>The attribute \<^verbatim>\<open>status\<close> is a member of the enumeration, or the text that cancellation assigns.\<close>

datatype status_attr = StatusEnum BatchStatus | StatusText string

record BatchInfo =
  bi_id :: string
  bi_status :: status_attr
  bi_input_file_id :: string
  bi_created_at :: int
  bi_endpoint :: json
  bi_completion_window :: json
  bi_output_file_id :: "string option"
  bi_completed_at :: "int option"
  bi_metadata :: json

definition opt_str :: "string option \<Rightarrow> json" where
  "opt_str x = (case x of None \<Rightarrow> JNull | Some s \<Rightarrow> JStr s)"

definition opt_int :: "int option \<Rightarrow> json" where
  "opt_int x = (case x of None \<Rightarrow> JNull | Some i \<Rightarrow> JInt i)"

text \<open>\<^verbatim>\<open>self.status.value\<close> needs the enumeration.\<close>

definition batch_to_dict :: "BatchInfo \<Rightarrow> (string, json) dict result" where
  "batch_to_dict b = (case bi_status b of
     StatusText s \<Rightarrow> Inl (AttributeError ''value'')
   | StatusEnum st \<Rightarrow> Inr
     [(''id'', JStr (bi_id b)), (''status'', JStr (status_value st)), (''input_file_id'', JStr (bi_input_file_id b)),
      (''created_at'', JInt (bi_created_at b)), (''endpoint'', bi_endpoint b),
      (''completion_window'', bi_completion_window b), (''output_file_id'', opt_str (bi_output_file_id b)),
      (''error_file_id'', JNull), (''in_progress_at'', JNull), (''expires_at'', JNull), (''finalizing_at'', JNull),
      (''completed_at'', opt_int (bi_completed_at b)), (''failed_at'', JNull), (''expired_at'', JNull),
      (''cancelling_at'', JNull), (''cancelled_at'', JNull), (''total_requests'', JNull),
      (''completed_requests'', JInt 0), (''failed_requests'', JInt 0), (''metadata'', bi_metadata b)])"

section \<open>The queue\<close>

record batch_row =
  br_id :: string
  br_status :: string
  br_input_file_id :: string
  br_created_at :: int
  br_endpoint :: json
  br_completion_window :: json
  br_output_file_id :: "string option"
  br_completed_at :: "int option"
  br_metadata :: json

text \<open>A value bound to a text column; lists and objects cannot be bound.\<close>

definition sql_text :: "(json \<Rightarrow> string) \<Rightarrow> json \<Rightarrow> json result" where
  "sql_text show j = (case j of
     JStr s \<Rightarrow> Inr j | JNull \<Rightarrow> Inr j
   | JList _ \<Rightarrow> Inl (RuntimeError ''InterfaceError'') | JObj _ \<Rightarrow> Inl (RuntimeError ''InterfaceError'')
   | _ \<Rightarrow> Inr (JStr (show j)))"

definition create_batch ::
  "(json \<Rightarrow> string) \<Rightarrow> int \<Rightarrow> string \<Rightarrow> string \<Rightarrow> json \<Rightarrow> json \<Rightarrow> json \<Rightarrow> batch_row list \<Rightarrow> BatchInfo result \<times> batch_row list" where
  "create_batch show now fresh input_file_id endpoint window metadata db =
     (let bid = ''batch_'' @ fresh; md = (if py_truthy metadata then metadata else JObj []) in
      case (sql_text show endpoint, sql_text show window) of
        (Inr ep, Inr win) \<Rightarrow>
          if bid \<in> br_id ` set db then (Inl (RuntimeError ''IntegrityError''), db)
          else (Inr \<lparr>bi_id = bid, bi_status = StatusEnum PENDING, bi_input_file_id = input_file_id, bi_created_at = now,
                  bi_endpoint = endpoint, bi_completion_window = window, bi_output_file_id = None,
                  bi_completed_at = None, bi_metadata = md\<rparr>,
                db @ [\<lparr>br_id = bid, br_status = status_value PENDING, br_input_file_id = input_file_id,
                  br_created_at = now, br_endpoint = ep, br_completion_window = win, br_output_file_id = None,
                  br_completed_at = None, br_metadata = md\<rparr>])
      | _ \<Rightarrow> (Inl (RuntimeError ''InterfaceError''), db))"

definition retrieve_batch :: "string \<Rightarrow> batch_row list \<Rightarrow> BatchInfo result" where
  "retrieve_batch bid db = (case find (\<lambda>r. br_id r = bid) db of
     None \<Rightarrow> Inl (ValueError (''Batch '' @ bid @ '' not found''))
   | Some r \<Rightarrow> result_bind (status_of_value (br_status r)) (\<lambda>st. Inr
       \<lparr>bi_id = bid, bi_status = StatusEnum st, bi_input_file_id = br_input_file_id r, bi_created_at = br_created_at r,
        bi_endpoint = br_endpoint r, bi_completion_window = br_completion_window r,
        bi_output_file_id = br_output_file_id r, bi_completed_at = br_completed_at r, bi_metadata = br_metadata r\<rparr>))"

text \<open>
  The condition \<^verbatim>\<open>created_at > ?\<close> with a text: it is compared as a number if it reads as one, and
  otherwise every integer is below every text. \<open>sql_number\<close> is that reading.
\<close>

definition created_after :: "(string \<Rightarrow> real option) \<Rightarrow> string option \<Rightarrow> batch_row \<Rightarrow> bool" where
  "created_after sql_number after r = (case after of
     None \<Rightarrow> True
   | Some a \<Rightarrow> a = [] \<or> (case sql_number a of None \<Rightarrow> False | Some x \<Rightarrow> x < of_int (br_created_at r)))"

definition limit_rows :: "int \<Rightarrow> 'a list \<Rightarrow> 'a list" where
  "limit_rows limit rows = (if limit < 0 then rows else take (nat limit) rows)"

fun retrieve_all :: "string list \<Rightarrow> batch_row list \<Rightarrow> BatchInfo list result" where
  "retrieve_all [] db = Inr []"
| "retrieve_all (i # is) db = result_bind (retrieve_batch i db) (\<lambda>b.
     result_bind (retrieve_all is db) (\<lambda>bs. Inr (b # bs)))"

definition list_batches ::
  "(string \<Rightarrow> real option) \<Rightarrow> int \<Rightarrow> string option \<Rightarrow> batch_row list \<Rightarrow> BatchInfo list result" where
  "list_batches sql_number limit after db =
     (let rows = sort_key (\<lambda>r. - br_created_at r) (filter (created_after sql_number after) db)
      in retrieve_all (map br_id (limit_rows limit rows)) db)"

definition update_row :: "string \<Rightarrow> (batch_row \<Rightarrow> batch_row) \<Rightarrow> batch_row list \<Rightarrow> batch_row list" where
  "update_row bid f db = map (\<lambda>r. if br_id r = bid then f r else r) db"

definition cancel_batch :: "int \<Rightarrow> string \<Rightarrow> batch_row list \<Rightarrow> BatchInfo result \<times> batch_row list" where
  "cancel_batch now bid db = (case retrieve_batch bid db of
     Inl x \<Rightarrow> (Inl x, db)
   | Inr b \<Rightarrow>
     if bi_status b \<in> {StatusEnum COMPLETED, StatusEnum FAILED} then (Inr b, db)
     else (Inr (b\<lparr>bi_status := StatusText ''cancelled'', bi_completed_at := Some now\<rparr>),
           update_row bid (\<lambda>r. r\<lparr>br_status := ''cancelled'', br_completed_at := Some now\<rparr>) db))"

section \<open>The background processor\<close>

record batch_processor =
  bp_base :: string
  bp_db :: "batch_row list"
  bp_fs :: filesystem
  bp_current :: "string option"

definition initialize_batch_processor :: "string \<Rightarrow> string \<Rightarrow> batch_processor result" where
  "initialize_batch_processor name base =
     (if name = ''local'' then Inl (RuntimeError ''ModuleNotFoundError: vllm_router.batch'')
      else Inl (ValueError ''Unknown batch processor''))"

text \<open>What the constructor is meant to set up.\<close>

definition processor_init :: "string \<Rightarrow> batch_processor" where
  "processor_init base = \<lparr>bp_base = base, bp_db = [], bp_fs = [], bp_current = None\<rparr>"

text \<open>The head of the loop: the oldest pending batch is marked as running.\<close>

definition claim_batch :: "batch_processor \<Rightarrow> batch_processor" where
  "claim_batch s = (case sort_key br_created_at (filter (\<lambda>r. br_status r = ''pending'') (bp_db s)) of
     [] \<Rightarrow> s
   | r # _ \<Rightarrow> s\<lparr>bp_db := update_row (br_id r) (\<lambda>r. r\<lparr>br_status := ''running''\<rparr>) (bp_db s),
               bp_current := Some (br_id r)\<rparr>)"

text \<open>The rest: the result goes to the storage, which may fail, and the row gets its final state.\<close>

definition finish_batch :: "int \<Rightarrow> string \<Rightarrow> string option \<Rightarrow> batch_processor \<Rightarrow> batch_processor" where
  "finish_batch now fresh result s = (case bp_current s of
     None \<Rightarrow> s
   | Some bid \<Rightarrow>
     (case save_file (bp_base s) now fresh None DEFAULT_USER_ID (Some (bid @ ''_result.txt'')) result ''batch_output'' (bp_fs s) of
        (Inr f, fs') \<Rightarrow> s\<lparr>bp_fs := fs', bp_current := None, bp_db := update_row bid
            (\<lambda>r. r\<lparr>br_status := status_value COMPLETED, br_completed_at := Some now, br_output_file_id := Some (of_id f)\<rparr>) (bp_db s)\<rparr>
      | (Inl x, fs') \<Rightarrow> s\<lparr>bp_fs := fs', bp_current := None, bp_db := update_row bid
            (\<lambda>r. r\<lparr>br_status := status_value FAILED, br_completed_at := Some now, br_output_file_id := None\<rparr>) (bp_db s)\<rparr>))"

text \<open>The steps of the service; a batch is claimed only when the loop is back at its head.\<close>

datatype batch_event =
    BUpload int string string
  | BCreate int string string json json json
  | BCancel int string
  | BClaim
  | BFinish int string "string option"

fun batch_step :: "(json \<Rightarrow> string) \<Rightarrow> batch_event \<Rightarrow> batch_processor \<Rightarrow> batch_processor" where
  "batch_step show (BUpload now fresh content) s =
     s\<lparr>bp_fs := snd (save_file (bp_base s) now fresh None DEFAULT_USER_ID None (Some content) DEFAULT_PURPOSE (bp_fs s))\<rparr>"
| "batch_step show (BCreate now fresh inp ep win md) s =
     s\<lparr>bp_db := snd (create_batch show now fresh inp ep win md (bp_db s))\<rparr>"
| "batch_step show (BCancel now bid) s = s\<lparr>bp_db := snd (cancel_batch now bid (bp_db s))\<rparr>"
| "batch_step show BClaim s = (if bp_current s = None then claim_batch s else s)"
| "batch_step show (BFinish now fresh result) s = finish_batch now fresh result s"

definition batch_run :: "(json \<Rightarrow> string) \<Rightarrow> batch_event list \<Rightarrow> batch_processor \<Rightarrow> batch_processor" where
  "batch_run show evs s = fold (batch_step show) evs s"

section \<open>Batch handlers\<close>

definition json_result :: "(string, json) dict result \<Rightarrow> string \<Rightarrow> client_reply" where
  "json_result r msg = (case r of
     Inl x \<Rightarrow> not_found_or_raise msg x | Inr d \<Rightarrow> ReplyJson (JSONResponse 200 (JObj d) []))"

text \<open>The creation handler turns every exception into a 500 response.\<close>

definition batch_request ::
  "(json \<Rightarrow> string) \<Rightarrow> int \<Rightarrow> string \<Rightarrow> json \<Rightarrow> batch_processor \<Rightarrow> (client_reply result) \<times> batch_processor" where
  "batch_request show_json now fresh j s = (case json_contains j ''input_file_id'' of
     Inl x \<Rightarrow> (Inl x, s)
   | Inr False \<Rightarrow> (Inr (error_content 400 ''Missing required parameter 'input_file_id' ''), s)
   | Inr True \<Rightarrow> (case json_contains j ''endpoint'' of
       Inl x \<Rightarrow> (Inl x, s)
     | Inr False \<Rightarrow> (Inr (error_content 400 ''Missing required parameter 'endpoint' ''), s)
     | Inr True \<Rightarrow> (case j of
         JObj d \<Rightarrow> (case dict_get d ''input_file_id'' JNull of
           JStr fid \<Rightarrow> (case get_file (bp_base s) fid DEFAULT_USER_ID (bp_fs s) of
             Inl (FileNotFoundError _) \<Rightarrow> (Inr (error_content 404 (''File '' @ fid @ '' not found'')), s)
           | Inl x \<Rightarrow> (Inl x, s)
           | Inr _ \<Rightarrow> (case create_batch show_json now fresh fid (dict_get d ''endpoint'' JNull)
                 (dict_get d ''completion_window'' (JStr ''5s'')) (dict_get d ''metadata'' JNull) (bp_db s) of
               (Inl x, db) \<Rightarrow> (Inl x, s\<lparr>bp_db := db\<rparr>)
             | (Inr b, db) \<Rightarrow> (result_bind (batch_to_dict b) (\<lambda>d. Inr (ReplyJson (JSONResponse 200 (JObj d) []))),
                                s\<lparr>bp_db := db\<rparr>)))
         | _ \<Rightarrow> (Inl (TypeError ''join() argument must be str''), s))
       | _ \<Rightarrow> (Inl (TypeError ''indices must be integers''), s))))"

definition route_batches ::
  "(json \<Rightarrow> string) \<Rightarrow> (py_exn \<Rightarrow> string) \<Rightarrow> int \<Rightarrow> string \<Rightarrow> payload \<Rightarrow> batch_processor option
     \<Rightarrow> client_reply \<times> batch_processor option" where
  "route_batches show_json show now fresh body service =
     (let failed = (\<lambda>x. error_content 500 (''Failed to process batch request: '' @ show x)) in
      case json_loads body of
        None \<Rightarrow> (failed (ValueError ''JSONDecodeError''), service)
      | Some j \<Rightarrow> (case service of
          None \<Rightarrow> (failed (AttributeError ''batch_storage''), None)
        | Some s \<Rightarrow> (case batch_request show_json now fresh j s of
            (Inl x, s') \<Rightarrow> (failed x, Some s') | (Inr r, s') \<Rightarrow> (r, Some s'))))"

definition route_get_batch :: "string \<Rightarrow> batch_processor option \<Rightarrow> client_reply" where
  "route_get_batch bid service = (case service of
     None \<Rightarrow> ReplyRaise (AttributeError ''batch_processor'')
   | Some s \<Rightarrow> json_result (result_bind (retrieve_batch bid (bp_db s)) batch_to_dict) (''Batch '' @ bid @ '' not found''))"

fun dicts_of :: "BatchInfo list \<Rightarrow> json list result" where
  "dicts_of [] = Inr []"
| "dicts_of (b # bs) = result_bind (batch_to_dict b) (\<lambda>d. result_bind (dicts_of bs) (\<lambda>ds. Inr (JObj d # ds)))"

definition route_list_batches ::
  "(string \<Rightarrow> real option) \<Rightarrow> int \<Rightarrow> string option \<Rightarrow> batch_processor option \<Rightarrow> client_reply" where
  "route_list_batches sql_number limit after service = (case service of
     None \<Rightarrow> ReplyRaise (AttributeError ''batch_processor'')
   | Some s \<Rightarrow> json_result
       (result_bind (list_batches sql_number limit after (bp_db s)) (\<lambda>bs.
        result_bind (dicts_of bs) (\<lambda>ds. Inr
          [(''object'', JStr ''list''), (''data'', JList ds),
           (''first_id'', if bs = [] then JNull else JStr (bi_id (hd bs))),
           (''last_id'', if bs = [] then JNull else JStr (bi_id (last bs))),
           (''has_more'', JBool (int (length ds) = limit))]))) ''No batches found'')"

definition route_cancel_batch :: "int \<Rightarrow> string \<Rightarrow> batch_processor option \<Rightarrow> client_reply \<times> batch_processor option" where
  "route_cancel_batch now bid service = (case service of
     None \<Rightarrow> (ReplyRaise (AttributeError ''batch_processor''), None)
   | Some s \<Rightarrow> (case cancel_batch now bid (bp_db s) of
       (r, db) \<Rightarrow> (json_result (result_bind r batch_to_dict) (''Batch '' @ bid @ '' not found''), Some (s\<lparr>bp_db := db\<rparr>))))"

section \<open>The storage contract\<close>

text \<open>
  What the handlers and the processor rely on: a stored file is found with its content until it is
  removed or stored again, and no operation touches another file.
\<close>

locale file_store =
  fixes save :: "'s \<Rightarrow> string \<Rightarrow> string \<Rightarrow> 's"
    and content :: "'s \<Rightarrow> string \<Rightarrow> string option"
    and remove :: "'s \<Rightarrow> string \<Rightarrow> 's"
    and plain :: "string \<Rightarrow> bool"
  assumes content_save: "plain i \<Longrightarrow> plain j \<Longrightarrow> content (save s i c) j = (if j = i then Some c else content s j)"
    and content_remove: "plain i \<Longrightarrow> plain j \<Longrightarrow> content (remove s i) j = (if j = i then None else content s j)"
begin

lemma save_all_other:
  "plain j \<Longrightarrow> \<forall>(i, c) \<in> set fs. plain i \<and> i \<noteq> j \<Longrightarrow> content (fold (\<lambda>(i, c) s. save s i c) fs s) j = content s j"
  by (induction fs arbitrary: s) (auto simp: content_save)

lemma save_survives:
  assumes "plain i" "\<forall>(k, c') \<in> set fs. plain k \<and> k \<noteq> i"
  shows "content (fold (\<lambda>(k, c) s. save s k c) fs (save s i c)) i = Some c"
  using assms by (simp add: save_all_other content_save)

lemma save_then_remove:
  "plain i \<Longrightarrow> plain j \<Longrightarrow> content s i = None \<Longrightarrow> content (remove (save s i c) i) j = content s j"
  by (simp add: content_save content_remove)

end

definition plain_id :: "string \<Rightarrow> bool" where
  "plain_id i = (\<not> startswith i ''/'')"

definition stored :: "string \<Rightarrow> filesystem \<Rightarrow> string \<Rightarrow> string option" where
  "stored base fs i = map_option fst (map_of fs (file_path base DEFAULT_USER_ID i))"

lemma file_path_eq: "plain_id i \<Longrightarrow> plain_id j \<Longrightarrow> file_path base u i = file_path base u j \<longleftrightarrow> i = j"
  by (auto simp: file_path_def os_path_join_def [of "os_path_join base u"] plain_id_def)

interpretation local_files: file_store
  "\<lambda>fs i c. snd (save_file base now [] (Some i) DEFAULT_USER_ID None (Some c) DEFAULT_PURPOSE fs)"
  "stored base" "\<lambda>fs i. delete_file base i DEFAULT_USER_ID fs" plain_id for base now
  by unfold_locales (auto simp: save_file_def stored_def delete_file_def file_path_eq)

lemma plain_fresh: "plain_id (''file-'' @ fresh)"
  by (simp add: plain_id_def startswith_def)

lemma stored_content: "stored base fs i = (case get_file_content base i DEFAULT_USER_ID fs of Inl _ \<Rightarrow> None | Inr c \<Rightarrow> Some c)"
  by (auto simp: stored_def get_file_content_def split: option.split)

section \<open>Facts about the queue\<close>

definition ids :: "batch_row list \<Rightarrow> string list" where
  "ids db = map br_id db"

text \<open>The states a row can be in, and what its other columns hold then.\<close>

definition row_ok :: "batch_processor \<Rightarrow> batch_row \<Rightarrow> bool" where
  "row_ok s r \<longleftrightarrow>
     br_status r = ''pending'' \<and> br_output_file_id r = None \<and> br_completed_at r = None \<or>
     br_status r = ''running'' \<and> br_output_file_id r = None \<and> bp_current s = Some (br_id r) \<or>
     br_status r = ''completed'' \<and> br_completed_at r \<noteq> None \<and>
       (\<exists>f. br_output_file_id r = Some f \<and> stored (bp_base s) (bp_fs s) f \<noteq> None) \<or>
     br_status r = ''failed'' \<and> br_completed_at r \<noteq> None \<and> br_output_file_id r = None \<or>
     br_status r = ''cancelled'' \<and> br_completed_at r \<noteq> None \<and> br_output_file_id r = None"

definition batch_inv :: "batch_processor \<Rightarrow> bool" where
  "batch_inv s \<longleftrightarrow> distinct (ids (bp_db s)) \<and> (\<forall>r \<in> set (bp_db s). row_ok s r) \<and>
     (\<forall>b. bp_current s = Some b \<longrightarrow> b \<in> set (ids (bp_db s)))"

lemma ids_update [simp]: "(\<And>r. br_id (f r) = br_id r) \<Longrightarrow> ids (update_row b f db) = ids db"
  by (auto simp: ids_def update_row_def)

lemma in_update: "r \<in> set (update_row b f db) \<longleftrightarrow> (\<exists>q \<in> set db. r = (if br_id q = b then f q else q))"
  by (auto simp: update_row_def image_iff simp del: if_image_distrib)

lemma stored_after_save:
  "stored base fs f \<noteq> None \<Longrightarrow> stored base (snd (save_file base now fresh i DEFAULT_USER_ID n c p fs)) f \<noteq> None"
  by (auto simp: stored_def save_file_def split: option.splits)

lemma stored_saved:
  "save_file base now fresh i DEFAULT_USER_ID n c p fs = (Inr f, fs') \<Longrightarrow> stored base fs' (of_id f) \<noteq> None"
  by (auto simp: stored_def save_file_def split: option.splits)

lemma row_ok_fs:
  "row_ok s r \<Longrightarrow> (\<And>f. stored (bp_base s) (bp_fs s) f \<noteq> None \<Longrightarrow> stored (bp_base s) fs' f \<noteq> None) \<Longrightarrow>
   row_ok (s\<lparr>bp_fs := fs'\<rparr>) r"
  by (auto simp: row_ok_def)

lemma row_ok_db [simp]: "row_ok (s\<lparr>bp_db := db\<rparr>) r = row_ok s r"
  by (simp add: row_ok_def)

lemma upload_inv: "batch_inv s \<Longrightarrow> batch_inv (batch_step show (BUpload now fresh c) s)"
  by (auto simp: batch_inv_def intro!: row_ok_fs stored_after_save)

lemma create_batch_db:
  "\<exists>new. snd (create_batch show now fresh inp ep win md db) = db @ new \<and>
     (new = [] \<or> (\<exists>r. new = [r] \<and> br_id r \<notin> set (ids db) \<and> br_status r = ''pending'' \<and>
        br_output_file_id r = None \<and> br_completed_at r = None))"
proof (cases "\<exists>e w. sql_text show ep = Inr e \<and> sql_text show win = Inr w \<and> ''batch_'' @ fresh \<notin> br_id ` set db")
  case True
  then obtain e w where a: "sql_text show ep = Inr e" "sql_text show win = Inr w" "''batch_'' @ fresh \<notin> br_id ` set db"
    by blast
  define r where "r = \<lparr>br_id = ''batch_'' @ fresh, br_status = status_value PENDING, br_input_file_id = inp,
     br_created_at = now, br_endpoint = e, br_completion_window = w, br_output_file_id = None,
     br_completed_at = None, br_metadata = (if py_truthy md then md else JObj [])\<rparr>"
  have "snd (create_batch show now fresh inp ep win md db) = db @ [r]"
    using a by (simp add: create_batch_def r_def)
  moreover have "br_id r \<notin> set (ids db)" using a(3) by (simp add: r_def ids_def)
  ultimately show ?thesis by (intro exI [of _ "[r]"]) (simp add: r_def)
next
  case False
  then have "snd (create_batch show now fresh inp ep win md db) = db"
    by (auto simp: create_batch_def split: sum.split)
  then show ?thesis by simp
qed

lemma row_ok_pending:
  "br_status r = ''pending'' \<Longrightarrow> br_output_file_id r = None \<Longrightarrow> br_completed_at r = None \<Longrightarrow> row_ok s r"
  by (simp add: row_ok_def)

lemma create_inv:
  assumes "batch_inv s"
  shows "batch_inv (batch_step show (BCreate now fresh inp ep win md) s)"
proof -
  obtain new where "snd (create_batch show now fresh inp ep win md (bp_db s)) = bp_db s @ new"
    "new = [] \<or> (\<exists>r. new = [r] \<and> br_id r \<notin> set (ids (bp_db s)) \<and> br_status r = ''pending'' \<and>
        br_output_file_id r = None \<and> br_completed_at r = None)"
    using create_batch_db by blast
  then show ?thesis
    using assms by (elim disjE exE conjE) (auto simp: batch_inv_def ids_def intro: row_ok_pending)
qed

lemma cancel_cases:
  assumes "batch_inv s"
  obtains "snd (cancel_batch now b (bp_db s)) = bp_db s"
  | r where "r \<in> set (bp_db s)" "br_id r = b" "br_status r \<in> {''pending'', ''running''}"
      "snd (cancel_batch now b (bp_db s)) =
         update_row b (\<lambda>r. r\<lparr>br_status := ''cancelled'', br_completed_at := Some now\<rparr>) (bp_db s)"
proof (cases "find (\<lambda>r. br_id r = b) (bp_db s)")
  case None
  then show ?thesis by (intro that(1)) (simp add: cancel_batch_def retrieve_batch_def)
next
  case (Some r)
  then have r: "r \<in> set (bp_db s)" "br_id r = b" by (auto simp: find_Some_iff)
  then have "row_ok s r" using assms by (simp add: batch_inv_def)
  then consider "br_status r \<in> {''pending'', ''running''}" | "br_status r \<in> {''completed'', ''failed'', ''cancelled''}"
    by (auto simp: row_ok_def)
  then show ?thesis
  proof cases
    case 1
    then show ?thesis
      using r Some by (intro that(2) [of r]) (auto simp: cancel_batch_def retrieve_batch_def status_of_value_def)
  next
    case 2
    then show ?thesis
      using Some by (intro that(1)) (auto simp: cancel_batch_def retrieve_batch_def status_of_value_def)
  qed
qed

lemma same_id_same_row: "distinct (ids db) \<Longrightarrow> r \<in> set db \<Longrightarrow> q \<in> set db \<Longrightarrow> br_id r = br_id q \<Longrightarrow> r = q"
  by (auto simp: ids_def distinct_map inj_on_def)

lemma cancel_inv:
  assumes i: "batch_inv s"
  shows "batch_inv (batch_step show (BCancel now b) s)"
proof (cases rule: cancel_cases [OF i, of now b])
  case 1
  then show ?thesis using i by simp
next
  case (2 r)
  have "br_output_file_id r = None" using i 2(1,3) by (auto simp: batch_inv_def row_ok_def)
  then have "row_ok s (r\<lparr>br_status := ''cancelled'', br_completed_at := Some now\<rparr>)" by (simp add: row_ok_def)
  moreover have "q = r" if "q \<in> set (bp_db s)" "br_id q = b" for q
    using same_id_same_row i 2(1,2) that by (auto simp: batch_inv_def)
  ultimately show ?thesis using i by (auto simp: 2(4) batch_inv_def in_update)
qed

lemma claim_cases:
  obtains "list_all (\<lambda>r. br_status r \<noteq> ''pending'') (bp_db s)" "claim_batch s = s"
  | r where "r \<in> set (bp_db s)" "br_status r = ''pending''"
      "\<forall>q \<in> set (bp_db s). br_status q = ''pending'' \<longrightarrow> br_created_at r \<le> br_created_at q"
      "claim_batch s = s\<lparr>bp_db := update_row (br_id r) (\<lambda>r. r\<lparr>br_status := ''running''\<rparr>) (bp_db s), bp_current := Some (br_id r)\<rparr>"
proof (cases "sort_key br_created_at (filter (\<lambda>r. br_status r = ''pending'') (bp_db s))")
  case Nil
  then have "filter (\<lambda>r. br_status r = ''pending'') (bp_db s) = []"
    using length_sort [of br_created_at "filter (\<lambda>r. br_status r = ''pending'') (bp_db s)"] by simp
  then show ?thesis using Nil by (intro that(1)) (auto simp: claim_batch_def list_all_iff filter_empty_conv)
next
  case (Cons r rs)
  let ?p = "filter (\<lambda>r. br_status r = ''pending'') (bp_db s)"
  have set: "set (r # rs) = set ?p" using set_sort [of br_created_at ?p] unfolding Cons by simp
  have "sorted (map br_created_at (r # rs))" using sorted_sort_key [of br_created_at ?p] unfolding Cons .
  then have "\<forall>q \<in> set ?p. br_created_at r \<le> br_created_at q" using set by auto
  then show ?thesis using Cons set by (intro that(2) [of r]) (auto simp: claim_batch_def)
qed

lemma claim_inv:
  assumes i: "batch_inv s" and free: "bp_current s = None"
  shows "batch_inv (claim_batch s)"
proof (cases rule: claim_cases [of s])
  case 1
  then show ?thesis using i by simp
next
  case (2 r)
  let ?s = "claim_batch s"
  have d: "distinct (ids (bp_db s))" using i by (simp add: batch_inv_def)
  have ok: "row_ok ?s q" if "q \<in> set (bp_db s)" "br_id q \<noteq> br_id r" for q
  proof -
    have "row_ok s q" using i that by (simp add: batch_inv_def)
    then show ?thesis using free by (auto simp: row_ok_def 2(4))
  qed
  have r: "row_ok ?s (r\<lparr>br_status := ''running''\<rparr>)"
  proof -
    have "row_ok s r" using i 2(1) by (simp add: batch_inv_def)
    then have "br_output_file_id r = None" using 2(2) by (simp add: row_ok_def)
    then show ?thesis by (simp add: row_ok_def 2(4))
  qed
  have same: "q = r" if "q \<in> set (bp_db s)" "br_id q = br_id r" for q
    using same_id_same_row [OF d that(1) 2(1) that(2)] .
  have "row_ok ?s q" if q: "q \<in> set (bp_db ?s)" for q
  proof -
    obtain p where p: "p \<in> set (bp_db s)" "q = (if br_id p = br_id r then p\<lparr>br_status := ''running''\<rparr> else p)"
      using q by (auto simp: 2(4) in_update)
    then show ?thesis using ok r same by (cases "br_id p = br_id r") auto
  qed
  moreover have "br_id r \<in> set (ids (bp_db s))" using 2(1) by (simp add: ids_def)
  ultimately show ?thesis using d by (simp add: batch_inv_def 2(4))
qed

text \<open>What finishing does to the row of the current batch.\<close>

lemma finish_effect:
  assumes "bp_current s = Some b"
  obtains g fs' where "finish_batch now fresh res s = s\<lparr>bp_fs := fs', bp_current := None, bp_db := update_row b g (bp_db s)\<rparr>"
    and "\<And>r. br_id (g r) = br_id r" "\<And>f. stored (bp_base s) (bp_fs s) f \<noteq> None \<Longrightarrow> stored (bp_base s) fs' f \<noteq> None"
    and "\<And>r. row_ok (s\<lparr>bp_fs := fs', bp_current := None\<rparr>) (g r)" "\<And>r. br_status (g r) \<in> {''completed'', ''failed''}"
proof -
  obtain r fs' where sv: "save_file (bp_base s) now fresh None DEFAULT_USER_ID (Some (b @ ''_result.txt'')) res ''batch_output''
      (bp_fs s) = (r, fs')" by fastforce
  have keep: "stored (bp_base s) fs' f \<noteq> None" if "stored (bp_base s) (bp_fs s) f \<noteq> None" for f
    using stored_after_save [OF that, of now fresh None "Some (b @ ''_result.txt'')" res "''batch_output''"] sv by simp
  show ?thesis
  proof (cases r)
    case (Inl x)
    then show ?thesis
      using assms sv keep
      by (intro that [where fs' = fs' and g = "\<lambda>r. r\<lparr>br_status := status_value FAILED, br_completed_at := Some now, br_output_file_id := None\<rparr>"])
        (simp_all add: finish_batch_def row_ok_def)
  next
    case (Inr f)
    then have "stored (bp_base s) fs' (of_id f) \<noteq> None" using sv stored_saved by blast
    then show ?thesis
      using assms sv keep Inr
      by (intro that [where fs' = fs' and g = "\<lambda>r. r\<lparr>br_status := status_value COMPLETED, br_completed_at := Some now, br_output_file_id := Some (of_id f)\<rparr>"])
        (simp_all add: finish_batch_def row_ok_def)
  qed
qed

lemma row_ok_other:
  "row_ok s r \<Longrightarrow> bp_current s = Some b \<Longrightarrow> br_id r \<noteq> b \<Longrightarrow>
   (\<And>f. stored (bp_base s) (bp_fs s) f \<noteq> None \<Longrightarrow> stored (bp_base s) fs' f \<noteq> None) \<Longrightarrow>
   row_ok (s\<lparr>bp_fs := fs', bp_current := None\<rparr>) r"
  by (auto simp: row_ok_def)

lemma finish_inv:
  assumes i: "batch_inv s"
  shows "batch_inv (finish_batch now fresh res s)"
proof (cases "bp_current s")
  case None
  then show ?thesis using i by (simp add: finish_batch_def)
next
  case (Some b)
  obtain g fs' where g: "finish_batch now fresh res s = s\<lparr>bp_fs := fs', bp_current := None, bp_db := update_row b g (bp_db s)\<rparr>"
    "\<And>r. br_id (g r) = br_id r" "\<And>f. stored (bp_base s) (bp_fs s) f \<noteq> None \<Longrightarrow> stored (bp_base s) fs' f \<noteq> None"
    "\<And>r. row_ok (s\<lparr>bp_fs := fs', bp_current := None\<rparr>) (g r)"
    using finish_effect [OF Some] by metis
  let ?s = "s\<lparr>bp_fs := fs', bp_current := None\<rparr>"
  have "row_ok ?s q" if q: "q \<in> set (update_row b g (bp_db s))" for q
  proof -
    obtain p where p: "p \<in> set (bp_db s)" "q = (if br_id p = b then g p else p)" using q unfolding in_update by blast
    have "row_ok s p" using i p(1) by (simp add: batch_inv_def)
    then show ?thesis using row_ok_other [OF _ Some _ g(3)] g(4) p(2) by (cases "br_id p = b") simp_all
  qed
  moreover have "finish_batch now fresh res s = ?s\<lparr>bp_db := update_row b g (bp_db s)\<rparr>" using g(1) by simp
  ultimately show ?thesis using i g(2) by (simp add: batch_inv_def)
qed

lemma batch_step_inv: "batch_inv s \<Longrightarrow> batch_inv (batch_step show e s)"
proof (cases e)
  case BClaim
  assume "batch_inv s"
  then show ?thesis using BClaim claim_inv by simp
qed (use upload_inv create_inv cancel_inv finish_inv in \<open>simp_all del: batch_step.simps(1-3)\<close>)

lemma batch_run_inv: "batch_inv s \<Longrightarrow> batch_inv (batch_run show evs s)"
  unfolding batch_run_def by (induction evs arbitrary: s) (simp_all add: batch_step_inv)

lemma processor_init_inv: "batch_inv (processor_init base)"
  by (simp add: batch_inv_def processor_init_def ids_def)

text \<open>The number of pending batches, and one round of the loop.\<close>

definition pending :: "batch_processor \<Rightarrow> batch_row list" where
  "pending s = filter (\<lambda>r. br_status r = ''pending'') (bp_db s)"

lemma filter_update_row:
  assumes "distinct (ids db)" "r \<in> set db" "P r" "\<And>q. br_id (f q) = br_id q" "\<And>q. \<not> P (f q)"
  shows "length (filter P (update_row (br_id r) f db)) + 1 = length (filter P db)"
  using assms(1,2)
proof (induction db)
  case (Cons q db)
  show ?case
  proof (cases "br_id q = br_id r")
    case True
    then have "br_id r \<notin> br_id ` set db" using Cons.prems(1) by (simp add: ids_def)
    then have "update_row (br_id r) f db = db" 
      unfolding update_row_def by - (rule map_idI, metis image_eqI)
    moreover have "q = r" using Cons.prems True by (auto simp: ids_def)
    ultimately show ?thesis using assms(3,5) by (simp add: update_row_def)
  next
    case False
    then have "length (filter P (update_row (br_id r) f db)) + 1 = length (filter P db)"
      using Cons by (auto simp: ids_def)
    then show ?thesis using False by (simp add: update_row_def)
  qed
qed simp

lemma filter_update_same:
  "\<forall>q \<in> set db. br_id q = b \<longrightarrow> \<not> P q \<and> \<not> P (g q) \<Longrightarrow> filter P (update_row b g db) = filter P db"
  by (induction db) (auto simp: update_row_def)

lemma round_pending:
  assumes i: "batch_inv s" and free: "bp_current s = None"
  shows "length (pending (finish_batch now fresh res (claim_batch s))) = length (pending s) - 1"
    and "bp_current (finish_batch now fresh res (claim_batch s)) = None"
proof -
  let ?run = "\<lambda>r. r\<lparr>br_status := ''running''\<rparr>"
  show "length (pending (finish_batch now fresh res (claim_batch s))) = length (pending s) - 1"
  proof (cases rule: claim_cases [of s])
    case 1
    then have "pending s = []" by (simp add: pending_def filter_empty_conv list_all_iff)
    then show ?thesis using 1 free by (simp add: finish_batch_def)
  next
    case (2 r)
    have d: "distinct (ids (bp_db s))" using i by (simp add: batch_inv_def)
    have claimed: "length (pending (claim_batch s)) + 1 = length (pending s)"
      unfolding pending_def 2(4) using filter_update_row [OF d 2(1), of "\<lambda>r. br_status r = ''pending''" ?run] 2(2) by simp
    have cur: "bp_current (claim_batch s) = Some (br_id r)" using 2(4) by simp
    obtain g fs' where g: "finish_batch now fresh res (claim_batch s) =
        (claim_batch s)\<lparr>bp_fs := fs', bp_current := None, bp_db := update_row (br_id r) g (bp_db (claim_batch s))\<rparr>"
      "\<And>q. br_status (g q) \<in> {''completed'', ''failed''}"
      using finish_effect [OF cur, of now fresh res] by metis
    have "br_status q \<noteq> ''pending'' \<and> br_status (g q) \<noteq> ''pending''"
      if q: "q \<in> set (bp_db (claim_batch s))" "br_id q = br_id r" for q
    proof -
      obtain p where p: "p \<in> set (bp_db s)" "q = (if br_id p = br_id r then ?run p else p)"
        using q(1) by (simp add: 2(4) in_update) blast
      then have "q = ?run p" using q(2) by (cases "br_id p = br_id r") auto
      then show ?thesis using g(2) [of q] by auto
    qed
    then have "pending (finish_batch now fresh res (claim_batch s)) = pending (claim_batch s)"
      unfolding pending_def g(1) by (simp add: filter_update_same)
    then show ?thesis using claimed by simp
  qed
  show "bp_current (finish_batch now fresh res (claim_batch s)) = None"
    by (cases "bp_current (claim_batch s)") (auto simp: finish_batch_def split: prod.split sum.split)
qed

section \<open>Properties\<close>

text \<open>C32. Stored files are found again: what was uploaded is read back byte for byte under the identifier that
  was returned, also after any other uploads, no other file changes, and its metadata are the identifier, size and time of the
  upload; the name and the purpose that were given are not kept.\<close>

theorem stored_file_roundtrip:
  assumes "save_file base now fresh None DEFAULT_USER_ID name (Some c) purpose fs = (Inr f, fs')"
  shows "get_file_content base (of_id f) DEFAULT_USER_ID fs' = Inr c \<and>
    get_file base (of_id f) DEFAULT_USER_ID fs' = Inr (f\<lparr>of_filename := of_id f, of_purpose := DEFAULT_PURPOSE\<rparr>) \<and>
    (\<forall>j. plain_id j \<and> j \<noteq> of_id f \<longrightarrow>
       get_file_content base j DEFAULT_USER_ID fs' = get_file_content base j DEFAULT_USER_ID fs) \<and>
    (\<forall>ups. (\<forall>(i, d) \<in> set ups. plain_id i \<and> i \<noteq> of_id f) \<longrightarrow>
       get_file_content base (of_id f) DEFAULT_USER_ID (fold (\<lambda>(i, d) s.
         snd (save_file base now [] (Some i) DEFAULT_USER_ID None (Some d) DEFAULT_PURPOSE s)) ups fs') = Inr c)"
proof -
  have f: "of_id f = ''file-'' @ fresh" "fs' = dict_set fs (file_path base DEFAULT_USER_ID (of_id f)) (c, now)"
    "of_bytes f = int (length c)" "of_created_at f = now" "of_object f = ''file''"
    using assms by (auto simp: save_file_def)
  have plain: "plain_id (of_id f)" unfolding f(1) by (rule plain_fresh)
  have st: "stored base fs' (of_id f) = Some c" by (simp add: stored_def f(2))
  have later: "get_file_content base (of_id f) DEFAULT_USER_ID (fold (\<lambda>(i, d) s.
      snd (save_file base now [] (Some i) DEFAULT_USER_ID None (Some d) DEFAULT_PURPOSE s)) ups fs') = Inr c"
    if "\<forall>(i, d) \<in> set ups. plain_id i \<and> i \<noteq> of_id f" for ups
    using local_files.save_all_other [OF plain that, of base now fs'] st
    by (simp add: stored_content split: sum.splits)
  show ?thesis
    using later by (auto simp: get_file_content_def get_file_def f(2-5) file_path_eq plain)
qed

theorem stored_file_roundtrip_witness:
  "\<exists>f fs'. save_file ''/d'' 7 ''ab'' None DEFAULT_USER_ID (Some ''n'') (Some ''xyz'') ''p'' [] = (Inr f, fs') \<and>
     get_file_content ''/d'' (of_id f) DEFAULT_USER_ID fs' = Inr ''xyz''"
proof -
  obtain f fs' where s: "save_file ''/d'' 7 ''ab'' None DEFAULT_USER_ID (Some ''n'') (Some ''xyz'') ''p'' [] = (Inr f, fs')"
    by (simp add: save_file_def)
  from stored_file_roundtrip [OF s] s show ?thesis by blast
qed


text \<open>Rounds of the processor: each claims a batch and finishes it.\<close>

fun rounds :: "(int \<times> string \<times> string option) list \<Rightarrow> batch_event list" where
  "rounds [] = []"
| "rounds ((now, fresh, res) # rs) = BClaim # BFinish now fresh res # rounds rs"

lemma rounds_drain:
  "batch_inv s \<Longrightarrow> bp_current s = None \<Longrightarrow> length (pending (batch_run show (rounds rs) s)) = length (pending s) - length rs"
proof (induction rs arbitrary: s rule: rounds.induct)
  case (2 now fresh res rs)
  let ?t = "finish_batch now fresh res (claim_batch s)"
  have "batch_inv ?t" using 2(2,3) by (simp add: claim_inv finish_inv)
  then show ?case
    using 2 round_pending [OF 2(2,3), of now fresh res] by (simp add: batch_run_def)
qed (simp add: batch_run_def)



lemma find_by_id: "distinct (ids db) \<Longrightarrow> r \<in> set db \<Longrightarrow> find (\<lambda>q. br_id q = br_id r) db = Some r"
  by (induction db) (auto simp: ids_def)

lemma retrieve_all_fails:
  assumes "\<exists>m. retrieve_batch b db = Inl (ValueError m)" "b \<in> set bs"
  shows "\<exists>m. retrieve_all bs db = Inl (ValueError m)"
  using assms(2)
proof (induction bs)
  case (Cons c bs)
  have v: "\<exists>m. x = ValueError m" if "retrieve_batch c db = Inl x" for x
    using that by (auto simp: retrieve_batch_def status_of_value_def split: option.splits)
  show ?case
  proof (cases "retrieve_batch c db")
    case (Inl x)
    then show ?thesis using v by auto
  next
    case (Inr i)
    then have "b \<in> set bs" using Cons.prems assms(1) by auto
    then show ?thesis using Cons.IH Inr by auto
  qed
qed simp

text \<open>Cancelling goes wrong for the client: cancelling a waiting or running batch records it as cancelled,
  but the request fails with an attribute error; afterwards the batch can neither be shown nor
  listed, and a batch that was in work is later recorded as completed or failed all the same.\<close>

theorem cancelled_batch_is_unreadable:
  assumes "r \<in> set (bp_db s)" "distinct (ids (bp_db s))" "br_status r \<in> {''pending'', ''running''}"
    and "route_cancel_batch now (br_id r) (Some s) = (reply, Some s')"
  shows "reply = ReplyRaise (AttributeError ''value'') \<and>
    (\<exists>m. route_get_batch (br_id r) (Some s') = ReplyRaise (ValueError m)) \<and>
    (\<exists>m. list_batches sql_number (-1) None (bp_db s') = Inl (ValueError m)) \<and>
    (bp_current s' = Some (br_id r) \<longrightarrow>
       (\<exists>q \<in> set (bp_db (finish_batch t fresh res s')). br_id q = br_id r \<and> br_status q \<in> {''completed'', ''failed''}))"
proof -
  let ?c = "\<lambda>r. r\<lparr>br_status := ''cancelled'', br_completed_at := Some now\<rparr>"
  have only: "q = r" if "q \<in> set (bp_db s)" "br_id q = br_id r" for q
    using same_id_same_row [OF assms(2) that(1) assms(1) that(2)] .
  have found: "find (\<lambda>q. br_id q = br_id r) (bp_db s) = Some r"
    using find_by_id [OF assms(2,1)] .
  have "cancel_batch now (br_id r) (bp_db s) = (Inr b, update_row (br_id r) ?c (bp_db s))"
    if "retrieve_batch (br_id r) (bp_db s) = Inr b'" "bi_status b' \<notin> {StatusEnum COMPLETED, StatusEnum FAILED}"
      "b = b'\<lparr>bi_status := StatusText ''cancelled'', bi_completed_at := Some now\<rparr>" for b b'
    using that by (simp add: cancel_batch_def)
  then obtain b where c: "cancel_batch now (br_id r) (bp_db s) = (Inr b, update_row (br_id r) ?c (bp_db s))"
    "bi_status b = StatusText ''cancelled''"
    using assms(3) by (fastforce simp: retrieve_batch_def found status_of_value_def)
  have r: "reply = ReplyRaise (AttributeError ''value'')" and s': "s' = s\<lparr>bp_db := update_row (br_id r) ?c (bp_db s)\<rparr>"
    using assms(4) c by (auto simp: route_cancel_batch_def batch_to_dict_def json_result_def not_found_or_raise_def)
  have d': "distinct (ids (bp_db s'))" using assms(2) by (simp add: s')
  have r': "?c r \<in> set (bp_db s')" using assms(1) by (auto simp: s' in_update)
  have "find (\<lambda>q. br_id q = br_id r) (bp_db s') = Some (?c r)"
    using find_by_id [OF d' r'] by simp
  then have bad: "\<exists>m. retrieve_batch (br_id r) (bp_db s') = Inl (ValueError m)"
    by (simp add: retrieve_batch_def status_of_value_def)
  have list: "\<exists>m. list_batches sql_number (-1) None (bp_db s') = Inl (ValueError m)"
    using retrieve_all_fails [OF bad] r' by (force simp: list_batches_def limit_rows_def created_after_def image_iff)
  have fin: "\<exists>q \<in> set (bp_db (finish_batch t fresh res s')). br_id q = br_id r \<and> br_status q \<in> {''completed'', ''failed''}"
    if cur: "bp_current s' = Some (br_id r)"
  proof -
    obtain g fs' where "finish_batch t fresh res s' = s'\<lparr>bp_fs := fs', bp_current := None, bp_db := update_row (br_id r) g (bp_db s')\<rparr>"
      "\<And>q. br_id (g q) = br_id q" "\<And>q. br_status (g q) \<in> {''completed'', ''failed''}"
      using finish_effect [OF cur, of t fresh res] by metis
    then show ?thesis using r' by (intro bexI [of _ "g (?c r)"]) (auto simp: in_update)
  qed
  show ?thesis
    using r bad list fin by (auto simp: route_get_batch_def json_result_def not_found_or_raise_def)
qed

theorem cancelled_batch_is_unreadable_witness:
  "\<exists>reply s'. route_cancel_batch 9 ''batch_a'' (Some (batch_run (\<lambda>j. [])
      [BCreate 1 ''a'' ''f'' (JStr ''/v1/completions'') (JStr ''5s'') JNull] (processor_init ''/d''))) = (reply, Some s') \<and>
     reply = ReplyRaise (AttributeError ''value'')"
proof -
  let ?s = "batch_run (\<lambda>j. []) [BCreate 1 ''a'' ''f'' (JStr ''/v1/completions'') (JStr ''5s'') JNull] (processor_init ''/d'')"
  let ?r = "hd (bp_db ?s)"
  have h: "?r \<in> set (bp_db ?s)" "distinct (ids (bp_db ?s))" "br_status ?r \<in> {''pending'', ''running''}" "br_id ?r = ''batch_a''"
    by (simp_all add: batch_run_def processor_init_def create_batch_def sql_text_def ids_def)
  obtain reply s' where c: "route_cancel_batch 9 (br_id ?r) (Some ?s) = (reply, Some s')"
    by (simp add: route_cancel_batch_def case_prod_unfold)
  from cancelled_batch_is_unreadable [OF h(1-3) c] c h(4) show ?thesis by auto
qed

end
