(* ===== verification/App.thy ===== *)
theory App
  imports Config Multipart_Request Engine_Stats Feature_Gates Files_Batches
begin

text \<open>
  Startup, shutdown and reconfiguration: \<^verbatim>\<open>initialize_all\<close> and \<^verbatim>\<open>lifespan\<close> of \<^verbatim>\<open>app.py\<close>, the
  watcher of \<^verbatim>\<open>dynamic_config.py\<close> and the loading of callbacks.

  The application state holds what the request handlers read: discovery, the installed router, the
  statistics, the callbacks and the external providers. The watcher thread is a sequence of ticks; a
  tick reads the file and applies it as a whole. Options are read from the namespace at their
  type, as \<^verbatim>\<open>argparse\<close> delivers them; tracing, error reporting and the semantic cache have no
  effect on this state.
\<close>

section \<open>Reading options\<close>

fun int_option :: "json \<Rightarrow> int option" where
  "int_option (JInt i) = Some i"
| "int_option (JBool b) = Some (of_bool b)"
| "int_option _ = None"

fun str_option :: "json \<Rightarrow> string option" where
  "str_option (JStr s) = Some s"
| "str_option _ = None"

fun real_option :: "json \<Rightarrow> real option" where
  "real_option (JInt i) = Some (of_int i)"
| "real_option (JBool b) = Some (of_bool b)"
| "real_option (JFloat r) = Some r"
| "real_option _ = None"

text \<open>\<^verbatim>\<open>label in labels\<close> looks into a text, a list or the keys of a mapping; anything else raises.\<close>

fun raw_labels :: "json \<Rightarrow> labels" where
  "raw_labels (JStr s) = LabelText s"
| "raw_labels (JList l) = LabelList (concat (map (\<lambda>j. case j of JStr s \<Rightarrow> [s] | _ \<Rightarrow> []) l))"
| "raw_labels (JObj d) = LabelList (keys d)"
| "raw_labels _ = NoLabels"

fun comma_option :: "json \<Rightarrow> string list option result" where
  "comma_option JNull = Inr None"
| "comma_option (JStr s) = Inr (parse_comma_separated_args (Some s))"
| "comma_option _ = Inl (AttributeError ''split'')"

fun urls_option :: "json \<Rightarrow> url list result" where
  "urls_option (JStr s) = Inr (parse_static_urls s)"
| "urls_option _ = Inl (AttributeError ''split'')"

fun aliases_text :: "json \<Rightarrow> (string, string) dict option result" where
  "aliases_text (JStr s) = result_bind (parse_static_aliases s) (\<lambda>d. Inr (Some d))"
| "aliases_text _ = Inl (AttributeError ''split'')"

definition aliases_option :: "json \<Rightarrow> (string, string) dict option result" where
  "aliases_option j = (if py_truthy j then aliases_text j else Inr None)"

definition comma_labels :: "string list option \<Rightarrow> labels" where
  "comma_labels ls = (case ls of None \<Rightarrow> NoLabels | Some l \<Rightarrow> LabelList l)"

definition text_of :: "(json \<Rightarrow> string) \<Rightarrow> json \<Rightarrow> string" where
  "text_of show j = (case j of JStr s \<Rightarrow> s | JInt i \<Rightarrow> str_of_int i | _ \<Rightarrow> show j)"

section \<open>The application state\<close>

type_synonym callback = "payload option \<Rightarrow> body \<Rightarrow> response option"

record DynamicConfigWatcher =
  cw_path :: string
  cw_type :: string
  cw_interval :: real
  cw_current :: DynamicRouterConfig
  cw_running :: bool

text \<open>
  The running application: the part the request handlers use, and the rest. The registered router and
  the installed one are the same object; the registered copy is not read again after startup, only
  dropped and replaced.
\<close>

record ('r, 't) app_state =
  ap_proxy :: "('r, 't) proxy"
  ap_routers :: "('r, 't) registry"
  ap_callbacks :: "callback option"
  ap_scraper :: EngineStatsScraper
  ap_gates :: FeatureGates
  ap_timeout :: ClientTimeout
  ap_watcher :: "DynamicConfigWatcher option"

text \<open>
  What startup and reconfiguration take from outside: fresh engine identifiers, the clock, the
  environment, the files, and Python modules, from which a name is read.
\<close>

record startup_env =
  su_uuid :: "nat \<Rightarrow> string"
  su_md5 :: "string \<Rightarrow> string"
  su_now :: int
  su_parse_float :: "string \<Rightarrow> real option"
  su_beta_env :: "string option"
  su_getenv :: "string \<Rightarrow> string option"
  su_files :: file_env
  su_providers :: "string \<Rightarrow> raw_provider list result"
  su_import :: "string \<Rightarrow> string \<Rightarrow> callback result"
  su_semantic :: bool

definition configure_custom_callbacks :: "startup_env \<Rightarrow> string \<Rightarrow> callback result" where
  "configure_custom_callbacks env location =
     (let parts = str_split ''.'' location
      in su_import env (str_join ''.'' (butlast parts)) (last parts))"

fun callbacks_text :: "startup_env \<Rightarrow> json \<Rightarrow> callback result" where
  "callbacks_text env (JStr s) = configure_custom_callbacks env s"
| "callbacks_text env _ = Inl (AttributeError ''split'')"

section \<open>Startup\<close>

definition static_kwargs ::
  "url list \<Rightarrow> string list \<Rightarrow> (string, string) dict option \<Rightarrow> string list option \<Rightarrow> string list option \<Rightarrow> labels \<Rightarrow> labels
     \<Rightarrow> discovery_kwargs" where
  "static_kwargs us ms al ls ts p d =
     \<lparr>dk_urls = us, dk_models = ms, dk_aliases = al, dk_model_labels = ls, dk_model_types = ts, dk_namespace = [],
      dk_port = [], dk_prefill_labels = p, dk_decode_labels = d, dk_k8s_service_discovery_type = None\<rparr>"

definition k8s_kwargs :: "string \<Rightarrow> string \<Rightarrow> labels \<Rightarrow> labels \<Rightarrow> string option option \<Rightarrow> discovery_kwargs" where
  "k8s_kwargs ns port p d t =
     \<lparr>dk_urls = [], dk_models = [], dk_aliases = None, dk_model_labels = None, dk_model_types = None, dk_namespace = ns,
      dk_port = port, dk_prefill_labels = p, dk_decode_labels = d, dk_k8s_service_discovery_type = t\<rparr>"

text \<open>The length of a missing list of models cannot be taken.\<close>

definition need_models :: "string list option \<Rightarrow> string list result" where
  "need_models ms = (case ms of None \<Rightarrow> Inl (TypeError ''object of type NoneType has no len()'') | Some l \<Rightarrow> Inr l)"

definition comma_if_given :: "json \<Rightarrow> string list option result" where
  "comma_if_given j = (if py_truthy j then comma_option j else Inr None)"

definition start_kwargs ::
  "startup_env \<Rightarrow> (string, json) dict \<Rightarrow> (ServiceDiscoveryType \<times> discovery_kwargs) result" where
  "start_kwargs env ns =
     (let sd = ns_get ns ''service_discovery''; str = fe_show (su_files env);
          p = raw_labels (ns_get ns ''prefill_model_labels''); d = raw_labels (ns_get ns ''decode_model_labels'')
      in if sd = JStr ''static'' then
           result_bind (urls_option (ns_get ns ''static_backends'')) (\<lambda>us.
           result_bind (comma_option (ns_get ns ''static_models'')) (\<lambda>ms.
           result_bind (aliases_option (ns_get ns ''static_aliases'')) (\<lambda>al.
           result_bind (comma_if_given (ns_get ns ''static_model_types'')) (\<lambda>ts.
           result_bind (comma_if_given (ns_get ns ''static_model_labels'')) (\<lambda>ls.
           result_bind (need_models ms) (\<lambda>ms.
             Inr (STATIC, static_kwargs us ms al ls ts p d)))))))
         else if sd = JStr ''k8s'' then
           Inr (K8S, k8s_kwargs (text_of str (ns_get ns ''k8s_namespace'')) (text_of str (ns_get ns ''k8s_port'')) p d
             (Some (str_option (ns_get ns ''k8s_service_discovery_type''))))
         else if sd = JStr ''external-only'' then Inr (EXTERNAL_ONLY, k8s_kwargs [] [] NoLabels NoLabels None)
         else Inl (ValueError ''Invalid service discovery type''))"

definition start_discovery :: "startup_env \<Rightarrow> (string, json) dict \<Rightarrow> discovery result" where
  "start_discovery env ns = result_bind (start_kwargs env ns) (\<lambda>(t, kw).
     fst (initialize_service_discovery (su_uuid env) (su_now env) None t kw))"

definition start_routing_kwargs :: "(string, json) dict \<Rightarrow> routing_kwargs" where
  "start_routing_kwargs ns =
     \<lparr>kw_session_key = str_option (ns_get ns ''session_key''),
      kw_lmcache_controller_port = int_option (ns_get ns ''lmcache_controller_port''),
      kw_lmcache_controller_reply_port = int_option (ns_get ns ''lmcache_controller_reply_port''),
      kw_lmcache_controller_heartbeat_port = int_option (ns_get ns ''lmcache_controller_heartbeat_port''),
      kw_kv_aware_threshold = int_option (ns_get ns ''kv_aware_threshold''),
      kw_loadaware_beta = real_option (ns_get ns ''loadaware_beta''),
      kw_prefix_min_match_length = int_option (ns_get ns ''prefix_min_match_length''),
      kw_prefill_model_labels = raw_labels (ns_get ns ''prefill_model_labels''),
      kw_decode_model_labels = raw_labels (ns_get ns ''decode_model_labels''),
      kw_priority_header = str_option (ns_get ns ''priority_header''),
      kw_priority_field = str_option (ns_get ns ''priority_field''),
      kw_priority_default = int_option (ns_get ns ''priority_default''),
      kw_priority_threshold = int_option (ns_get ns ''priority_threshold''),
      kw_max_reroutes = int_option (ns_get ns ''max_instance_failover_reroute_attempts'')\<rparr>"

definition logic_option :: "json \<Rightarrow> RoutingLogic result" where
  "logic_option j = (case str_option j of
     None \<Rightarrow> Inl (ValueError ''Invalid routing logic'')
   | Some s \<Rightarrow> (case logic_of_value s of None \<Rightarrow> Inl (ValueError ''Invalid routing logic'') | Some l \<Rightarrow> Inr l))"

text \<open>The watcher starts from the configuration of the arguments and reads the file every ten seconds.\<close>

definition watch_file :: "(string, json) dict \<Rightarrow> string \<Rightarrow> json \<Rightarrow> DynamicConfigWatcher" where
  "watch_file ns t path =
     \<lparr>cw_path = path_of path, cw_type = t, cw_interval = 10, cw_current = from_args ns, cw_running = True\<rparr>"

definition start_watcher :: "(string, json) dict \<Rightarrow> DynamicConfigWatcher option" where
  "start_watcher ns =
     (if py_truthy (ns_get ns ''dynamic_config_yaml'') then Some (watch_file ns ''YAML'' (ns_get ns ''dynamic_config_yaml''))
      else if py_truthy (ns_get ns ''dynamic_config_json'') then Some (watch_file ns ''JSON'' (ns_get ns ''dynamic_config_json''))
      else None)"

definition start_batch_api :: "(string, json) dict \<Rightarrow> batch_processor option result" where
  "start_batch_api ns =
     (if \<not> py_truthy (ns_get ns ''enable_batch_api'') then Inr None
      else result_bind (initialize_storage (path_of (ns_get ns ''file_storage_class'')) (path_of (ns_get ns ''file_storage_path''))) (\<lambda>base.
           result_bind (initialize_batch_processor (path_of (ns_get ns ''batch_processor'')) base) (\<lambda>p. Inr (Some p))))"

definition start_providers :: "startup_env \<Rightarrow> (string, json) dict \<Rightarrow> ExternalProviderManager option result" where
  "start_providers env ns =
     (let path = ns_get ns ''external_providers_config'' in
      if \<not> py_truthy path then Inr None
      else result_bind (su_providers env (path_of path)) (\<lambda>ds.
           result_bind (create_external_provider_manager (su_getenv env) ds) (\<lambda>g. Inr (Some g))))"

definition start_callbacks :: "startup_env \<Rightarrow> (string, json) dict \<Rightarrow> callback option result" where
  "start_callbacks env ns =
     (let c = ns_get ns ''callbacks'' in
      if py_truthy c then result_bind (callbacks_text env c) (\<lambda>cb. Inr (Some cb)) else Inr None)"

definition start_routing ::
  "'r ring_ops \<Rightarrow> startup_env \<Rightarrow> (string, json) dict \<Rightarrow> (('r, 't) router_instance \<times> ('r, 't) registry) result" where
  "start_routing R env ns =
     result_bind (logic_option (ns_get ns ''routing_logic'')) (\<lambda>l.
     case initialize_routing_logic R (su_parse_float env) (su_beta_env env) [] l (start_routing_kwargs ns) of
       (Inl x, reg) \<Rightarrow> Inl x
     | (Inr inst, reg) \<Rightarrow> result_bind (get_routing_logic reg) (\<lambda>r. Inr (r, reg)))"

definition no_clients :: app_clients where
  "no_clients = \<lparr>prefill_client = None, decode_client = None\<rparr>"

definition initialize_all ::
  "'r ring_ops \<Rightarrow> startup_env \<Rightarrow> (string, json) dict \<Rightarrow> ('r, 't) app_state result" where
  "initialize_all R env ns =
     result_bind (start_discovery env ns) (\<lambda>d.
     result_bind (scraper_init None (real_option (ns_get ns ''engine_stats_interval''))) (\<lambda>sc.
     result_bind (rsm_init (real_option (ns_get ns ''request_stats_window''))) (\<lambda>m.
     result_bind (start_batch_api ns) (\<lambda>_.
     result_bind (start_callbacks env ns) (\<lambda>cb.
     result_bind (start_routing R env ns) (\<lambda>(r, reg).
     result_bind (start_providers env ns) (\<lambda>g.
       Inr \<lparr>ap_proxy = \<lparr>px_router = r, px_discovery = Some d, px_registry = g, px_monitor = m, px_clients = no_clients\<rparr>,
         ap_routers = reg, ap_callbacks = cb, ap_scraper = sc,
         ap_gates = initialize_feature_gates gates_init (str_option (ns_get ns ''feature_gates'')),
         ap_timeout = build_backend_client_timeout (real_option (ns_get ns ''backend_connect_timeout''))
           (real_option (ns_get ns ''backend_read_timeout'')),
         ap_watcher = start_watcher ns\<rparr>)))))))"

text \<open>\<^verbatim>\<open>main\<close>: the arguments, then all components; the options of the server follow.\<close>

definition router_main ::
  "'r ring_ops \<Rightarrow> startup_env \<Rightarrow> (string \<times> string option) list \<Rightarrow> ('r, 't) app_state result" where
  "router_main R env cli = result_bind (router_args (su_parse_float env) (su_files env) (su_semantic env) cli) (initialize_all R env)"

text \<open>The options of the server; a JSON log has no level below debug.\<close>

definition upper_char :: "char \<Rightarrow> char" where
  "upper_char c = (if 97 \<le> (of_char c :: nat) \<and> (of_char c :: nat) \<le> 122 then char_of ((of_char c :: nat) - 32) else c)"

definition uvicorn_log_level :: "string \<Rightarrow> string" where
  "uvicorn_log_level level = (if level = ''trace'' then ''DEBUG'' else map upper_char level)"

definition uvicorn_kwargs :: "(string, json) dict \<Rightarrow> (string, json) dict" where
  "uvicorn_kwargs ns =
     [(''host'', ns_get ns ''host''), (''port'', ns_get ns ''port''), (''log_level'', ns_get ns ''log_level''),
      (''root_path'', ns_get ns ''root_path''), (''timeout_keep_alive'', ns_get ns ''timeout_keep_alive'')]"

definition logger_level :: "(string, json) dict \<Rightarrow> string option" where
  "logger_level ns = (if ns_get ns ''log_format'' = JStr ''json''
     then map_option uvicorn_log_level (str_option (ns_get ns ''log_level'')) else None)"

section \<open>Reconfiguration\<close>

definition dynamic_kwargs ::
  "startup_env \<Rightarrow> DynamicRouterConfig \<Rightarrow> (ServiceDiscoveryType \<times> discovery_kwargs) result" where
  "dynamic_kwargs env c =
     (let sd = ns_get c ''service_discovery''; str = fe_show (su_files env) in
      if sd = JStr ''static'' then
        result_bind (urls_option (ns_get c ''static_backends'')) (\<lambda>us.
        result_bind (comma_option (ns_get c ''static_models'')) (\<lambda>ms.
        result_bind (aliases_option (ns_get c ''static_aliases'')) (\<lambda>al.
        result_bind (comma_option (ns_get c ''static_model_labels'')) (\<lambda>ls.
        result_bind (comma_option (ns_get c ''static_model_types'')) (\<lambda>ts.
        result_bind (comma_option (ns_get c ''prefill_model_labels'')) (\<lambda>p.
        result_bind (comma_option (ns_get c ''decode_model_labels'')) (\<lambda>d.
        result_bind (need_models ms) (\<lambda>ms.
          Inr (STATIC, static_kwargs us ms al ls ts (comma_labels p) (comma_labels d))))))))))
      else if sd = JStr ''k8s'' then
        result_bind (comma_option (ns_get c ''prefill_model_labels'')) (\<lambda>p.
        result_bind (comma_option (ns_get c ''decode_model_labels'')) (\<lambda>d.
          Inr (K8S, k8s_kwargs (text_of str (ns_get c ''k8s_namespace'')) (text_of str (ns_get c ''k8s_port''))
            (comma_labels p) (comma_labels d) None)))
      else Inl (ValueError ''Invalid service discovery type''))"

text \<open>The open client sessions belong to the application and outlive the discovery that opened them.\<close>

fun with_clients :: "app_clients \<Rightarrow> discovery \<Rightarrow> discovery" where
  "with_clients c (PodIPD s) = PodIPD (s\<lparr>pd_clients := c\<rparr>)"
| "with_clients c d = d"

definition set_discovery :: "discovery option \<Rightarrow> ('r, 't) app_state \<Rightarrow> ('r, 't) app_state" where
  "set_discovery g a = (let c = app_clients_of (ap_proxy a) in
     a\<lparr>ap_proxy := (ap_proxy a)\<lparr>px_discovery := map_option (with_clients c) g, px_clients := c\<rparr>\<rparr>)"

definition set_router :: "('r, 't) router_instance \<Rightarrow> ('r, 't) app_state \<Rightarrow> ('r, 't) app_state" where
  "set_router r a = a\<lparr>ap_proxy := (ap_proxy a)\<lparr>px_router := r\<rparr>\<rparr>"

definition watcher_reconfigure_discovery ::
  "startup_env \<Rightarrow> DynamicRouterConfig \<Rightarrow> ('r, 't) app_state \<Rightarrow> unit result \<times> ('r, 't) app_state" where
  "watcher_reconfigure_discovery env c a = (case dynamic_kwargs env c of
     Inl x \<Rightarrow> (Inl x, a)
   | Inr (t, kw) \<Rightarrow> (case reconfigure_service_discovery (su_uuid env) (su_now env) (px_discovery (ap_proxy a)) t kw of
       (Inl x, g) \<Rightarrow> (Inl x, a) | (Inr d, g) \<Rightarrow> (Inr (), set_discovery g a)))"

text \<open>Of the options of a router only these are passed on.\<close>

definition dynamic_routing_kwargs :: "DynamicRouterConfig \<Rightarrow> routing_kwargs" where
  "dynamic_routing_kwargs c =
     \<lparr>kw_session_key = str_option (ns_get c ''session_key''), kw_lmcache_controller_port = None,
      kw_lmcache_controller_reply_port = None, kw_lmcache_controller_heartbeat_port = None,
      kw_kv_aware_threshold = None, kw_loadaware_beta = None, kw_prefix_min_match_length = None,
      kw_prefill_model_labels = NoLabels, kw_decode_model_labels = NoLabels,
      kw_priority_header = str_option (ns_get c ''priority_header''),
      kw_priority_field = str_option (ns_get c ''priority_field''),
      kw_priority_default = int_option (ns_get c ''priority_default''),
      kw_priority_threshold = int_option (ns_get c ''priority_threshold''), kw_max_reroutes = None\<rparr>"

text \<open>An unknown name of a routing logic raises after the registered routers were dropped.\<close>

definition watcher_reconfigure_routing ::
  "'r ring_ops \<Rightarrow> startup_env \<Rightarrow> DynamicRouterConfig \<Rightarrow> ('r, 't) app_state \<Rightarrow> unit result \<times> ('r, 't) app_state" where
  "watcher_reconfigure_routing R env c a = (case logic_option (ns_get c ''routing_logic'') of
     Inl x \<Rightarrow> (Inl x, a\<lparr>ap_routers := cleanup_routing_logic (ap_routers a)\<rparr>)
   | Inr l \<Rightarrow> (case reconfigure_routing_logic R (su_parse_float env) (su_beta_env env) (ap_routers a) l (dynamic_routing_kwargs c) of
       (Inl x, reg) \<Rightarrow> (Inl x, a\<lparr>ap_routers := reg\<rparr>)
     | (Inr inst, reg) \<Rightarrow> (Inr (), set_router inst (a\<lparr>ap_routers := reg\<rparr>))))"

definition watcher_reconfigure_callbacks ::
  "startup_env \<Rightarrow> DynamicRouterConfig \<Rightarrow> ('r, 't) app_state \<Rightarrow> unit result \<times> ('r, 't) app_state" where
  "watcher_reconfigure_callbacks env c a =
     (let cb = ns_get c ''callbacks'' in
      if py_truthy cb then (case callbacks_text env cb of
        Inl x \<Rightarrow> (Inl x, a) | Inr f \<Rightarrow> (Inr (), a\<lparr>ap_callbacks := Some f\<rparr>))
      else (Inr (), a\<lparr>ap_callbacks := None\<rparr>))"

definition reconfigure_all ::
  "'r ring_ops \<Rightarrow> startup_env \<Rightarrow> DynamicRouterConfig \<Rightarrow> ('r, 't) app_state \<Rightarrow> unit result \<times> ('r, 't) app_state" where
  "reconfigure_all R env c a = (case watcher_reconfigure_discovery env c a of
     (Inl x, a1) \<Rightarrow> (Inl x, a1)
   | (Inr _, a1) \<Rightarrow> (case watcher_reconfigure_routing R env c a1 of
       (Inl x, a2) \<Rightarrow> (Inl x, a2)
     | (Inr _, a2) \<Rightarrow> watcher_reconfigure_callbacks env c a2))"

definition load_watched_config :: "startup_env \<Rightarrow> DynamicConfigWatcher \<Rightarrow> DynamicRouterConfig result" where
  "load_watched_config env w =
     (if cw_type w = ''YAML'' then from_yaml (su_files env) (su_semantic env) (cw_path w)
      else if cw_type w = ''JSON'' then from_json (su_files env) (su_semantic env) (cw_path w)
      else Inl (ValueError ''Unsupported config file type.''))"

text \<open>One iteration of the watcher. A configuration counts as current once all of it was applied.\<close>

definition watch_tick :: "'r ring_ops \<Rightarrow> startup_env \<Rightarrow> ('r, 't) app_state \<Rightarrow> ('r, 't) app_state" where
  "watch_tick R env a = (case ap_watcher a of
     None \<Rightarrow> a
   | Some w \<Rightarrow>
     if \<not> cw_running w then a
     else (case load_watched_config env w of
       Inl x \<Rightarrow> a
     | Inr c \<Rightarrow>
       if config_eq c (cw_current w) then a
       else (case reconfigure_all R env c a of
         (Inl x, a') \<Rightarrow> a'
       | (Inr _, a') \<Rightarrow> a'\<lparr>ap_watcher := Some (w\<lparr>cw_current := c\<rparr>)\<rparr>)))"

section \<open>Lifespan\<close>

text \<open>
  Before the first request the client sessions of the prefill and decode pools are opened and the
  models of external providers are checked against what the providers list; \<open>fetch\<close> is that
  list. A listing or a label check that raises stops the application.
\<close>

definition open_clients :: "startup_env \<Rightarrow> ('r, 't) proxy \<Rightarrow> ('r, 't) proxy result" where
  "open_clients env px = (case px_discovery px of
     None \<Rightarrow> Inl (ValueError ''Service discovery module not initialized'')
   | Some (StaticD s) \<Rightarrow> (if st_prefill_labels s = NoLabels \<or> st_decode_labels s = NoLabels then Inr px
       else result_bind (static_endpoints (su_md5 env) (su_now env) s) (\<lambda>eps.
         case initialize_client_sessions (st_prefill_labels s) (st_decode_labels s) eps (px_clients px) of
           (Inl x, _) \<Rightarrow> Inl x | (Inr _, c) \<Rightarrow> Inr (px\<lparr>px_clients := c\<rparr>)))
   | Some (PodIPD s) \<Rightarrow>
       (let s1 = pod_set_event_loop s in
        case initialize_client_sessions (pd_prefill_labels s1) (pd_decode_labels s1) (pod_endpoints s1) (pd_clients s1) of
          (Inl x, _) \<Rightarrow> Inl x | (Inr _, c) \<Rightarrow> Inr (px\<lparr>px_discovery := Some (PodIPD (s1\<lparr>pd_clients := c\<rparr>))\<rparr>))
   | Some (ServiceNameD s) \<Rightarrow>
       (case initialize_client_sessions (sn_prefill_labels s) (sn_decode_labels s) (service_endpoints s) (px_clients px) of
          (Inl x, _) \<Rightarrow> Inl x | (Inr _, c) \<Rightarrow> Inr (px\<lparr>px_clients := c\<rparr>))
   | Some ExternalOnlyD \<Rightarrow> Inr px)"

definition lifespan_enter ::
  "startup_env \<Rightarrow> (OpenAIProvider \<Rightarrow> string list) \<Rightarrow> ('r, 't) app_state \<Rightarrow> ('r, 't) app_state result" where
  "lifespan_enter env fetch a = result_bind (open_clients env (ap_proxy a)) (\<lambda>px.
     Inr (a\<lparr>ap_proxy := px\<lparr>px_registry := map_option (validate_models fetch) (px_registry px)\<rparr>\<rparr>))"

text \<open>After the last request the threads are stopped and the routers and providers dropped.\<close>

definition lifespan_exit :: "('r, 't) app_state \<Rightarrow> ('r, 't) app_state" where
  "lifespan_exit a = a\<lparr>ap_scraper := scraper_close (ap_scraper a),
     ap_watcher := map_option (\<lambda>w. w\<lparr>cw_running := False\<rparr>) (ap_watcher a),
     ap_routers := cleanup_routing_logic (ap_routers a),
     ap_proxy := (ap_proxy a)\<lparr>px_registry := map_option manager_close (px_registry (ap_proxy a))\<rparr>\<rparr>"

section \<open>Facts about startup\<close>

lemma initialize_empty:
  assumes "initialize_routing_logic R pf be [] l kw = (Inr inst, reg)"
  shows "reg = [(l, inst)] \<and> construct_router R pf be l kw = Inr (ri_router inst)"
  using assms
  by (auto simp: initialize_routing_logic_def singleton_call_def Let_def split: sum.splits if_splits)

lemma initialize_empty_fails:
  "initialize_routing_logic R pf be [] l kw = (Inl x, reg) \<Longrightarrow> reg = []"
  by (auto simp: initialize_routing_logic_def singleton_call_def Let_def split: sum.splits if_splits)

lemma start_routing_registered:
  fixes reg :: "('r, 't) registry"
  assumes "start_routing R env ns = Inr (r, reg)"
  obtains l where "logic_option (ns_get ns ''routing_logic'') = Inr l" "reg = [(l, r)]"
    "construct_router R (su_parse_float env) (su_beta_env env) l (start_routing_kwargs ns) = Inr (ri_router r)"
proof -
  obtain l where l: "logic_option (ns_get ns ''routing_logic'') = Inr l"
    using assms by (auto simp: start_routing_def)
  obtain res and reg' :: "('r, 't) registry" where res:
    "initialize_routing_logic R (su_parse_float env) (su_beta_env env) [] l (start_routing_kwargs ns) = (res, reg')"
    by fastforce
  obtain inst where inst: "res = Inr inst" using assms l res by (cases res) (auto simp: start_routing_def)
  have g: "get_routing_logic reg' = Inr r" "reg = reg'" using assms l res inst by (auto simp: start_routing_def)
  note i = res [unfolded inst]
  have "reg' = [(l, inst)]" "construct_router R (su_parse_float env) (su_beta_env env) l (start_routing_kwargs ns) = Inr (ri_router inst)"
    using initialize_empty [OF i] by auto
  moreover have "inst = r" using g(1) calculation(1) by (simp add: get_routing_logic_single)
  ultimately show thesis using that l g(2) by blast
qed

lemma initialize_all_parts:
  assumes "initialize_all R env ns = Inr a"
  obtains d m r reg where "start_discovery env ns = Inr d" "rsm_init (real_option (ns_get ns ''request_stats_window'')) = Inr m"
    "start_routing R env ns = Inr (r, reg)" "start_batch_api ns = Inr None"
    "px_discovery (ap_proxy a) = Some d" "px_monitor (ap_proxy a) = m" "px_router (ap_proxy a) = r" "ap_routers a = reg"
    "ap_watcher a = start_watcher ns"
proof -
  obtain d sc m bp cb r reg g where *: "start_discovery env ns = Inr d"
    "rsm_init (real_option (ns_get ns ''request_stats_window'')) = Inr m" "start_batch_api ns = Inr bp"
    "start_routing R env ns = Inr (r, reg)"
    and a: "a = \<lparr>ap_proxy = \<lparr>px_router = r, px_discovery = Some d, px_registry = g, px_monitor = m, px_clients = no_clients\<rparr>,
         ap_routers = reg, ap_callbacks = cb, ap_scraper = sc,
         ap_gates = initialize_feature_gates gates_init (str_option (ns_get ns ''feature_gates'')),
         ap_timeout = build_backend_client_timeout (real_option (ns_get ns ''backend_connect_timeout''))
           (real_option (ns_get ns ''backend_read_timeout'')),
         ap_watcher = start_watcher ns\<rparr>"
    using assms by (auto simp: initialize_all_def)
  have "bp = None" using *(3) by (auto simp: start_batch_api_def initialize_batch_processor_def split: if_splits)
  then show thesis using that * a by simp
qed

lemma rsm_init_start: "rsm_init w = Inr m \<Longrightarrow> \<exists>x. m = rsm_start x"
  by (auto simp: rsm_start_def rsm_init_def split: option.splits)

lemma rsm_live_start: "rsm_live (rsm_start w) = Map.empty"
  by (auto simp: rsm_live_def rsm_start_def rsm_init_def)

lemma initialize_all_sound:
  assumes "initialize_all R env ns = Inr a" "ring_laws R" "pick_laws pick"
  shows "router_ok R pick (ri_router (px_router (ap_proxy a))) \<and> rsm_inv (px_monitor (ap_proxy a)) \<and>
    rsm_live (px_monitor (ap_proxy a)) = Map.empty"
proof -
  from assms(1) obtain m r reg where p: "rsm_init (real_option (ns_get ns ''request_stats_window'')) = Inr m"
    "start_routing R env ns = Inr (r, reg)" "px_monitor (ap_proxy a) = m" "px_router (ap_proxy a) = r"
    by (rule initialize_all_parts)
  from p(2) obtain l where "construct_router R (su_parse_float env) (su_beta_env env) l (start_routing_kwargs ns) = Inr (ri_router r)"
    by (rule start_routing_registered)
  then have "router_ok R pick (ri_router r)" by (rule construct_router_ok [OF _ assms(2,3)])
  then show ?thesis using rsm_init_start [OF p(1)] p(3,4) rsm_inv_start rsm_live_start by auto
qed

section \<open>Facts about reconfiguration\<close>

lemma set_discovery_frame [simp]:
  "px_router (ap_proxy (set_discovery g a)) = px_router (ap_proxy a)"
  "px_monitor (ap_proxy (set_discovery g a)) = px_monitor (ap_proxy a)"
  "px_registry (ap_proxy (set_discovery g a)) = px_registry (ap_proxy a)"
  "ap_routers (set_discovery g a) = ap_routers a" "ap_watcher (set_discovery g a) = ap_watcher a"
  "ap_callbacks (set_discovery g a) = ap_callbacks a"
  by (simp_all add: set_discovery_def Let_def)

lemma set_router_frame [simp]:
  "px_router (ap_proxy (set_router r a)) = r"
  "px_monitor (ap_proxy (set_router r a)) = px_monitor (ap_proxy a)"
  "px_registry (ap_proxy (set_router r a)) = px_registry (ap_proxy a)"
  "px_discovery (ap_proxy (set_router r a)) = px_discovery (ap_proxy a)"
  "ap_routers (set_router r a) = ap_routers a" "ap_watcher (set_router r a) = ap_watcher a"
  "ap_callbacks (set_router r a) = ap_callbacks a"
  by (simp_all add: set_router_def)

lemma reconfigure_discovery_cases:
  assumes "watcher_reconfigure_discovery env c a = (r, a')"
  obtains (kept) x where "r = Inl x" "a' = a"
  | (replaced) t kw d where "r = Inr ()" "dynamic_kwargs env c = Inr (t, kw)"
      "create_service_discovery (su_uuid env) (su_now env) t kw = Inr d" "a' = set_discovery (Some d) a"
proof (cases "dynamic_kwargs env c")
  case (Inl x)
  then show thesis using kept [of x] assms by (simp add: watcher_reconfigure_discovery_def)
next
  case (Inr p)
  obtain t kw where p: "p = (t, kw)" by fastforce
  let ?g = "px_discovery (ap_proxy a)"
  consider x where "create_service_discovery (su_uuid env) (su_now env) t kw = Inl x \<or> ?g = None" |
    d where "create_service_discovery (su_uuid env) (su_now env) t kw = Inr d" "?g \<noteq> None"
    by (cases "create_service_discovery (su_uuid env) (su_now env) t kw") auto
  then show thesis
  proof cases
    case 1
    then have "\<exists>y. watcher_reconfigure_discovery env c a = (Inl y, a)"
      using Inr p by (auto simp: watcher_reconfigure_discovery_def reconfigure_service_discovery_def)
    then show thesis using kept assms by force
  next
    case 2
    then have "watcher_reconfigure_discovery env c a = (Inr (), set_discovery (Some d) a)"
      using Inr p by (simp add: watcher_reconfigure_discovery_def reconfigure_service_discovery_def)
    then show thesis using replaced [OF _ Inr [unfolded p] 2(1)] assms by simp
  qed
qed

lemma reconfigure_routing_cases:
  fixes a' :: "('r, 't) app_state"
  assumes "watcher_reconfigure_routing R env c a = (r, a')"
  obtains (failed) x where "r = Inl x" "a' = a\<lparr>ap_routers := []\<rparr>"
  | (installed) l inst where "r = Inr ()" "logic_option (ns_get c ''routing_logic'') = Inr l"
      "construct_router R (su_parse_float env) (su_beta_env env) l (dynamic_routing_kwargs c) = Inr (ri_router inst)"
      "ri_max_reroutes inst = (if l = DISAGGREGATED_PREFILL_ORCHESTRATED then None else Some 0)"
      "a' = set_router inst (a\<lparr>ap_routers := [(l, inst)]\<rparr>)"
proof (cases "logic_option (ns_get c ''routing_logic'')")
  case (Inl x)
  then show thesis using assms failed [of x] by (simp add: watcher_reconfigure_routing_def cleanup_routing_logic_empty)
next
  case l: (Inr l)
  obtain res and reg :: "('r, 't) registry" where i:
    "initialize_routing_logic R (su_parse_float env) (su_beta_env env) [] l (dynamic_routing_kwargs c) = (res, reg)"
    by fastforce
  have a': "(r, a') = (case res of Inl x \<Rightarrow> (Inl x, a\<lparr>ap_routers := reg\<rparr>)
      | Inr inst \<Rightarrow> (Inr (), set_router inst (a\<lparr>ap_routers := reg\<rparr>)))"
    using assms l i
    by (cases res) (simp_all add: watcher_reconfigure_routing_def reconfigure_routing_logic_def cleanup_routing_logic_empty)
  show thesis
  proof (cases res)
    case (Inl x)
    then show thesis using failed a' initialize_empty_fails [OF i [unfolded Inl]] by simp
  next
    case (Inr inst)
    have "ri_max_reroutes inst = (if l = DISAGGREGATED_PREFILL_ORCHESTRATED then None else Some 0)"
      using i Inr by (auto simp: initialize_routing_logic_def singleton_call_def dynamic_routing_kwargs_def
          opt_default_def split: sum.splits if_splits)
    then show thesis using installed [OF _ l] a' Inr initialize_empty [OF i [unfolded Inr]] by simp
  qed
qed

lemma reconfigure_callbacks_frame:
  assumes "watcher_reconfigure_callbacks env c a = (r, a')"
  shows "ap_proxy a' = ap_proxy a \<and> ap_routers a' = ap_routers a \<and> ap_watcher a' = ap_watcher a \<and>
    (\<forall>x. r = Inl x \<longrightarrow> a' = a) \<and> (r = Inr () \<longrightarrow> (ap_callbacks a' \<noteq> None \<longleftrightarrow> py_truthy (ns_get c ''callbacks'')))"
  using assms by (auto simp: watcher_reconfigure_callbacks_def Let_def split: if_splits sum.splits)

text \<open>Whatever a reconfiguration does, it leaves a sound router and neither the statistics nor the watcher change.\<close>

lemma reconfigure_all_frame:
  assumes "reconfigure_all R env c a = (r, a')" "ring_laws R" "pick_laws pick"
    and "router_ok R pick (ri_router (px_router (ap_proxy a)))"
  shows "router_ok R pick (ri_router (px_router (ap_proxy a'))) \<and> px_monitor (ap_proxy a') = px_monitor (ap_proxy a) \<and>
    px_registry (ap_proxy a') = px_registry (ap_proxy a) \<and> ap_watcher a' = ap_watcher a"
proof -
  obtain r1 a1 where 1: "watcher_reconfigure_discovery env c a = (r1, a1)" by fastforce
  have d: "px_router (ap_proxy a1) = px_router (ap_proxy a)" "px_monitor (ap_proxy a1) = px_monitor (ap_proxy a)"
    "px_registry (ap_proxy a1) = px_registry (ap_proxy a)" "ap_watcher a1 = ap_watcher a"
    using reconfigure_discovery_cases [OF 1] by (metis set_discovery_frame)+
  obtain r2 a2 where 2: "watcher_reconfigure_routing R env c a1 = (r2, a2)" by fastforce
  have rt: "router_ok R pick (ri_router (px_router (ap_proxy a2)))" "px_monitor (ap_proxy a2) = px_monitor (ap_proxy a1)"
    "px_registry (ap_proxy a2) = px_registry (ap_proxy a1)" "ap_watcher a2 = ap_watcher a1"
    using 2 by (cases rule: reconfigure_routing_cases; use assms(2-4) d construct_router_ok in \<open>force\<close>)+
  show ?thesis
  proof (cases r1)
    case (Inl x)
    then show ?thesis using assms(1,4) 1 d by (auto simp: reconfigure_all_def)
  next
    case r1: (Inr u)
    show ?thesis
    proof (cases r2)
      case (Inl x)
      then show ?thesis using assms(1) 1 2 r1 d rt by (auto simp: reconfigure_all_def)
    next
      case (Inr v)
      then have "watcher_reconfigure_callbacks env c a2 = (r, a')" using assms(1) 1 2 r1 by (simp add: reconfigure_all_def)
      then show ?thesis using reconfigure_callbacks_frame d rt by metis
    qed
  qed
qed

lemma watch_tick_sound:
  assumes "ring_laws R" "pick_laws pick" "router_ok R pick (ri_router (px_router (ap_proxy a)))"
  shows "router_ok R pick (ri_router (px_router (ap_proxy (watch_tick R env a)))) \<and>
    px_monitor (ap_proxy (watch_tick R env a)) = px_monitor (ap_proxy a) \<and>
    px_registry (ap_proxy (watch_tick R env a)) = px_registry (ap_proxy a)"
  using reconfigure_all_frame [OF prod.collapse [symmetric] assms] assms(3)
  by (auto simp: watch_tick_def split: option.split sum.split prod.split) (metis fst_conv snd_conv)+

lemma config_eq_refl [simp]: "config_eq c c"
  by (simp add: config_eq_def)

lemma load_watched_config_current [simp]: "load_watched_config env (w\<lparr>cw_current := c\<rparr>) = load_watched_config env w"
  by (simp add: load_watched_config_def)

text \<open>A tick that applies a configuration installs what the configuration names.\<close>

lemma reconfigure_all_installs:
  assumes "reconfigure_all R env c a = (Inr (), a')"
  obtains t kw d l where "dynamic_kwargs env c = Inr (t, kw)"
    "create_service_discovery (su_uuid env) (su_now env) t kw = Inr d"
    "px_discovery (ap_proxy a') = Some (with_clients (app_clients_of (ap_proxy a)) d)"
    "logic_option (ns_get c ''routing_logic'') = Inr l" "logic_of_router (ri_router (px_router (ap_proxy a'))) = l"
    "ri_max_reroutes (px_router (ap_proxy a')) = (if l = DISAGGREGATED_PREFILL_ORCHESTRATED then None else Some 0)"
    "ap_callbacks a' \<noteq> None \<longleftrightarrow> py_truthy (ns_get c ''callbacks'')" "ap_watcher a' = ap_watcher a"
proof -
  obtain a1 where 1: "watcher_reconfigure_discovery env c a = (Inr (), a1)"
    using assms by (auto simp: reconfigure_all_def split: prod.splits sum.splits)
  obtain a2 where 2: "watcher_reconfigure_routing R env c a1 = (Inr (), a2)"
    using assms 1 by (auto simp: reconfigure_all_def split: prod.splits sum.splits)
  have 3: "watcher_reconfigure_callbacks env c a2 = (Inr (), a')" using assms 1 2 by (simp add: reconfigure_all_def)
  note cb = reconfigure_callbacks_frame [OF 3]
  from 1 obtain t kw d where d: "dynamic_kwargs env c = Inr (t, kw)"
    "create_service_discovery (su_uuid env) (su_now env) t kw = Inr d" "a1 = set_discovery (Some d) a"
    by (cases rule: reconfigure_discovery_cases) auto
  from 2 show thesis
  proof (cases rule: reconfigure_routing_cases)
    case (installed l inst)
    then show thesis
      using that [OF d(1,2) _ installed(2)] cb d(3) construct_router_logic [OF installed(3)]
      by (simp add: set_discovery_def Let_def)
  qed simp
qed

lemma reconfigure_all_watcher: "reconfigure_all R env c a = (r, a') \<Longrightarrow> ap_watcher a' = ap_watcher a"
proof -
  assume r: "reconfigure_all R env c a = (r, a')"
  obtain r1 a1 where 1: "watcher_reconfigure_discovery env c a = (r1, a1)" by fastforce
  obtain r2 a2 where 2: "watcher_reconfigure_routing R env c a1 = (r2, a2)" by fastforce
  have "ap_watcher a1 = ap_watcher a" using reconfigure_discovery_cases [OF 1] by (metis set_discovery_frame(5))
  moreover have "ap_watcher a2 = ap_watcher a1" using 2 by (cases rule: reconfigure_routing_cases) simp_all
  moreover have "ap_watcher (snd (watcher_reconfigure_callbacks env c a2)) = ap_watcher a2"
    using reconfigure_callbacks_frame [OF prod.collapse [symmetric]] by blast
  ultimately show "ap_watcher a' = ap_watcher a" using r 1 2
    by (cases r1; cases r2) (auto simp: reconfigure_all_def)
qed

section \<open>Properties\<close>





text \<open>A router started from a YAML file, for the witnesses.\<close>

definition startup_example :: startup_env where
  "startup_example = \<lparr>su_uuid = (\<lambda>n. ''e''), su_md5 = id, su_now = 1, su_parse_float = (\<lambda>s. None), su_beta_env = None,
     su_getenv = (\<lambda>s. None), su_files = files_example, su_providers = (\<lambda>p. Inr []),
     su_import = (\<lambda>m i. Inl (RuntimeError ''ModuleNotFoundError'')), su_semantic = False\<rparr>"


text \<open>A running application that watches a file with another content, for the witnesses.\<close>

definition changed_file :: "string \<Rightarrow> startup_env" where
  "changed_file logic = startup_example\<lparr>su_files := files_example\<lparr>fe_yaml := (\<lambda>p. Inr (JObj
     [(''service_discovery'', JStr ''static''), (''routing_logic'', JStr logic),
      (''static_models'', JObj [(''m'', JObj [(''static_backends'', JList [JStr ''http://b:80''])])])]))\<rparr>\<rparr>"

definition watcher_example :: DynamicConfigWatcher where
  "watcher_example = \<lparr>cw_path = ''f'', cw_type = ''YAML'', cw_interval = 10, cw_current = [], cw_running = True\<rparr>"

definition app_example :: "(string list, unit) app_state" where
  "app_example = \<lparr>ap_proxy = proxy_example, ap_routers = [], ap_callbacks = None,
     ap_scraper = \<lparr>es_engine_stats = [], es_scrape_interval = 30, es_running = True\<rparr>, ap_gates = gates_init,
     ap_timeout = DEFAULT_BACKEND_CLIENT_TIMEOUT, ap_watcher = Some watcher_example\<rparr>"



section \<open>Options that cannot work\<close>

text \<open>The batch interface cannot be enabled: importing its processor fails.\<close>

lemma batch_api_prevents_startup:
  assumes "py_truthy (ns_get ns ''enable_batch_api'')"
  shows "\<nexists>a. initialize_all R env ns = Inr a"
  using assms by (auto elim!: initialize_all_parts simp: start_batch_api_def initialize_batch_processor_def split: if_splits)

text \<open>Discovery without engines can be started with but not reconfigured to.\<close>

lemma external_only_not_reconfigurable:
  "ns_get c ''service_discovery'' = JStr ''external-only'' \<Longrightarrow> fst (reconfigure_all R env c a) \<noteq> Inr ()"
  by (auto simp: reconfigure_all_def watcher_reconfigure_discovery_def dynamic_kwargs_def)

text \<open>A reconfigured router does not reroute: the configured number of reroutes is lost.\<close>

lemma reconfiguration_drops_reroutes:
  assumes "reconfigure_all R env c a = (Inr (), a')"
  shows "ri_max_reroutes (px_router (ap_proxy a')) \<in> {None, Some 0}"
  using assms by (rule reconfigure_all_installs) auto

end
