(* ===== verification/Semantic_Cache.thy ===== *)
theory Semantic_Cache
  imports App
begin

text \<open>
  The semantic cache: the FAISS adapter of \<^verbatim>\<open>semantic_cache/db_adapters/faiss_adapter.py\<close> with the
  files it persists to, the cache of \<^verbatim>\<open>semantic_cache/semantic_cache.py\<close>, the switch of
  \<^verbatim>\<open>semantic_cache/__init__.py\<close>, and the store and check functions of
  \<^verbatim>\<open>semantic_cache_integration.py\<close> with their metrics.

  The sentence transformer and the FAISS index are parameters. An embedding is a list of reals. What
  a failing disk does to a file is an input.
\<close>

section \<open>The vector index and its files\<close>

type_synonym vec = "real list"

record 'x faiss =
  IndexFlatIP :: "nat \<Rightarrow> 'x"
  ix_ntotal :: "'x \<Rightarrow> nat"
  ix_add :: "'x \<Rightarrow> vec \<Rightarrow> 'x result"
  ix_search1 :: "'x \<Rightarrow> vec \<Rightarrow> (real \<times> int) result"

text \<open>
  Documented behaviour of a flat inner-product index, given by the vectors it holds: addition
  appends, and a search for one neighbour returns the position of a vector with the largest inner product, with
  that product. A vector of another dimension is refused.
\<close>

definition inner :: "vec \<Rightarrow> vec \<Rightarrow> real" where
  "inner v w = sum_list (map2 (*) v w)"

definition flat_ip :: "'x faiss \<Rightarrow> nat \<Rightarrow> ('x \<Rightarrow> vec list) \<Rightarrow> bool" where
  "flat_ip F n vectors \<longleftrightarrow>
     vectors (IndexFlatIP F n) = [] \<and>
     (\<forall>x. ix_ntotal F x = length (vectors x)) \<and>
     (\<forall>x v. length v = n \<longrightarrow> (\<exists>y. ix_add F x v = Inr y)) \<and>
     (\<forall>x v y. ix_add F x v = Inr y \<longrightarrow> vectors y = vectors x @ [v]) \<and>
     (\<forall>x v. length v = n \<longrightarrow> vectors x \<noteq> [] \<longrightarrow> is_ok (ix_search1 F x v)) \<and>
     (\<forall>x v s i. ix_search1 F x v = Inr (s, i) \<longrightarrow> vectors x \<noteq> [] \<longrightarrow>
        0 \<le> i \<and> nat i < length (vectors x) \<and> s = inner v (vectors x ! nat i) \<and>
        (\<forall>w \<in> set (vectors x). inner v w \<le> s))"

record cache_meta =
  cm_request :: json
  cm_response :: "json list"
  cm_model :: json
  cm_usage :: json

text \<open>A file does not exist, cannot be read back, or holds a value.\<close>

datatype 'a stored_file = Missing | Unreadable | Holds 'a

record 'x cache_disk =
  index_file :: "'x stored_file"
  metadata_file :: "cache_meta list stored_file"

text \<open>What goes wrong while saving: the index file is left in some state, the metadata file cannot be opened,
  or it is opened, and so emptied, and then not written.\<close>

datatype 'x save_fault = NoFault | IndexFault "'x stored_file" | OpenFault | DumpFault

record 'x FAISSAdapter =
  fa_dim :: nat
  fa_index :: 'x
  fa_metadata :: "cache_meta list"
  fa_disk :: "'x cache_disk"

definition save_index :: "'x save_fault \<Rightarrow> 'x FAISSAdapter \<Rightarrow> 'x FAISSAdapter" where
  "save_index f a = (let d = fa_disk a; saved = d\<lparr>index_file := Holds (fa_index a)\<rparr> in
     a\<lparr>fa_disk := (case f of
        NoFault \<Rightarrow> saved\<lparr>metadata_file := Holds (fa_metadata a)\<rparr>
      | IndexFault c \<Rightarrow> d\<lparr>index_file := c\<rparr>
      | OpenFault \<Rightarrow> saved
      | DumpFault \<Rightarrow> saved\<lparr>metadata_file := Unreadable\<rparr>)\<rparr>)"

definition load_index :: "'x faiss \<Rightarrow> 'x save_fault \<Rightarrow> 'x FAISSAdapter \<Rightarrow> 'x FAISSAdapter" where
  "load_index F f a = (case (index_file (fa_disk a), metadata_file (fa_disk a)) of
     (Holds x, Holds ms) \<Rightarrow> a\<lparr>fa_index := x, fa_metadata := ms\<rparr>
   | _ \<Rightarrow> save_index f (a\<lparr>fa_index := IndexFlatIP F (fa_dim a), fa_metadata := []\<rparr>))"

definition faiss_init :: "'x faiss \<Rightarrow> 'x save_fault \<Rightarrow> 'x save_fault \<Rightarrow> nat \<Rightarrow> 'x cache_disk \<Rightarrow> 'x FAISSAdapter" where
  "faiss_init F f f' n disk =
     (let a = \<lparr>fa_dim = n, fa_index = IndexFlatIP F n, fa_metadata = [], fa_disk = disk\<rparr>
      in save_index f'
           (if index_file disk \<noteq> Missing \<and> metadata_file disk \<noteq> Missing then load_index F f a else a))"

text \<open>A threshold is compared as a number; a list of one threshold compares like its element.\<close>

fun threshold_value :: "json \<Rightarrow> real result" where
  "threshold_value (JList [j]) = threshold_value j"
| "threshold_value (JList _) = Inl (ValueError ''truth value of an array is ambiguous'')"
| "threshold_value j = json_number j"

record cache_hit =
  ch_response :: "json list"
  ch_score :: real
  ch_usage :: json

definition py_eq :: "json \<Rightarrow> json \<Rightarrow> bool" where
  "py_eq a b = (py_canon a = py_canon b)"

definition faiss_search :: "'x faiss \<Rightarrow> 'x FAISSAdapter \<Rightarrow> vec \<Rightarrow> json \<Rightarrow> json \<Rightarrow> cache_hit option result" where
  "faiss_search F a embedding model threshold =
     (if ix_ntotal F (fa_index a) = 0 then Inr None
      else result_bind (ix_search1 F (fa_index a) embedding) (\<lambda>(distance, i).
        if i = -1 then Inr None
        else result_bind (threshold_value threshold) (\<lambda>t.
          if distance < t then Inr None
          else if nat i \<ge> length (fa_metadata a) then Inl IndexError
          else (let m = fa_metadata a ! nat i in
            if py_eq (cm_model m) model
            then Inr (Some \<lparr>ch_response = cm_response m, ch_score = distance, ch_usage = cm_usage m\<rparr>)
            else Inr None))))"

definition faiss_store :: "'x faiss \<Rightarrow> 'x save_fault \<Rightarrow> 'x FAISSAdapter \<Rightarrow> vec \<Rightarrow> cache_meta \<Rightarrow> 'x FAISSAdapter result" where
  "faiss_store F f a embedding m =
     result_bind (ix_add F (fa_index a) embedding) (\<lambda>x.
       Inr (save_index f (a\<lparr>fa_index := x, fa_metadata := fa_metadata a @ [m]\<rparr>)))"

section \<open>The cache\<close>

record embedder =
  em_dim :: nat
  em_encode :: "string \<Rightarrow> vec"

record pending_search =
  ps_embedding :: vec
  ps_model :: json
  ps_threshold :: json

record pending_store =
  pt_embedding :: vec
  pt_messages :: json
  pt_model :: json

record 'x SemanticCache =
  sc_embedder :: embedder
  sc_db :: "'x FAISSAdapter"
  sc_threshold :: json
  sc_searches :: "(string, pending_search) dict"
  sc_stores :: "(string, pending_store) dict"

definition semantic_cache_init ::
  "'x faiss \<Rightarrow> 'x save_fault \<Rightarrow> 'x save_fault \<Rightarrow> embedder \<Rightarrow> 'x cache_disk \<Rightarrow> json \<Rightarrow> 'x SemanticCache" where
  "semantic_cache_init F f f' em disk threshold =
     \<lparr>sc_embedder = em, sc_db = faiss_init F f f' (em_dim em) disk, sc_threshold = threshold,
      sc_searches = [], sc_stores = []\<rparr>"

fun message_texts :: "(json \<Rightarrow> string) \<Rightarrow> json list \<Rightarrow> string list result" where
  "message_texts str [] = Inr []"
| "message_texts str (m # ms) =
     result_bind (json_get m ''role'' (JStr ''user'')) (\<lambda>role.
     result_bind (json_get m ''content'' (JStr [])) (\<lambda>content.
     result_bind (message_texts str ms) (\<lambda>ts. Inr ((text_of str role @ '': '' @ text_of str content) # ts))))"

definition get_embedding :: "(json \<Rightarrow> string) \<Rightarrow> 'x SemanticCache \<Rightarrow> json \<Rightarrow> vec result" where
  "get_embedding str c messages =
     result_bind (json_iter messages) (\<lambda>ms.
     result_bind (message_texts str ms) (\<lambda>ts. Inr (em_encode (sc_embedder c) (str_join '' '' ts))))"

text \<open>The default threshold stands in for one that is not given.\<close>

definition effective_threshold :: "'x SemanticCache \<Rightarrow> json \<Rightarrow> json" where
  "effective_threshold c t = (if t = JNull then sc_threshold c else t)"

definition cache_search :: "'x faiss \<Rightarrow> (json \<Rightarrow> string) \<Rightarrow> 'x SemanticCache \<Rightarrow> json \<Rightarrow> json \<Rightarrow> json \<Rightarrow> cache_hit option result" where
  "cache_search F str c messages model threshold =
     result_bind (get_embedding str c messages) (\<lambda>e.
       faiss_search F (sc_db c) e model (effective_threshold c threshold))"

text \<open>
  Storing reports success and the number of entries for the size metric; every exception
  is answered by \<^verbatim>\<open>False\<close>.
\<close>

definition cache_add ::
  "'x faiss \<Rightarrow> 'x save_fault \<Rightarrow> 'x SemanticCache \<Rightarrow> vec result \<Rightarrow> cache_meta \<Rightarrow> nat option \<times> 'x SemanticCache" where
  "cache_add F f c e m = (case result_bind e (\<lambda>v. faiss_store F f (sc_db c) v m) of
     Inl _ \<Rightarrow> (None, c)
   | Inr a \<Rightarrow> (Some (ix_ntotal F (fa_index a)), c\<lparr>sc_db := a\<rparr>))"

definition cache_store ::
  "'x faiss \<Rightarrow> 'x save_fault \<Rightarrow> (json \<Rightarrow> string) \<Rightarrow> 'x SemanticCache \<Rightarrow> json \<Rightarrow> json list \<Rightarrow> json \<Rightarrow> json
     \<Rightarrow> nat option \<times> 'x SemanticCache" where
  "cache_store F f str c request response model usage =
     cache_add F f c (get_embedding str c request)
       \<lparr>cm_request = request, cm_response = response, cm_model = model, cm_usage = usage\<rparr>"

definition initiate_search ::
  "(json \<Rightarrow> string) \<Rightarrow> 'x SemanticCache \<Rightarrow> string \<Rightarrow> json \<Rightarrow> json \<Rightarrow> json \<Rightarrow> (string \<times> 'x SemanticCache) result" where
  "initiate_search str c uuid messages model threshold =
     result_bind (get_embedding str c messages) (\<lambda>e.
       Inr (uuid, c\<lparr>sc_searches := dict_set (sc_searches c) uuid
         \<lparr>ps_embedding = e, ps_model = model, ps_threshold = effective_threshold c threshold\<rparr>\<rparr>))"

definition complete_search :: "'x faiss \<Rightarrow> 'x SemanticCache \<Rightarrow> string \<Rightarrow> cache_hit option result \<times> 'x SemanticCache" where
  "complete_search F c rid = (case map_of (sc_searches c) rid of
     None \<Rightarrow> (Inr None, c)
   | Some p \<Rightarrow> (faiss_search F (sc_db c) (ps_embedding p) (ps_model p) (ps_threshold p),
                c\<lparr>sc_searches := dict_pop (sc_searches c) rid\<rparr>))"

definition initiate_store ::
  "(json \<Rightarrow> string) \<Rightarrow> 'x SemanticCache \<Rightarrow> string \<Rightarrow> json \<Rightarrow> json \<Rightarrow> (string \<times> 'x SemanticCache) result" where
  "initiate_store str c uuid messages model =
     result_bind (get_embedding str c messages) (\<lambda>e.
       Inr (uuid, c\<lparr>sc_stores := dict_set (sc_stores c) uuid
         \<lparr>pt_embedding = e, pt_messages = messages, pt_model = model\<rparr>\<rparr>))"

definition complete_store ::
  "'x faiss \<Rightarrow> 'x save_fault \<Rightarrow> 'x SemanticCache \<Rightarrow> string \<Rightarrow> json list \<Rightarrow> json \<Rightarrow> nat option \<times> 'x SemanticCache" where
  "complete_store F f c rid response usage = (case map_of (sc_stores c) rid of
     None \<Rightarrow> (None, c)
   | Some p \<Rightarrow> cache_add F f (c\<lparr>sc_stores := dict_pop (sc_stores c) rid\<rparr>) (Inr (pt_embedding p))
       \<lparr>cm_request = pt_messages p, cm_response = response, cm_model = pt_model p, cm_usage = usage\<rparr>)"

section \<open>Switch, metrics and startup\<close>

record cache_metrics =
  semantic_cache_hits :: nat
  semantic_cache_misses :: nat
  semantic_cache_hit_ratio :: real
  semantic_cache_size :: nat
  semantic_cache_latency :: real

record 'x semantic_state =
  se_enabled :: bool
  se_cache :: "'x SemanticCache option"
  se_metrics :: cache_metrics

definition semantic_init :: "'x semantic_state" where
  "semantic_init = \<lparr>se_enabled = False, se_cache = None, se_metrics =
     \<lparr>semantic_cache_hits = 0, semantic_cache_misses = 0, semantic_cache_hit_ratio = 0, semantic_cache_size = 0,
      semantic_cache_latency = 0\<rparr>\<rparr>"

definition is_semantic_cache_enabled :: "FeatureGates \<Rightarrow> 'x semantic_state \<Rightarrow> bool" where
  "is_semantic_cache_enabled g s = (se_enabled s \<or> gate_is_enabled g ''SemanticCache'')"

definition enable_semantic_cache :: "'x semantic_state \<Rightarrow> 'x semantic_state" where
  "enable_semantic_cache s = s\<lparr>se_enabled := True\<rparr>"

definition set_size :: "nat \<Rightarrow> 'x semantic_state \<Rightarrow> 'x semantic_state" where
  "set_size n s = s\<lparr>se_metrics := (se_metrics s)\<lparr>semantic_cache_size := n\<rparr>\<rparr>"

text \<open>The cache is created once; the transformer is loaded by its name.\<close>

definition initialize_semantic_cache ::
  "'x faiss \<Rightarrow> 'x save_fault \<Rightarrow> 'x save_fault \<Rightarrow> (string \<Rightarrow> embedder result) \<Rightarrow> (json \<Rightarrow> 'x cache_disk) \<Rightarrow> 'x semantic_state
     \<Rightarrow> string \<Rightarrow> json \<Rightarrow> json \<Rightarrow> ('x SemanticCache \<times> 'x semantic_state) result" where
  "initialize_semantic_cache F f f' load disk s model dir threshold = (case se_cache s of
     Some c \<Rightarrow> Inr (c, s)
   | None \<Rightarrow> result_bind (load model) (\<lambda>em.
       let c = semantic_cache_init F f f' em (disk dir) threshold in Inr (c, s\<lparr>se_cache := Some c\<rparr>)))"

definition start_semantic_cache ::
  "'x faiss \<Rightarrow> 'x save_fault \<Rightarrow> 'x save_fault \<Rightarrow> (string \<Rightarrow> embedder result) \<Rightarrow> (json \<Rightarrow> 'x cache_disk) \<Rightarrow> FeatureGates
     \<Rightarrow> (string, json) dict \<Rightarrow> 'x semantic_state \<Rightarrow> 'x semantic_state result" where
  "start_semantic_cache F f f' load disk g ns s =
     (if \<not> gate_is_enabled g ''SemanticCache'' then Inr s
      else let s = enable_semantic_cache s; model = ns_get ns ''semantic_cache_model'' in
           if \<not> py_truthy model then Inr s
           else result_bind (initialize_semantic_cache F f f' load disk s (path_of model)
                  (ns_get ns ''semantic_cache_dir'') (ns_get ns ''semantic_cache_threshold'')) (\<lambda>(c, s).
             Inr (set_size (ix_ntotal F (fa_index (sc_db c))) s)))"

section \<open>Storing an answer\<close>

text \<open>
  The log lines read the first message of a list and cut its content after fifty characters, which raises for a
  content that is neither text nor a list.
\<close>

fun first_item :: "json \<Rightarrow> json result" where
  "first_item (JList (x # xs)) = Inr x"
| "first_item (JStr (c # s)) = Inr (JStr [c])"
| "first_item (JObj d) = Inl (KeyError ''0'')"
| "first_item j = Inl (TypeError ''object has no len()'')"

fun sliceable :: "json \<Rightarrow> bool" where
  "sliceable (JStr _) = True"
| "sliceable (JList _) = True"
| "sliceable _ = False"

definition log_first :: "json \<Rightarrow> unit result" where
  "log_first messages =
     (if \<not> py_truthy messages then Inr ()
      else result_bind (first_item messages) (\<lambda>m.
           result_bind (json_get m ''content'' (JStr [])) (\<lambda>content.
             guard (\<not> sliceable content) (TypeError ''object is not subscriptable''))))"

fun choice_messages :: "json list \<Rightarrow> json list result" where
  "choice_messages [] = Inr []"
| "choice_messages (c # cs) =
     result_bind (json_contains c ''message'') (\<lambda>has.
     result_bind (if has then result_bind (json_index c ''message'') (\<lambda>m. Inr [m]) else Inr []) (\<lambda>m.
     result_bind (choice_messages cs) (\<lambda>ms. Inr (m @ ms))))"

definition response_messages_of :: "json \<Rightarrow> json list result" where
  "response_messages_of response =
     result_bind (json_contains response ''choices'') (\<lambda>has.
       if \<not> has then Inr []
       else result_bind (json_index response ''choices'') (\<lambda>cs. result_bind (json_iter cs) choice_messages))"

definition zero_usage :: json where
  "zero_usage = JObj [(''prompt_tokens'', JInt 0), (''completion_tokens'', JInt 0), (''total_tokens'', JInt 0)]"

text \<open>What is to be stored: nothing if the request opts out or streams, or if the answer is not JSON.\<close>

definition cacheable :: "payload \<Rightarrow> payload \<Rightarrow> (json \<times> json list \<times> json \<times> json) option result" where
  "cacheable body chunk = (case json_loads body of
     None \<Rightarrow> Inl (ValueError ''Expecting value'')
   | Some request \<Rightarrow>
      result_bind (json_get request ''skip_cache'' (JBool False)) (\<lambda>skip.
      result_bind (json_get request ''stream'' (JBool False)) (\<lambda>stream.
      if py_truthy skip \<or> py_truthy stream then Inr None
      else case json_loads chunk of
        None \<Rightarrow> Inr None
      | Some response \<Rightarrow>
         result_bind (json_get request ''model'' (JStr [])) (\<lambda>model.
         result_bind (json_get request ''messages'' (JList [])) (\<lambda>messages.
         result_bind (log_first messages) (\<lambda>_.
         result_bind (response_messages_of response) (\<lambda>answers.
         result_bind (json_get response ''usage'' zero_usage) (\<lambda>usage.
         result_bind (log_first (JList answers)) (\<lambda>_.
           Inr (Some (messages, answers, model, usage)))))))))))"

definition store_in_semantic_cache ::
  "'x faiss \<Rightarrow> 'x save_fault \<Rightarrow> (json \<Rightarrow> string) \<Rightarrow> FeatureGates \<Rightarrow> 'x semantic_state \<Rightarrow> string \<Rightarrow> string \<Rightarrow> payload \<Rightarrow> payload
     \<Rightarrow> 'x semantic_state" where
  "store_in_semantic_cache F f str g s endpoint meth body chunk =
     (if \<not> is_semantic_cache_enabled g s then s
      else (case se_cache s of
        None \<Rightarrow> s
      | Some c \<Rightarrow>
         if endpoint \<noteq> ''/v1/chat/completions'' \<or> meth \<noteq> ''POST'' then s
         else (case cacheable body chunk of
           Inr (Some (messages, answers, model, usage)) \<Rightarrow>
             (case cache_store F f str c messages answers model usage of (n, c') \<Rightarrow>
                let s' = s\<lparr>se_cache := Some c'\<rparr> in case n of None \<Rightarrow> s' | Some n \<Rightarrow> set_size n s')
         | _ \<Rightarrow> s)))"

section \<open>Answering from the cache\<close>

definition count_lookup :: "bool \<Rightarrow> real \<Rightarrow> 'x semantic_state \<Rightarrow> 'x semantic_state" where
  "count_lookup hit latency s =
     (let m = se_metrics s;
          hits = semantic_cache_hits m + of_bool hit; misses = semantic_cache_misses m + of_bool (\<not> hit);
          total = hits + misses
      in s\<lparr>se_metrics := m\<lparr>semantic_cache_hits := hits, semantic_cache_misses := misses,
           semantic_cache_hit_ratio := (if total > 0 then real hits / real total else semantic_cache_hit_ratio m),
           semantic_cache_latency := latency\<rparr>\<rparr>)"

definition cached_response :: "string \<Rightarrow> int \<Rightarrow> json \<Rightarrow> cache_hit \<Rightarrow> json" where
  "cached_response uuid now model h = JObj
     [(''id'', JStr (''chatcmpl-'' @ uuid)), (''object'', JStr ''chat.completion''), (''created'', JInt now),
      (''model'', model),
      (''choices'', JList (map (\<lambda>(i, m). JObj [(''index'', JInt (int i)), (''message'', m), (''finish_reason'', JStr ''stop'')])
         (enumerate 0 (ch_response h)))),
      (''usage'', ch_usage h), (''cached'', JBool True), (''similarity_score'', JFloat (ch_score h))]"

text \<open>The result is the reply, if there is one; an exception leaves the handler.\<close>

definition check_semantic_cache ::
  "'x faiss \<Rightarrow> (json \<Rightarrow> string) \<Rightarrow> FeatureGates \<Rightarrow> string \<Rightarrow> int \<Rightarrow> real \<Rightarrow> 'x semantic_state \<Rightarrow> payload
     \<Rightarrow> response option result \<times> 'x semantic_state" where
  "check_semantic_cache F str g uuid now latency s body =
     (if \<not> is_semantic_cache_enabled g s then (Inr None, s)
      else case json_loads body of
        None \<Rightarrow> (Inl (ValueError ''Expecting value''), s)
      | Some b \<Rightarrow> (case se_cache s of
          None \<Rightarrow> (Inr None, s)
        | Some c \<Rightarrow> (case b of
            JObj d \<Rightarrow>
              (let model = dict_get d ''model'' (JStr []); messages = dict_get d ''messages'' (JList [])
               in if py_truthy (dict_get d ''skip_cache'' (JBool False)) \<or> \<not> py_truthy messages then (Inr None, s)
                  else case result_bind (log_first messages) (\<lambda>_.
                      cache_search F str c messages model (dict_get d ''cache_similarity_threshold'' JNull)) of
                    Inl x \<Rightarrow> (Inl x, s)
                  | Inr None \<Rightarrow> (Inr None, count_lookup False latency s)
                  | Inr (Some h) \<Rightarrow>
                      (result_bind (log_first (JList (ch_response h))) (\<lambda>_.
                         Inr (Some (JSONResponse 200 (cached_response uuid now model h) []))),
                       count_lookup True latency s))
          | _ \<Rightarrow> (Inl (AttributeError ''get''), s))))"

section \<open>The vector database\<close>

text \<open>
  The contract of \<^verbatim>\<open>VectorDBAdapterBase\<close>: storing appends an entry whatever happens to the files, and a hit
  returns the answer and the usage of an entry of the model.
\<close>

locale vector_db =
  fixes db_search :: "'a \<Rightarrow> vec \<Rightarrow> json \<Rightarrow> json \<Rightarrow> cache_hit option result"
    and db_store :: "'f \<Rightarrow> 'a \<Rightarrow> vec \<Rightarrow> cache_meta \<Rightarrow> 'a result"
    and entries :: "'a \<Rightarrow> cache_meta list"
  assumes store_appends: "db_store f a e m = Inr a' \<Longrightarrow> entries a' = entries a @ [m]"
    and hit_is_entry: "db_search a e model t = Inr (Some h) \<Longrightarrow>
      \<exists>m \<in> set (entries a). py_eq (cm_model m) model \<and> ch_response h = cm_response m \<and> ch_usage h = cm_usage m"
begin

lemma hit_after_store:
  assumes "db_store f a e m = Inr a'" "db_search a' e' model t = Inr (Some h)"
  shows "(py_eq (cm_model m) model \<and> ch_response h = cm_response m \<and> ch_usage h = cm_usage m) \<or>
    (\<exists>m' \<in> set (entries a). py_eq (cm_model m') model \<and> ch_response h = cm_response m' \<and> ch_usage h = cm_usage m')"
  using hit_is_entry [OF assms(2)] store_appends [OF assms(1)] by auto

lemma stored_entries: "db_store f a e m = Inr a' \<Longrightarrow> set (entries a') = insert m (set (entries a))"
  using store_appends by simp

end

lemma save_index_simps [simp]:
  "fa_dim (save_index f a) = fa_dim a" "fa_index (save_index f a) = fa_index a" "fa_metadata (save_index f a) = fa_metadata a"
  by (simp_all add: save_index_def)

interpretation faiss_db: vector_db "faiss_search F" "faiss_store F" fa_metadata for F
  by unfold_locales (fastforce simp: faiss_store_def faiss_search_def split: if_splits)+

text \<open>Index and metadata stay in step: position by position the vector is the embedding of the request.\<close>

definition aligned :: "('x \<Rightarrow> vec list) \<Rightarrow> (json \<Rightarrow> string) \<Rightarrow> 'x SemanticCache \<Rightarrow> bool" where
  "aligned vectors str c \<longleftrightarrow>
     map (\<lambda>m. get_embedding str c (cm_request m)) (fa_metadata (sc_db c)) = map Inr (vectors (fa_index (sc_db c)))"

lemma get_embedding_db [simp]:
  "get_embedding str (c\<lparr>sc_db := a\<rparr>) = get_embedding str c" "get_embedding str (c\<lparr>sc_stores := p\<rparr>) = get_embedding str c"
  by (simp_all add: get_embedding_def fun_eq_iff)

lemma cache_add_aligned:
  assumes "flat_ip F n vectors" "aligned vectors str c" "e = get_embedding str c (cm_request m)"
  shows "aligned vectors str (snd (cache_add F f c e m))"
proof (cases "result_bind e (\<lambda>v. faiss_store F f (sc_db c) v m)")
  case (Inr a)
  then obtain v x where v: "e = Inr v" "ix_add F (fa_index (sc_db c)) v = Inr x"
    "fa_index a = x" "fa_metadata a = fa_metadata (sc_db c) @ [m]"
    by (auto simp: faiss_store_def)
  moreover have "vectors x = vectors (fa_index (sc_db c)) @ [v]" using assms(1) v(2) by (auto simp: flat_ip_def)
  ultimately show ?thesis using assms Inr by (simp add: aligned_def cache_add_def)
qed (use assms in \<open>simp add: cache_add_def\<close>)

lemma fresh_cache_aligned:
  assumes "flat_ip F (em_dim em) vectors" "index_file disk = Missing \<or> metadata_file disk = Missing"
  shows "aligned vectors str (semantic_cache_init F f f' em disk t)"
  using assms by (auto simp: aligned_def semantic_cache_init_def faiss_init_def flat_ip_def)

text \<open>A search of an aligned cache is decided by the nearest entry alone.\<close>

lemma faiss_search_nearest:
  assumes "flat_ip F n vectors" "aligned vectors str c" "faiss_search F (sc_db c) e model t = Inr (Some h)"
  shows "\<exists>i < length (fa_metadata (sc_db c)). \<exists>w. let m = fa_metadata (sc_db c) ! i in
    get_embedding str c (cm_request m) = Inr w \<and> ch_score h = inner e w \<and>
    (\<forall>m' \<in> set (fa_metadata (sc_db c)). \<forall>w'. get_embedding str c (cm_request m') = Inr w' \<longrightarrow> inner e w' \<le> ch_score h) \<and>
    (\<exists>r. threshold_value t = Inr r \<and> r \<le> ch_score h) \<and>
    py_eq (cm_model m) model \<and> ch_response h = cm_response m \<and> ch_usage h = cm_usage m"
proof -
  let ?a = "sc_db c" and ?vs = "vectors (fa_index (sc_db c))"
  obtain s i where s: "ix_search1 F (fa_index ?a) e = Inr (s, i)" "ix_ntotal F (fa_index ?a) \<noteq> 0"
    "nat i < length (fa_metadata ?a)" "\<exists>r. threshold_value t = Inr r \<and> r \<le> s"
    "py_eq (cm_model (fa_metadata ?a ! nat i)) model"
    "h = \<lparr>ch_response = cm_response (fa_metadata ?a ! nat i), ch_score = s, ch_usage = cm_usage (fa_metadata ?a ! nat i)\<rparr>"
    using assms(3) by (auto simp: faiss_search_def not_less not_le split: if_splits)
  have vs: "?vs \<noteq> []" using assms(1) s(2) by (auto simp: flat_ip_def)
  then have near: "s = inner e (?vs ! nat i)" "\<forall>w \<in> set ?vs. inner e w \<le> s"
    using assms(1) s(1) unfolding flat_ip_def by blast+
  have len: "length ?vs = length (fa_metadata ?a)"
    using assms(2) unfolding aligned_def by (metis length_map)
  have emb: "get_embedding str c (cm_request (fa_metadata ?a ! j)) = Inr (?vs ! j)" if "j < length (fa_metadata ?a)" for j
    using arg_cong [OF assms(2) [unfolded aligned_def], of "\<lambda>l. l ! j"] that len by simp
  have "inner e w' \<le> s" if m': "m' \<in> set (fa_metadata ?a)" "get_embedding str c (cm_request m') = Inr w'" for m' w'
  proof -
    obtain j where "j < length (fa_metadata ?a)" "m' = fa_metadata ?a ! j" using m'(1) by (auto simp: in_set_conv_nth)
    then show ?thesis using near(2) emb m'(2) len by (metis nth_mem sum.inject(2))
  qed
  then show ?thesis using s near(1) emb by auto
qed

section \<open>Runs of the cache\<close>

text \<open>What happens to the cache while the router serves: an answer is offered for storing, a request is looked up.\<close>

datatype 'x cache_event =
    Answered "'x save_fault" string string payload payload
  | LookedUp string int real payload

fun cache_step :: "'x faiss \<Rightarrow> (json \<Rightarrow> string) \<Rightarrow> FeatureGates \<Rightarrow> 'x cache_event \<Rightarrow> 'x semantic_state \<Rightarrow> 'x semantic_state" where
  "cache_step F str g (Answered f endpoint meth body chunk) s = store_in_semantic_cache F f str g s endpoint meth body chunk"
| "cache_step F str g (LookedUp uuid now latency body) s = snd (check_semantic_cache F str g uuid now latency s body)"

abbreviation cache_run :: "'x faiss \<Rightarrow> (json \<Rightarrow> string) \<Rightarrow> FeatureGates \<Rightarrow> 'x cache_event list \<Rightarrow> 'x semantic_state \<Rightarrow> 'x semantic_state" where
  "cache_run F str g evs s \<equiv> fold (cache_step F str g) evs s"

text \<open>An entry stems from an answered chat completion of the run.\<close>

definition answered_by :: "'x cache_event list \<Rightarrow> cache_meta \<Rightarrow> bool" where
  "answered_by evs m \<longleftrightarrow> (\<exists>f body chunk. Answered f ''/v1/chat/completions'' ''POST'' body chunk \<in> set evs \<and>
     cacheable body chunk = Inr (Some (cm_request m, cm_response m, cm_model m, cm_usage m)))"

definition cache_inv :: "('x \<Rightarrow> vec list) \<Rightarrow> (json \<Rightarrow> string) \<Rightarrow> 'x cache_event list \<Rightarrow> 'x semantic_state \<Rightarrow> bool" where
  "cache_inv vectors str evs s \<longleftrightarrow> (\<forall>c. se_cache s = Some c \<longrightarrow>
     aligned vectors str c \<and> (\<forall>m \<in> set (fa_metadata (sc_db c)). answered_by evs m))"

lemma count_lookup_cache [simp]: "se_cache (count_lookup h l s) = se_cache s"
  by (simp add: count_lookup_def)

lemma set_size_cache [simp]: "se_cache (set_size n s) = se_cache s"
  by (simp add: set_size_def)

lemma check_keeps_cache [simp]: "se_cache (snd (check_semantic_cache F str g u n l s body)) = se_cache s"
  by (auto simp: check_semantic_cache_def split: option.splits json.splits sum.splits)

lemma cache_add_entries:
  "set (fa_metadata (sc_db (snd (cache_add F f c e m)))) \<subseteq> insert m (set (fa_metadata (sc_db c)))"
  using faiss_db.stored_entries by (fastforce simp: cache_add_def split: sum.splits)

lemma store_cases:
  assumes "se_cache (store_in_semantic_cache F f str g s endpoint meth body chunk) = Some c'"
  obtains "se_cache s = Some c'"
  | c messages answers model usage where "se_cache s = Some c" "endpoint = ''/v1/chat/completions''" "meth = ''POST''"
      "cacheable body chunk = Inr (Some (messages, answers, model, usage))"
      "c' = snd (cache_store F f str c messages answers model usage)"
  using assms
  by (auto simp: store_in_semantic_cache_def split: if_splits option.splits sum.splits prod.splits)

lemma answered_by_mono: "answered_by evs m \<Longrightarrow> answered_by (evs @ [ev]) m"
  by (auto simp: answered_by_def)

lemma cache_step_inv:
  assumes "flat_ip F n vectors" "cache_inv vectors str evs s"
  shows "cache_inv vectors str (evs @ [ev]) (cache_step F str g ev s)"
proof (cases ev)
  case (Answered f endpoint meth body chunk)
  show ?thesis
    unfolding cache_inv_def
  proof (intro allI impI)
    fix c' assume "se_cache (cache_step F str g ev s) = Some c'"
    then have "se_cache (store_in_semantic_cache F f str g s endpoint meth body chunk) = Some c'" by (simp add: Answered)
    then show "aligned vectors str c' \<and> (\<forall>m \<in> set (fa_metadata (sc_db c')). answered_by (evs @ [ev]) m)"
    proof (cases rule: store_cases)
      case 1
      then show ?thesis using assms(2) answered_by_mono by (auto simp: cache_inv_def)
    next
      case (2 c messages answers model usage)
      let ?m = "\<lparr>cm_request = messages, cm_response = answers, cm_model = model, cm_usage = usage\<rparr>"
      have "answered_by (evs @ [ev]) ?m" using 2 by (auto simp: answered_by_def Answered)
      moreover have "aligned vectors str c'"
        using 2 assms cache_add_aligned [OF assms(1), of str c _ ?m] by (auto simp: cache_inv_def cache_store_def)
      moreover have "set (fa_metadata (sc_db c')) \<subseteq> insert ?m (set (fa_metadata (sc_db c)))"
        using cache_add_entries 2(5) by (simp add: cache_store_def)
      ultimately show ?thesis using 2(1) assms(2) answered_by_mono by (fastforce simp: cache_inv_def)
    qed
  qed
next
  case (LookedUp u n l b)
  then show ?thesis using assms(2) by (auto simp: cache_inv_def intro: answered_by_mono)
qed

lemma cache_run_inv:
  assumes "flat_ip F n vectors" "cache_inv vectors str [] s"
  shows "cache_inv vectors str evs (cache_run F str g evs s)"
proof (induction evs rule: rev_induct)
  case (snoc ev evs)
  then show ?case using cache_step_inv [OF assms(1)] by simp
qed (use assms in simp)

lemma check_hit:
  assumes "check_semantic_cache F str g u n l s body = (Inr (Some r), s')"
  obtains c d h e where "se_cache s = Some c" "body = JsonText (JObj d)"
    "get_embedding str c (dict_get d ''messages'' (JList [])) = Inr e"
    "faiss_search F (sc_db c) e (dict_get d ''model'' (JStr []))
       (effective_threshold c (dict_get d ''cache_similarity_threshold'' JNull)) = Inr (Some h)"
    "r = JSONResponse 200 (cached_response u n (dict_get d ''model'' (JStr [])) h) []"
    "is_semantic_cache_enabled g s" "\<not> py_truthy (dict_get d ''skip_cache'' (JBool False))"
  using assms
  by (cases body)
     (auto simp: check_semantic_cache_def cache_search_def split: if_splits option.splits json.splits sum.splits)

section \<open>An index of vectors in a list\<close>

fun nearest :: "vec \<Rightarrow> vec list \<Rightarrow> real \<times> int" where
  "nearest v [] = (0, -1)"
| "nearest v (w # ws) = (let (s, i) = nearest v ws in
     if i = -1 \<or> s \<le> inner v w then (inner v w, 0) else (s, i + 1))"

definition list_index :: "nat \<Rightarrow> vec list faiss" where
  "list_index n = \<lparr>IndexFlatIP = (\<lambda>_. []), ix_ntotal = length,
     ix_add = (\<lambda>x v. if length v = n then Inr (x @ [v]) else Inl (AssertionError [])),
     ix_search1 = (\<lambda>x v. if length v = n then Inr (nearest v x) else Inl (AssertionError []))\<rparr>"

lemma nearest_spec:
  "nearest v ws = (s, i) \<Longrightarrow> ws \<noteq> [] \<Longrightarrow>
     0 \<le> i \<and> nat i < length ws \<and> s = inner v (ws ! nat i) \<and> (\<forall>w \<in> set ws. inner v w \<le> s)"
proof (induction ws arbitrary: s i)
  case (Cons w ws)
  obtain t j where t: "nearest v ws = (t, j)" by fastforce
  show ?case
  proof (cases "ws = []")
    case True
    then show ?thesis using Cons.prems by simp
  next
    case False
    then have "0 \<le> j \<and> nat j < length ws \<and> t = inner v (ws ! nat j) \<and> (\<forall>w \<in> set ws. inner v w \<le> t)"
      using Cons.IH t by blast
    then show ?thesis using Cons.prems t by (auto simp: nat_add_distrib split: if_splits)
  qed
qed simp

lemma list_index_flat: "flat_ip (list_index n) n (\<lambda>x. x)"
  using nearest_spec by (auto simp: flat_ip_def list_index_def split: if_splits)

section \<open>A cache at work\<close>

definition example_cache :: "vec list semantic_state" where
  "example_cache = semantic_init\<lparr>se_enabled := True, se_cache := Some (semantic_cache_init (list_index 2) NoFault NoFault
     \<lparr>em_dim = 2, em_encode = (\<lambda>s. if contains_str s ''France'' then [1, 0] else [0, 1])\<rparr>
     \<lparr>index_file = Missing, metadata_file = Missing\<rparr> (JFloat (95 / 100)))\<rparr>"

definition chat_body :: "string \<Rightarrow> json \<Rightarrow> payload" where
  "chat_body model content = JsonText (JObj [(''model'', JStr model),
     (''messages'', JList [JObj [(''role'', JStr ''user''), (''content'', content)]])])"

definition chat_answer :: payload where
  "chat_answer = JsonText (JObj [(''choices'', JList [JObj [(''message'', JObj [(''content'', JStr ''Paris'')])]])])"

definition answered_chat :: "vec list save_fault \<Rightarrow> string \<Rightarrow> payload \<Rightarrow> vec list cache_event" where
  "answered_chat f model chunk =
     Answered f ''/v1/chat/completions'' ''POST'' (chat_body model (JStr ''capital of France'')) chunk"

definition example_check :: "vec list cache_event list \<Rightarrow> payload \<Rightarrow> response option result" where
  "example_check evs body = fst (check_semantic_cache (list_index 2) (\<lambda>_. []) gates_init [] 0 0
     (cache_run (list_index 2) (\<lambda>_. []) gates_init evs example_cache) body)"

lemma example_hit:
  "case example_check [answered_chat OpenFault ''m'' chat_answer] (chat_body ''m'' (JStr ''France, capital?'')) of
     Inr (Some r) \<Rightarrow> resp_status r = 200 | _ \<Rightarrow> False"
  by code_simp

text \<open>
  An answer is stored whatever its status: the body of an error has no choices, and the next request that is close enough receives an
  answer with status 200 and no choice.
\<close>

lemma error_answers_are_cached:
  "case example_check [answered_chat NoFault ''m'' (JsonText (JObj [(''error'', JStr ''overloaded'')]))] (chat_body ''m'' (JStr ''capital of France'')) of
     Inr (Some (JSONResponse st (JObj d) hs)) \<Rightarrow> st = 200 \<and> map_of d ''choices'' = Some (JList []) | _ \<Rightarrow> False"
  by code_simp

text \<open>With the cache enabled, a conversation whose first message has a null content ends in an exception.\<close>

lemma null_content_raises: "isl (example_check [] (chat_body ''m'' JNull))"
  by code_simp

text \<open>Metadata that could not be saved leave a longer index behind: after a restart, a lookup that finds
  the entry raises.\<close>

lemma unsaved_metadata_breaks_lookups:
  "let a = faiss_init (list_index 1) NoFault NoFault 1 \<lparr>index_file = Missing, metadata_file = Missing\<rparr>;
       m = \<lparr>cm_request = JNull, cm_response = [], cm_model = JStr ''m'', cm_usage = JNull\<rparr>
   in case faiss_store (list_index 1) OpenFault a [1] m of
        Inl _ \<Rightarrow> False
      | Inr a' \<Rightarrow> faiss_search (list_index 1) (faiss_init (list_index 1) NoFault NoFault 1 (fa_disk a')) [1] (JStr ''m'') (JInt 0) = Inl IndexError"
  by code_simp

text \<open>A question can be answered from the cache for one model only: the nearest entry is
  looked at, and it belongs to one model.\<close>

lemma one_model_per_question:
  assumes "faiss_search F a e model t = Inr (Some h)" "\<not> py_eq model model'"
  shows "faiss_search F a e model' t = Inr None"
proof -
  obtain s i x where "ix_ntotal F (fa_index a) \<noteq> 0" "ix_search1 F (fa_index a) e = Inr (s, i)" "i \<noteq> -1"
    "threshold_value t = Inr x" "\<not> s < x" "nat i < length (fa_metadata a)"
    "py_eq (cm_model (fa_metadata a ! nat i)) model"
    using assms(1) by (auto simp: faiss_search_def not_le split: if_splits)
  moreover from this have "\<not> py_eq (cm_model (fa_metadata a ! nat i)) model'" using assms(2) by (simp add: py_eq_def)
  ultimately show ?thesis unfolding faiss_search_def by simp
qed

section \<open>Properties\<close>



end
