(* ===== verification/Main_Router.thy ===== *)
theory Main_Router
  imports Semantic_Cache
begin

text \<open>
  \<^verbatim>\<open>routers/main_router.py\<close>: the table of the routes, the handlers that answer themselves (models, engines, health,
  version) and those that prepare a request for the proxy (chat completions with the semantic cache, reranking with its
  prompt template), with \<^verbatim>\<open>ModelCard\<close> of \<^verbatim>\<open>protocols.py\<close>.
\<close>

section \<open>Model cards\<close>

text \<open>
  The fields of \<^verbatim>\<open>ModelCard\<close>: a string field takes strings only, an optional one also null; the conversion
  of a value to an integer is a parameter. Further fields are kept after the declared ones.
\<close>

fun card_string :: "json \<Rightarrow> bool" where
  "card_string (JStr _) = True"
| "card_string _ = False"

definition ModelCard :: "(json \<Rightarrow> int option) \<Rightarrow> int \<Rightarrow> (string, json) dict \<Rightarrow> (string, json) dict result" where
  "ModelCard to_int now d =
     (let object = dict_get d ''object'' (JStr ''model''); owned_by = dict_get d ''owned_by'' (JStr ''vllm'');
          root = dict_get d ''root'' JNull; parent = dict_get d ''parent'' JNull
      in case (map_of d ''id'', to_int (dict_get d ''created'' (JInt now))) of
           (Some i, Some created) \<Rightarrow>
             if card_string i \<and> card_string object \<and> card_string owned_by \<and>
                (root = JNull \<or> card_string root) \<and> (parent = JNull \<or> card_string parent)
             then Inr ([(''id'', i), (''object'', object), (''created'', JInt created), (''owned_by'', owned_by),
                        (''root'', root), (''parent'', parent)] @
                       filter (\<lambda>(k, v). k \<notin> {''id'', ''object'', ''created'', ''owned_by'', ''root'', ''parent''}) d)
             else Inl (ValueError ''validation error for ModelCard'')
         | _ \<Rightarrow> Inl (ValueError ''validation error for ModelCard''))"

section \<open>The models and the engines\<close>

text \<open>One pass over named descriptions: a name that is already listed is skipped.\<close>

fun add_cards ::
  "(json \<Rightarrow> int option) \<Rightarrow> int \<Rightarrow> (string \<times> (string, json) dict) list \<Rightarrow> string list \<times> (string, json) dict list
     \<Rightarrow> (string list \<times> (string, json) dict list) result" where
  "add_cards to_int now [] acc = Inr acc"
| "add_cards to_int now ((name, d) # ms) (existing, cards) =
     (if name \<in> set existing then add_cards to_int now ms (existing, cards)
      else result_bind (ModelCard to_int now d) (\<lambda>card.
        add_cards to_int now ms (existing @ [name], cards @ [card])))"

definition local_models :: "EndpointInfo list \<Rightarrow> (string \<times> (string, json) dict) list" where
  "local_models eps = concat (map (\<lambda>e. map (\<lambda>(k, i). (k, model_info_to_dict i)) (model_entries e)) eps)"

definition external_models :: "ExternalProviderManager option \<Rightarrow> (string \<times> (string, json) dict) list" where
  "external_models reg = (case reg of
     None \<Rightarrow> []
   | Some g \<Rightarrow> map (\<lambda>m. (m, [(''id'', JStr m), (''object'', JStr ''model''),
       (''owned_by'', case get_provider_name g m of None \<Rightarrow> JNull | Some p \<Rightarrow> JStr p)])) (get_all_external_model_ids g))"

definition alias_models :: "discovery \<Rightarrow> (string \<times> (string, json) dict) list" where
  "alias_models d = map (\<lambda>(alias, m). (alias, [(''id'', JStr alias), (''object'', JStr ''model''), (''owned_by'', JStr ''vllm''),
     (''root'', JStr m)])) (discovery_aliases d)"

definition show_models :: "(json \<Rightarrow> int option) \<Rightarrow> 't proxy_env \<Rightarrow> ('r, 't) proxy \<Rightarrow> response result" where
  "show_models to_int env px =
     (let now = \<lfloor>pe_clock env\<rfloor> in
      result_bind (get_service_discovery (px_discovery px)) (\<lambda>d.
      result_bind (discovery_endpoints (pe_md5 env) now d) (\<lambda>eps.
      result_bind (add_cards to_int now (local_models eps) ([], [])) (\<lambda>acc.
      result_bind (add_cards to_int now (external_models (px_registry px)) acc) (\<lambda>acc.
      result_bind (add_cards to_int now (alias_models d) acc) (\<lambda>(existing, cards).
        Inr (JSONResponse 200 (JObj [(''object'', JStr ''list''), (''data'', JList (map JObj cards))]) [])))))))"

fun engine_cards :: "EndpointInfo list \<Rightarrow> string list \<Rightarrow> json list" where
  "engine_cards [] existing = []"
| "engine_cards (e # es) existing =
     (if ep_Id e \<in> set existing then engine_cards es existing
      else JObj [(''engine_id'', JStr (ep_Id e)), (''serving_models'', JList (map JStr (model_names e))),
                 (''created'', JFloat (added_timestamp e))]
           # engine_cards es (existing @ [ep_Id e]))"

definition get_engine_instances :: "'t proxy_env \<Rightarrow> ('r, 't) proxy \<Rightarrow> response result" where
  "get_engine_instances env px =
     result_bind (listed_endpoints env px) (\<lambda>eps. Inr (JSONResponse 200 (JList (engine_cards eps [])) []))"

section \<open>Health and version\<close>

text \<open>The threads that watch the cluster and scrape the engines are alive or not.\<close>

fun discovery_health :: "bool \<Rightarrow> discovery \<Rightarrow> bool" where
  "discovery_health watching (StaticD s) = True"
| "discovery_health watching (PodIPD s) = watching"
| "discovery_health watching (ServiceNameD s) = watching"
| "discovery_health watching ExternalOnlyD = True"

text \<open>\<^verbatim>\<open>json.dumps(..., sort_keys=True)\<close> read back: every object with its keys in order.\<close>

fun json_sorted :: "json \<Rightarrow> json" where
  "json_sorted (JList l) = JList (map json_sorted l)"
| "json_sorted (JObj d) = JObj (sort_key fst (map (\<lambda>(k, v). (k, json_sorted v)) d))"
| "json_sorted j = j"

definition health :: "bool \<Rightarrow> bool \<Rightarrow> ('r, 't) app_state \<Rightarrow> response result" where
  "health watching scraping a =
     result_bind (get_service_discovery (px_discovery (ap_proxy a))) (\<lambda>d.
       if \<not> discovery_health watching d
       then Inr (JSONResponse 503 (JObj [(''status'', JStr ''Service discovery module is down.'')]) [])
       else if \<not> scraping
       then Inr (JSONResponse 503 (JObj [(''status'', JStr ''Engine stats scraper is down.'')]) [])
       else case ap_watcher a of
         Some w \<Rightarrow> Inr (JSONResponse 200 (JObj [(''status'', JStr ''healthy''),
           (''dynamic_config'', json_sorted (JObj (cw_current w)))]) [])
       | None \<Rightarrow> Inr (JSONResponse 200 (JObj [(''status'', JStr ''healthy'')]) []))"

definition show_version :: "string \<Rightarrow> response" where
  "show_version v = JSONResponse 200 (JObj [(''version'', JStr v)]) []"

section \<open>Reranking\<close>

definition rerank_instruction :: string where
  "rerank_instruction = ''Given a web search query, retrieve relevant passages that answer the query''"

text \<open>In the source the line breaks of the template are written with two backslashes: the text holds a backslash and the letter.\<close>

definition backslash_n :: string where
  "backslash_n = [CHR 0x5C, CHR ''n'']"

definition rerank_prefix :: string where
  "rerank_prefix = ''<|im_start|>system'' @ backslash_n @ ''Judge whether the Document meets the requirements based on the Query and the Instruct provided. Note that the answer can only be \"yes\" or \"no\".<|im_end|>'' @ backslash_n @ ''<|im_start|>user'' @ backslash_n"

definition rerank_suffix :: string where
  "rerank_suffix = ''<|im_end|>'' @ backslash_n @ ''<|im_start|>assistant'' @ backslash_n @ ''<think>'' @ backslash_n @ backslash_n @ ''</think>'' @ backslash_n @ backslash_n"

definition apply_template :: "(json \<Rightarrow> string) \<Rightarrow> json \<Rightarrow> json \<Rightarrow> (json \<times> json) result" where
  "apply_template str query documents =
     result_bind (json_iter documents) (\<lambda>docs.
       Inr (JStr (rerank_prefix @ ''<Instruct>: '' @ rerank_instruction @ backslash_n @ ''<Query>: '' @ text_of str query @ backslash_n),
            JList (map (\<lambda>doc. JStr (''<Document>: '' @ text_of str doc @ rerank_suffix)) docs)))"

definition reranked_payload :: "(json \<Rightarrow> string) \<Rightarrow> body \<Rightarrow> body result" where
  "reranked_payload str d =
     (let query = dict_get d ''query'' (JStr []); documents = dict_get d ''documents'' (JStr [])
      in if dict_get d ''model'' JNull = JStr ''Qwen/Qwen3-Reranker-0.6B'' \<and> py_truthy query \<and> py_truthy documents
         then result_bind (apply_template str query documents) (\<lambda>(q, ds).
                Inr (dict_set (dict_set d ''query'' q) ''documents'' ds))
         else Inr d)"

text \<open>The new request has the new body and its length; \<open>bytes\<close> is the length of an encoded document.\<close>

definition route_v1_rerank ::
  "'r ring_ops \<Rightarrow> 't proxy_env \<Rightarrow> (json \<Rightarrow> nat) \<Rightarrow> request \<Rightarrow> ('r, 't) proxy \<Rightarrow> client_reply \<times> ('r, 't) proxy" where
  "route_v1_rerank R env bytes rq px = (case rq_body rq of
     Some (JsonText (JObj d)) \<Rightarrow>
       (case reranked_payload (pe_str env) d of
          Inl x \<Rightarrow> (ReplyRaise x, px)
        | Inr d' \<Rightarrow> route_general_request R env ''/v1/rerank''
            (rq\<lparr>rq_headers := filter (\<lambda>(k, v). str_lower k \<noteq> ''content-length'') (rq_headers rq) @
                  [(''content-length'', str_of_nat (bytes (JObj d')))],
                rq_body := Some (JsonText (JObj d'))\<rparr>) px)
   | _ \<Rightarrow> route_general_request R env ''/v1/rerank'' rq px)"

section \<open>Chat completions\<close>

definition route_chat_completion ::
  "'r ring_ops \<Rightarrow> 't proxy_env \<Rightarrow> 'x faiss \<Rightarrow> bool \<Rightarrow> FeatureGates \<Rightarrow> real \<Rightarrow> request \<Rightarrow> ('r, 't) proxy \<Rightarrow> 'x semantic_state
     \<Rightarrow> client_reply \<times> ('r, 't) proxy \<times> 'x semantic_state" where
  "route_chat_completion R env F semantic_cache_available g latency rq px s =
     (let (r, s') = (if semantic_cache_available
            then check_semantic_cache F (pe_str env) g (pe_uuid env) \<lfloor>pe_clock env\<rfloor> latency s
                   (case rq_body rq of None \<Rightarrow> NotJson | Some p \<Rightarrow> p)
            else (Inr None, s))
      in case r of
           Inl x \<Rightarrow> (ReplyRaise x, px, s')
         | Inr (Some reply) \<Rightarrow> (ReplyJson reply, px, s')
         | Inr None \<Rightarrow> (let (reply, px') = route_general_request R env ''/v1/chat/completions'' rq px in (reply, px', s')))"

section \<open>The routes\<close>

datatype route_handler =
    ChatCompletion
  | General
  | Rerank
  | Transcriptions
  | Multipart
  | SleepWakeup
  | Version
  | Models
  | Engines
  | Health

type_synonym route = "(string \<times> string) \<times> route_handler"

definition completion_routes :: "route list" where
  "completion_routes =
     [((''POST'', ''/v1/completions''), General), ((''POST'', ''/v1/embeddings''), General), ((''POST'', ''/pooling''), General),
      ((''POST'', ''/tokenize''), General), ((''POST'', ''/detokenize''), General)]"

definition scoring_routes :: "route list" where
  "scoring_routes = [((''POST'', ''/rerank''), General), ((''POST'', ''/v1/score''), General), ((''POST'', ''/score''), General)]"

definition sleep_routes :: "route list" where
  "sleep_routes =
     [((''POST'', ''/sleep''), SleepWakeup), ((''POST'', ''/wake_up''), SleepWakeup), ((''GET'', ''/is_sleeping''), SleepWakeup)]"

definition media_routes :: "route list" where
  "media_routes =
     [((''POST'', ''/v1/audio/transcriptions''), Transcriptions), ((''POST'', ''/v1/responses''), General),
      ((''POST'', ''/v1/audio/speech''), General), ((''POST'', ''/v1/audio/translations''), Multipart),
      ((''GET'', ''/v1/audio/voices''), General), ((''POST'', ''/v1/images/generations''), General),
      ((''POST'', ''/v1/images/edits''), Multipart), ((''POST'', ''/v1/messages''), General)]"

definition main_router :: "route list" where
  "main_router =
     [((''POST'', ''/v1/chat/completions''), ChatCompletion)] @ completion_routes @ [((''POST'', ''/v1/rerank''), Rerank)] @
     scoring_routes @ sleep_routes @
     [((''GET'', ''/version''), Version), ((''GET'', ''/v1/models''), Models), ((''GET'', ''/engines''), Engines), ((''GET'', ''/health''), Health)] @
     media_routes"

text \<open>What the handlers take from outside, and the state they share.\<close>

record ('t, 'x) site =
  si_env :: "'t proxy_env"
  si_index :: "'x faiss"
  si_semantic :: bool
  si_latency :: real
  si_bytes :: "json \<Rightarrow> nat"
  si_to_int :: "json \<Rightarrow> int option"
  si_parse_float :: "string \<Rightarrow> real option"
  si_show_float :: "real \<Rightarrow> string"
  si_upload :: "upload \<Rightarrow> url \<Rightarrow> mp_call"
  si_form_post :: "url \<Rightarrow> mp_call"
  si_api_key :: "string option"
  si_api_ok :: bool
  si_send :: "control_call \<Rightarrow> http_reply"
  si_version :: string
  si_watching :: bool
  si_scraping :: bool

record ('r, 't, 'x) server =
  sv_app :: "('r, 't) app_state"
  sv_semantic :: "'x semantic_state"
  sv_labels :: pod_labels

record client_request =
  cr_method :: string
  cr_path :: string
  cr_request :: request
  cr_params :: "(string, string) dict"
  cr_form :: "form option"

definition with_proxy :: "('r, 't, 'x) server \<Rightarrow> client_reply \<times> ('r, 't) proxy \<Rightarrow> client_reply \<times> ('r, 't, 'x) server" where
  "with_proxy sv p = (fst p, sv\<lparr>sv_app := (sv_app sv)\<lparr>ap_proxy := snd p\<rparr>\<rparr>)"

definition reply_result :: "response result \<Rightarrow> client_reply" where
  "reply_result r = (case r of Inl x \<Rightarrow> ReplyRaise x | Inr resp \<Rightarrow> ReplyJson resp)"

definition empty_form :: form where
  "empty_form = \<lparr>fm_file = None, fm_fields = []\<rparr>"

text \<open>One request through the table; a path without a route is not found, one with another method is not allowed.\<close>

definition run_handler ::
  "'r ring_ops \<Rightarrow> ('t, 'x) site \<Rightarrow> route_handler \<Rightarrow> client_request \<Rightarrow> ('r, 't, 'x) server \<Rightarrow> client_reply \<times> ('r, 't, 'x) server" where
  "run_handler R si h cr sv =
     (let env = si_env si; px = ap_proxy (sv_app sv); rq = cr_request cr in
      case h of
        ChatCompletion \<Rightarrow>
          (case route_chat_completion R env (si_index si) (si_semantic si) (ap_gates (sv_app sv)) (si_latency si) rq px (sv_semantic sv) of
             (reply, px', s') \<Rightarrow> with_proxy (sv\<lparr>sv_semantic := s'\<rparr>) (reply, px'))
      | General \<Rightarrow> with_proxy sv (route_general_request R env (cr_path cr) rq px)
      | Rerank \<Rightarrow> with_proxy sv (route_v1_rerank R env (si_bytes si) rq px)
      | Transcriptions \<Rightarrow> with_proxy sv (route_general_transcriptions R env (si_parse_float si) (si_show_float si) (si_upload si)
          (case cr_form cr of None \<Rightarrow> empty_form | Some f \<Rightarrow> f) (rq_headers rq) px)
      | Multipart \<Rightarrow> with_proxy sv (route_multipart_request R env (si_form_post si) (cr_form cr) (rq_headers rq) px)
      | SleepWakeup \<Rightarrow>
          (case route_sleep_wakeup_request env (si_api_key si) (si_api_ok si) (si_send si) (cr_path cr)
             \<lparr>cq_headers = rq_headers rq, cq_params = cr_params cr, cq_body = rq_body rq\<rparr> px (sv_labels sv) of
             (reply, calls, labels) \<Rightarrow> (reply, sv\<lparr>sv_labels := labels\<rparr>))
      | Version \<Rightarrow> (ReplyJson (show_version (si_version si)), sv)
      | Models \<Rightarrow> (reply_result (show_models (si_to_int si) env px), sv)
      | Engines \<Rightarrow> (reply_result (get_engine_instances env px), sv)
      | Health \<Rightarrow> (reply_result (health (si_watching si) (si_scraping si) (sv_app sv)), sv))"

definition handle_request ::
  "'r ring_ops \<Rightarrow> ('t, 'x) site \<Rightarrow> client_request \<Rightarrow> ('r, 't, 'x) server \<Rightarrow> client_reply \<times> ('r, 't, 'x) server" where
  "handle_request R si cr sv = (case map_of main_router (cr_method cr, cr_path cr) of
     None \<Rightarrow> (if cr_path cr \<in> (snd \<circ> fst) ` set main_router
              then (ReplyJson (JSONResponse 405 (JObj [(''detail'', JStr ''Method Not Allowed'')]) []), sv)
              else (ReplyJson (JSONResponse 404 (JObj [(''detail'', JStr ''Not Found'')]) []), sv))
   | Some h \<Rightarrow> run_handler R si h cr sv)"

section \<open>Facts\<close>

lemma ModelCard_id: "ModelCard to_int now d = Inr c \<Longrightarrow> map_of c ''id'' = map_of d ''id''"
  by (auto simp: ModelCard_def split: option.splits if_splits)

text \<open>A pass lists every name once, and no card for another name.\<close>

lemma add_cards_exact:
  assumes "add_cards to_int now ms (existing, cards) = Inr (existing', cards')"
    and "\<forall>(n, d) \<in> set ms. map_of d ''id'' = Some (JStr n)"
    and "distinct existing" "map (\<lambda>c. map_of c ''id'') cards = map (Some \<circ> JStr) existing"
  shows "distinct existing' \<and> set existing' = set existing \<union> fst ` set ms \<and>
    map (\<lambda>c. map_of c ''id'') cards' = map (Some \<circ> JStr) existing'"
  using assms
proof (induction to_int now ms "(existing, cards)" arbitrary: existing cards rule: add_cards.induct)
  case (2 to_int now n d ms existing cards)
  show ?case
  proof (cases "n \<in> set existing")
    case True
    then show ?thesis using 2(1) [OF True] 2(3-) by auto
  next
    case False
    then obtain c where c: "ModelCard to_int now d = Inr c"
      "add_cards to_int now ms (existing @ [n], cards @ [c]) = Inr (existing', cards')" using 2(3) by auto
    have "map (\<lambda>c. map_of c ''id'') (cards @ [c]) = map (Some \<circ> JStr) (existing @ [n])"
      using 2(4,6) ModelCard_id [OF c(1)] by simp
    then show ?thesis using 2(2) [OF False c(2)] 2(4,5) False by auto
  qed
qed simp

text \<open>The identifiers a listing shows.\<close>

definition cards_listed :: "response \<Rightarrow> json option list" where
  "cards_listed r = (case resp_content r of
     JObj d \<Rightarrow> (case map_of d ''data'' of
       Some (JList cs) \<Rightarrow> map (\<lambda>c. case c of JObj d \<Rightarrow> map_of d ''id'' | _ \<Rightarrow> None) cs | _ \<Rightarrow> [])
   | _ \<Rightarrow> [])"

lemma engine_cards_ids:
  "map (\<lambda>c. case c of JObj d \<Rightarrow> map_of d ''engine_id'' | _ \<Rightarrow> None) (engine_cards es existing) =
     map (Some \<circ> JStr) (rev (remdups (rev (filter (\<lambda>i. i \<notin> set existing) (map ep_Id es)))))"
proof (induction es existing rule: engine_cards.induct)
  case (2 e es existing)
  have f: "filter (\<lambda>i. i \<notin> set (existing @ [ep_Id e])) (map ep_Id es) =
      filter (\<lambda>i. i \<noteq> ep_Id e) (filter (\<lambda>i. i \<notin> set existing) (map ep_Id es))"
    by (simp add: conj_commute)
  have r: "rev (remdups (xs @ [x])) = x # rev (remdups (filter (\<lambda>i. i \<noteq> x) xs))" for x and xs :: "string list"
    by (induction xs) auto
  show ?case using 2 by (simp add: f r rev_filter del: filter_filter set_append)
qed simp

lemma routes_are_distinct: "distinct (keys main_router)"
  by code_simp

section \<open>Every handler keeps the accounts\<close>

lemma handled_accounted:
  assumes "proxy_ok R env px" "with_proxy sv p = (reply, sv')" "ap_proxy (sv_app sv) = px"
    and "accounted_reply R env px (fst p) (snd p)"
  shows "accounted_reply R env px reply (ap_proxy (sv_app sv'))"
  using assms by (auto simp: with_proxy_def)

lemma send_control_no_stream [simp]:
  "\<not> is_stream (fst (send_control k ok send endpoint rq rid d e labels))"
  by (auto simp: send_control_def split: option.splits sum.splits http_reply.splits)

lemma sleep_wakeup_no_stream:
  "\<not> is_stream (fst (route_sleep_wakeup_request env k ok send endpoint rq px labels))"
  by (auto simp: route_sleep_wakeup_request_def split: option.splits sum.splits list.splits)

lemma chat_accounted:
  assumes "proxy_ok R env px" "route_chat_completion R env F sem g l rq px s = (reply, px', s')"
  shows "accounted_reply R env px reply px'"
  using assms accounted_reply_same [OF assms(1)] route_general_request_accounted [OF assms(1)]
  by (auto simp: route_chat_completion_def split: prod.splits sum.splits option.splits)

lemma rerank_accounted:
  assumes "proxy_ok R env px" "route_v1_rerank R env bytes rq px = (reply, px')"
  shows "accounted_reply R env px reply px'"
  using assms accounted_reply_same [OF assms(1)] route_general_request_accounted [OF assms(1)]
  by (auto simp: route_v1_rerank_def split: option.splits payload.splits json.splits sum.splits)

lemma transcriptions_accounted:
  assumes "proxy_ok R env px" "route_general_transcriptions R env pf sf call f hs px = (reply, px')"
  shows "accounted_reply R env px reply px'"
  using assms accounted_reply_same [OF assms(1)] proxy_multipart_request_accounted [OF assms(1)]
  by (auto simp: route_general_transcriptions_def split: sum.splits py_exn.splits)

lemma multipart_accounted:
  assumes "proxy_ok R env px" "route_multipart_request R env call f hs px = (reply, px')"
  shows "accounted_reply R env px reply px'"
  using assms accounted_reply_same [OF assms(1)] proxy_multipart_request_accounted [OF assms(1)]
  by (auto simp: route_multipart_request_def split: option.splits)

lemma reply_result_no_stream [simp]: "\<not> is_stream (reply_result r)"
  by (cases r) (auto simp: reply_result_def)

lemma run_handler_accounted:
  fixes sv :: "('r, 't, 'x) server"
  assumes ok: "proxy_ok R (si_env si) (ap_proxy (sv_app sv))" and r: "run_handler R si h cr sv = (reply, sv')"
  shows "accounted_reply R (si_env si) (ap_proxy (sv_app sv)) reply (ap_proxy (sv_app sv'))"
proof (cases h)
  case ChatCompletion
  obtain rep px s' where c: "route_chat_completion R (si_env si) (si_index si) (si_semantic si) (ap_gates (sv_app sv))
      (si_latency si) (cr_request cr) (ap_proxy (sv_app sv)) (sv_semantic sv) = (rep, px, s')"
    by (metis prod_cases3)
  then show ?thesis using r ChatCompletion chat_accounted [OF ok c] by (auto simp: run_handler_def with_proxy_def)
next
  case General
  then show ?thesis using r route_general_request_accounted [OF ok prod.collapse [symmetric]]
    by (auto simp: run_handler_def with_proxy_def)
next
  case Rerank
  then show ?thesis using r rerank_accounted [OF ok prod.collapse [symmetric]]
    by (auto simp: run_handler_def with_proxy_def)
next
  case Transcriptions
  then show ?thesis using r transcriptions_accounted [OF ok prod.collapse [symmetric]]
    by (auto simp: run_handler_def with_proxy_def)
next
  case Multipart
  then show ?thesis using r multipart_accounted [OF ok prod.collapse [symmetric]]
    by (auto simp: run_handler_def with_proxy_def)
next
  case SleepWakeup
  let ?w = "route_sleep_wakeup_request (si_env si) (si_api_key si) (si_api_ok si) (si_send si) (cr_path cr)
    \<lparr>cq_headers = rq_headers (cr_request cr), cq_params = cr_params cr, cq_body = rq_body (cr_request cr)\<rparr>
    (ap_proxy (sv_app sv)) (sv_labels sv)"
  have "reply = fst ?w \<and> sv_app sv' = sv_app sv" using r SleepWakeup by (auto simp: run_handler_def split: prod.splits)
  then show ?thesis using accounted_reply_same [OF ok] sleep_wakeup_no_stream by metis
qed (use r accounted_reply_same [OF ok] in \<open>auto simp: run_handler_def\<close>)

lemma handle_request_accounted:
  fixes sv :: "('r, 't, 'x) server"
  assumes "proxy_ok R (si_env si) (ap_proxy (sv_app sv))" "handle_request R si cr sv = (reply, sv')"
  shows "accounted_reply R (si_env si) (ap_proxy (sv_app sv)) reply (ap_proxy (sv_app sv'))"
  using assms run_handler_accounted [OF assms(1)] accounted_reply_same [OF assms(1)]
  by (auto simp: handle_request_def split: option.splits if_splits)

section \<open>Properties\<close>

text \<open>C38. The listing of the models is exact: if every engine files a model under its own identifier, the listing has every model
  of a listed engine, every model of an external provider and every alias, each once, and nothing else.\<close>

theorem models_listed_once:
  assumes r: "show_models to_int env px = Inr r" and d: "px_discovery px = Some d"
    and e: "discovery_endpoints (pe_md5 env) \<lfloor>pe_clock env\<rfloor> d = Inr eps"
    and ids: "\<forall>(m, card) \<in> set (local_models eps). map_of card ''id'' = Some (JStr m)"
  shows "resp_status r = 200 \<and> distinct (cards_listed r) \<and>
    set (cards_listed r) = (Some \<circ> JStr) ` (\<Union>e \<in> set eps. fst ` set (model_entries e)) \<union>
      (Some \<circ> JStr) ` {m. \<exists>g. px_registry px = Some g \<and> is_external_model g m} \<union>
      (Some \<circ> JStr) ` fst ` set (discovery_aliases d)"
proof -
  let ?now = "\<lfloor>pe_clock env\<rfloor>"
  obtain e1 c1 e2 c2 e3 c3 where
    l: "add_cards to_int ?now (local_models eps) ([], []) = Inr (e1, c1)"
       "add_cards to_int ?now (external_models (px_registry px)) (e1, c1) = Inr (e2, c2)"
       "add_cards to_int ?now (alias_models d) (e2, c2) = Inr (e3, c3)"
    and r3: "r = JSONResponse 200 (JObj [(''object'', JStr ''list''), (''data'', JList (map JObj c3))]) []"
    using r d e by (auto simp: show_models_def get_service_discovery_def)
  have x: "\<forall>(m, card) \<in> set (external_models (px_registry px)). map_of card ''id'' = Some (JStr m)"
    "\<forall>(m, card) \<in> set (alias_models d). map_of card ''id'' = Some (JStr m)"
    by (auto simp: external_models_def alias_models_def split: option.splits)
  note s1 = add_cards_exact [OF l(1) ids]
  note s2 = add_cards_exact [OF l(2) x(1)]
  note s3 = add_cards_exact [OF l(3) x(2)]
  have "distinct e3 \<and> set e3 = fst ` set (local_models eps) \<union> fst ` set (external_models (px_registry px)) \<union> fst ` set (alias_models d) \<and>
      map (\<lambda>c. map_of c ''id'') c3 = map (Some \<circ> JStr) e3"
    using s1 s2 s3 by simp
  moreover have "cards_listed r = map (\<lambda>c. map_of c ''id'') c3" by (simp add: r3 cards_listed_def comp_def)
  moreover have "fst ` set (local_models eps) = (\<Union>e \<in> set eps. fst ` set (model_entries e))"
    "fst ` set (external_models (px_registry px)) = {m. \<exists>g. px_registry px = Some g \<and> is_external_model g m}"
    "fst ` set (alias_models d) = fst ` set (discovery_aliases d)"
    by (force simp: local_models_def external_models_def alias_models_def is_external_model_def
        get_all_external_model_ids_def map_of_eq_None_iff split: option.splits)+
  ultimately show ?thesis
    by (auto simp: r3 distinct_map inj_on_def image_Un)
qed

definition json_int_only :: "json \<Rightarrow> int option" where
  "json_int_only j = (case j of JInt i \<Rightarrow> Some i | _ \<Rightarrow> None)"

definition static_example :: StaticDiscovery where
  "static_example = \<lparr>st_urls = [''a'', ''b''], st_models = [''m'', ''n''], st_aliases = Some [(''small'', ''m'')],
     st_model_labels = None, st_model_types = None, st_engines_id = [''1'', ''2''], st_added_timestamp = 0,
     st_unhealthy = [], st_prefill_labels = NoLabels, st_decode_labels = NoLabels\<rparr>"

theorem models_listed_once_witness:
  "\<exists>r. show_models json_int_only env_example (proxy_example\<lparr>px_discovery := Some (StaticD static_example)\<rparr>) = Inr r \<and>
     set (cards_listed r) = {Some (JStr ''m''), Some (JStr ''n''), Some (JStr ''small'')}"
proof -
  let ?px = "proxy_example\<lparr>px_discovery := Some (StaticD static_example)\<rparr>"
  have c: "pe_md5 env_example = id" "pe_clock env_example = 1" "px_registry ?px = None" "px_discovery ?px = Some (StaticD static_example)"
    by (simp_all add: env_example_def proxy_example_def)
  have e: "discovery_endpoints (pe_md5 env_example) \<lfloor>pe_clock env_example\<rfloor> (StaticD static_example) =
      Inr [static_endpoint 1 static_example 0 ''a'' ''m'' ''default'', static_endpoint 1 static_example 1 ''b'' ''n'' ''default'']"
    by (simp add: c static_endpoints_def static_example_def)
  have l: "model_entries (static_endpoint n d i u m x) = static_model_info n m" for n d i u m x
    by (simp add: static_endpoint_def model_entries_def)
  have al: "st_aliases static_example = Some [(''small'', ''m'')]" by (simp add: static_example_def)
  have ids: "\<forall>(m, card) \<in> set (local_models [static_endpoint 1 static_example 0 ''a'' ''m'' ''default'',
      static_endpoint 1 static_example 1 ''b'' ''n'' ''default'']). map_of card ''id'' = Some (JStr m)"
    by (simp add: local_models_def l static_model_info_def model_info_to_dict_def)
  have "\<exists>r. show_models json_int_only env_example ?px = Inr r"
    unfolding show_models_def get_service_discovery_def c option.case result_bind.simps Let_def e [unfolded c]
    by (simp add: local_models_def l static_model_info_def model_info_to_dict_def ModelCard_def json_int_only_def dict_get_def
        external_models_def alias_models_def al)
  then obtain r where r: "show_models json_int_only env_example ?px = Inr r" by blast
  from models_listed_once [OF r c(4) e ids] r show ?thesis
    by (auto simp: l static_model_info_def al c(3))
qed

end
