(* ===== verification/Metrics.thy ===== *)
theory Metrics
  imports App
begin

text \<open>
  What the router reports: the gauges of \<^verbatim>\<open>services/metrics_service\<close> that are labelled by server, the endpoint
  \<^verbatim>\<open>/metrics\<close> of \<^verbatim>\<open>routers/metrics_router.py\<close>, which fills them anew for each scrape, and the rounds of
  \<^verbatim>\<open>stats/log_stats.py\<close>, which update them and write a summary to the log. The load of the machine and the
  formatting of numbers are inputs.
\<close>

section \<open>Gauges\<close>

datatype gauge =
    G_current_qps
  | G_avg_decoding_length
  | G_num_prefill_requests
  | G_num_decoding_requests
  | G_num_requests_running
  | G_num_requests_waiting
  | G_avg_latency
  | G_avg_itl
  | G_num_requests_swapped
  | G_gpu_prefix_cache_hit_rate
  | G_gpu_prefix_cache_hits_total
  | G_gpu_prefix_cache_queries_total
  | G_healthy_pods_total

type_synonym gauges = "gauge \<Rightarrow> (url, real) dict"

record host_load =
  router_cpu_usage_percent :: real
  router_memory_usage_percent :: real
  router_disk_usage_percent :: real

definition set_gauge :: "url \<Rightarrow> gauge \<times> real \<Rightarrow> gauges \<Rightarrow> gauges" where
  "set_gauge u = (\<lambda>(g, v) G. G(g := dict_set (G g) u v))"

text \<open>The assignments for one server, which \<^verbatim>\<open>metrics\<close> and \<^verbatim>\<open>log_stats\<close> have in common.\<close>

definition request_gauges :: "RequestStats \<Rightarrow> (gauge \<times> real) list" where
  "request_gauges s =
     [(G_current_qps, st_qps s), (G_avg_decoding_length, st_avg_decoding_length s),
      (G_num_prefill_requests, of_int (st_in_prefill_requests s)),
      (G_num_decoding_requests, of_int (st_in_decoding_requests s)),
      (G_num_requests_running, of_int (st_in_prefill_requests s + st_in_decoding_requests s)),
      (G_avg_latency, st_avg_latency s), (G_avg_itl, st_avg_itl s),
      (G_num_requests_swapped, of_int (st_num_swapped_requests s))]"

definition engine_gauges :: "EngineStats \<Rightarrow> (gauge \<times> real) list" where
  "engine_gauges s =
     [(G_gpu_prefix_cache_hit_rate, gpu_prefix_cache_hit_rate s),
      (G_gpu_prefix_cache_hits_total, gpu_prefix_cache_hits_total s),
      (G_gpu_prefix_cache_queries_total, gpu_prefix_cache_queries_total s)]"

definition set_gauges :: "('a \<Rightarrow> (gauge \<times> real) list) \<Rightarrow> url \<times> 'a \<Rightarrow> gauges \<Rightarrow> gauges" where
  "set_gauges f = (\<lambda>(u, x) G. fold (set_gauge u) (f x) G)"

section \<open>The metrics endpoint\<close>

definition clear_label_gauges :: "gauges \<Rightarrow> gauges" where
  "clear_label_gauges G = (\<lambda>g. [])"

text \<open>The exposition of the gauges is Prometheus code; an exception leaves the gauges as they are by then.\<close>

definition metrics ::
  "(string \<Rightarrow> string) \<Rightarrow> time \<Rightarrow> host_load \<Rightarrow> ('r, 't) app_state \<Rightarrow> gauges
     \<Rightarrow> unit result \<times> host_load \<times> gauges \<times> ('r, 't) app_state" where
  "metrics md5 now load a G =
     (let px = ap_proxy a; (stats, m') = get_request_stats (px_monitor px) now;
          a' = a\<lparr>ap_proxy := px\<lparr>px_monitor := m'\<rparr>\<rparr>; G0 = clear_label_gauges G
      in case stats of
           Inl x \<Rightarrow> (Inl x, load, G0, a')
         | Inr st \<Rightarrow>
           (let G1 = fold (set_gauges request_gauges) st G0;
                G2 = fold (set_gauges engine_gauges) (get_engine_stats (ap_scraper a)) G1
            in case result_bind (get_service_discovery (px_discovery px)) (discovery_endpoints md5 \<lfloor>now\<rfloor>) of
                 Inl x \<Rightarrow> (Inl x, load, G2, a')
               | Inr eps \<Rightarrow> (Inr (), load,
                   fold (\<lambda>e. set_gauge (ep_url e) (G_healthy_pods_total, of_bool (healthy e))) eps G2, a')))"

section \<open>The log of the statistics\<close>

definition nl :: string where
  "nl = [CHR 0x0A]"

text \<open>\<open>str\<close> writes a number as it is, \<open>fixed\<close> with two digits.\<close>

definition models_text :: "(json \<Rightarrow> string) \<Rightarrow> EndpointInfo \<Rightarrow> string" where
  "models_text js e =
     (if model_entries e = [] then ''Models: No model information available'' @ nl
      else ''Models:'' @ nl @ concat (map (\<lambda>(m, i). ''  - '' @ m @
             (if py_truthy (mi_parent i) then '' (adapter for '' @ text_of js (mi_parent i) @ '')'' else []) @ nl) (model_entries e)))"

definition engine_text :: "(real \<Rightarrow> string) \<Rightarrow> (real \<Rightarrow> string) \<Rightarrow> EngineStats option \<Rightarrow> string" where
  "engine_text str fixed s = (case s of
     None \<Rightarrow> '' Engine Stats: No stats available'' @ nl
   | Some es \<Rightarrow> '' Engine Stats: Running Requests: '' @ str (num_running_requests es) @ '', Queued Requests: '' @
       str (num_queuing_requests es) @ '', GPU Cache Hit Rate: '' @ fixed (gpu_prefix_cache_hit_rate es) @ nl)"

definition request_text :: "(real \<Rightarrow> string) \<Rightarrow> (real \<Rightarrow> string) \<Rightarrow> RequestStats option \<Rightarrow> string" where
  "request_text str fixed s = (case s of
     None \<Rightarrow> '' Request Stats: No stats available'' @ nl
   | Some rs \<Rightarrow> '' Request Stats: QPS: '' @ fixed (st_qps rs) @ '', Avg Latency: '' @ fixed (st_avg_latency rs) @
       '', Avg ITL: '' @ str (st_avg_itl rs) @ '', Prefill Requests: '' @ str_of_int (st_in_prefill_requests rs) @
       '', Decoding Requests: '' @ str_of_int (st_in_decoding_requests rs) @
       '', Swapped Requests: '' @ str_of_int (st_num_swapped_requests rs) @
       '', Finished: '' @ str_of_int (st_finished_requests rs) @ '', Uptime: '' @ fixed (st_uptime rs) @ '' sec'' @ nl)"

definition log_endpoint ::
  "(json \<Rightarrow> string) \<Rightarrow> (real \<Rightarrow> string) \<Rightarrow> (real \<Rightarrow> string) \<Rightarrow> (url, EngineStats) dict \<Rightarrow> (url, RequestStats) dict
     \<Rightarrow> EndpointInfo \<Rightarrow> string \<times> gauges \<Rightarrow> string \<times> gauges" where
  "log_endpoint js str fixed es rs e = (\<lambda>(text, G).
     let u = ep_url e; ue = map_of es u; ur = map_of rs u in
     (text @ ''Server: '' @ u @ nl @ models_text js e @ engine_text str fixed ue @ request_text str fixed ur @
        replicate 50 CHR ''-'' @ nl,
      (case ur of None \<Rightarrow> id | Some s \<Rightarrow> set_gauges request_gauges (u, s))
        ((case ue of None \<Rightarrow> id | Some s \<Rightarrow> set_gauges engine_gauges (u, s)) G)))"

text \<open>One round of the loop: the text for the log, the gauges and the monitor.\<close>

definition log_stats_round ::
  "(string \<Rightarrow> string) \<Rightarrow> (json \<Rightarrow> string) \<Rightarrow> (real \<Rightarrow> string) \<Rightarrow> (real \<Rightarrow> string) \<Rightarrow> time \<Rightarrow> ('r, 't) app_state \<Rightarrow> gauges
     \<Rightarrow> string result \<times> gauges \<times> ('r, 't) app_state" where
  "log_stats_round md5 js str fixed now a G =
     (let px = ap_proxy a; bar = replicate 50 CHR ''='' in
      case result_bind (get_service_discovery (px_discovery px)) (discovery_endpoints md5 \<lfloor>now\<rfloor>) of
        Inl x \<Rightarrow> (Inl x, G, a)
      | Inr eps \<Rightarrow>
        (let (stats, m') = get_request_stats (px_monitor px) now; a' = a\<lparr>ap_proxy := px\<lparr>px_monitor := m'\<rparr>\<rparr>
         in case stats of
              Inl x \<Rightarrow> (Inl x, G, a')
            | Inr rs \<Rightarrow>
              (let (text, G') = fold (log_endpoint js str fixed (get_engine_stats (ap_scraper a)) rs) eps (nl @ bar @ nl, G)
               in (Inr (text @ bar @ nl), G', a'))))"

section \<open>Facts\<close>

lemma set_gauge_apply: "set_gauge u (g, v) G g' = (if g' = g then dict_set (G g) u v else G g')"
  by (simp add: set_gauge_def)

text \<open>The value an assignment list gives a gauge.\<close>

definition assigned :: "(gauge \<times> real) list \<Rightarrow> gauge \<Rightarrow> real option" where
  "assigned xs g = map_of (rev xs) g"

lemma fold_set_gauge:
  "map_of (fold (set_gauge u) xs G g) v =
     (case assigned xs g of Some x \<Rightarrow> (if v = u then Some x else map_of (G g) v) | None \<Rightarrow> map_of (G g) v)"
proof (induction xs arbitrary: G)
  case (Cons x xs)
  obtain h w where x: "x = (h, w)" by fastforce
  show ?case
    by (auto simp: Cons.IH x set_gauge_apply assigned_def map_add_def split: option.splits)
qed (simp add: assigned_def)

lemma fold_set_gauges:
  assumes "\<And>x. assigned (f x) g = map_option (\<lambda>c. c x) val" "distinct (keys d)"
  shows "map_of (fold (set_gauges f) d G g) v = (case val of
     None \<Rightarrow> map_of (G g) v
   | Some c \<Rightarrow> (case map_of d v of Some x \<Rightarrow> Some (c x) | None \<Rightarrow> map_of (G g) v))"
  using assms(2)
proof (induction d arbitrary: G)
  case (Cons p d)
  obtain u x where p: "p = (u, x)" by fastforce
  then have "map_of d u = None" using Cons.prems by (auto simp: map_of_eq_None_iff)
  then show ?case
    using Cons by (auto simp: p set_gauges_def fold_set_gauge assms(1) split: option.splits)
qed (simp split: option.split)

lemma stats_loop_distinct: "stats_loop m now us ret = (Inr d, m') \<Longrightarrow> distinct (keys ret) \<Longrightarrow> distinct (keys d)"
  by (induction m now us ret rule: stats_loop.induct) (auto split: prod.splits sum.splits)

lemma get_request_stats_distinct: "get_request_stats m now = (Inr d, m') \<Longrightarrow> distinct (keys d)"
  using stats_loop_distinct [of m now _ "[]"] by (auto simp: get_request_stats_def)

lemma fold_healthy_other:
  "g \<noteq> G_healthy_pods_total \<Longrightarrow> fold (\<lambda>e. set_gauge (ep_url e) (G_healthy_pods_total, of_bool (healthy e))) eps G g = G g"
  by (induction eps arbitrary: G) (simp_all add: set_gauge_apply)

lemma fold_healthy:
  "map_of (fold (\<lambda>e. set_gauge (ep_url e) (G_healthy_pods_total, of_bool (healthy e))) eps G G_healthy_pods_total) u = None \<longleftrightarrow>
     map_of (G G_healthy_pods_total) u = None \<and> u \<notin> set (map ep_url eps)"
  by (induction eps arbitrary: G) (auto simp: set_gauge_apply)

text \<open>The gauges of a successful scrape, one by one.\<close>

lemma metrics_parts:
  fixes a :: "('r, 't) app_state"
  assumes "metrics md5 now load a G = (Inr (), load', G', a')"
  obtains st m' eps where "get_request_stats (px_monitor (ap_proxy a)) now = (Inr st, m')"
    "result_bind (get_service_discovery (px_discovery (ap_proxy a))) (discovery_endpoints md5 \<lfloor>now\<rfloor>) = Inr eps"
    "G' = fold (\<lambda>e. set_gauge (ep_url e) (G_healthy_pods_total, of_bool (healthy e))) eps
       (fold (set_gauges engine_gauges) (get_engine_stats (ap_scraper a)) (fold (set_gauges request_gauges) st (\<lambda>g. [])))"
    "a' = a\<lparr>ap_proxy := (ap_proxy a)\<lparr>px_monitor := m'\<rparr>\<rparr>"
  using assms by (auto simp: metrics_def clear_label_gauges_def split: prod.splits sum.splits)

lemmas gauge_assignments = assigned_def request_gauges_def engine_gauges_def

lemma stats_of_url_stages:
  assumes "rsm_inv m" "sliding_window_size m \<noteq> 0"
  shows "st_in_prefill_requests (projr (fst (stats_of_url m now u))) = int (in_flight (active_requests m) Prefill u)"
    "st_in_decoding_requests (projr (fst (stats_of_url m now u))) = int (in_flight (active_requests m) Decoding u)"
  using rsm_invD(4,5) [OF assms(1)] assms(2) by (auto simp: stats_of_url_def)

lemma request_gauge_value:
  assumes "\<And>x. assigned (request_gauges x) g = Some (c x)" "\<And>x. assigned (engine_gauges x) g = None"
    and "distinct (keys es)" "distinct (keys st)" "g \<noteq> G_healthy_pods_total"
  shows "map_of (fold (\<lambda>e. set_gauge (ep_url e) (G_healthy_pods_total, of_bool (healthy e))) eps
       (fold (set_gauges engine_gauges) es (fold (set_gauges request_gauges) st (\<lambda>g. []))) g) u = map_option c (map_of st u)"
  using fold_set_gauges [of engine_gauges g None es "fold (set_gauges request_gauges) st (\<lambda>g. [])" u]
    fold_set_gauges [of request_gauges g "Some c" st "\<lambda>g. []" u] assms
  by (simp add: fold_healthy_other split: option.splits)

section \<open>Properties\<close>

text \<open>C39. A scrape reports the present and nothing stale: after it the running, prefill and decoding gauges have, for every server the
  monitor has counted and for no other, the numbers of its live attempts, whatever earlier
  scrapes left; the health gauge has exactly the listed endpoints. The gauge of waiting
  requests is empty.\<close>

theorem scrape_reports_live_attempts:
  fixes a :: "('r, 't) app_state"
  assumes inv: "rsm_inv (px_monitor (ap_proxy a))" "sliding_window_size (px_monitor (ap_proxy a)) \<noteq> 0"
    and es: "distinct (keys (get_engine_stats (ap_scraper a)))"
    and r: "metrics md5 now load a G = (Inr (), load', G', a')"
  shows "\<exists>eps. result_bind (get_service_discovery (px_discovery (ap_proxy a))) (discovery_endpoints md5 \<lfloor>now\<rfloor>) = Inr eps \<and>
    (let m = px_monitor (ap_proxy a); n = (\<lambda>s u. real (in_flight (active_requests m) s u)); seen = fst ` set (in_prefill_requests m) \<union> fst ` set (in_decoding_requests m) in
    \<forall>u. map_of (G' G_num_prefill_requests) u = (if u \<in> seen then Some (n Prefill u) else None) \<and>
        map_of (G' G_num_decoding_requests) u = (if u \<in> seen then Some (n Decoding u) else None) \<and>
        map_of (G' G_num_requests_running) u = (if u \<in> seen then Some (n Prefill u + n Decoding u) else None) \<and>
        (map_of (G' G_healthy_pods_total) u \<noteq> None \<longleftrightarrow> u \<in> set (map ep_url eps)) \<and>
        map_of (G' G_num_requests_waiting) u = None)"
proof -
  let ?m = "px_monitor (ap_proxy a)"
  from r obtain st m' eps where st: "get_request_stats ?m now = (Inr st, m')" and
    eps: "result_bind (get_service_discovery (px_discovery (ap_proxy a))) (discovery_endpoints md5 \<lfloor>now\<rfloor>) = Inr eps" and
    G': "G' = fold (\<lambda>e. set_gauge (ep_url e) (G_healthy_pods_total, of_bool (healthy e))) eps
       (fold (set_gauges engine_gauges) (get_engine_stats (ap_scraper a)) (fold (set_gauges request_gauges) st (\<lambda>g. [])))"
    by (rule metrics_parts)
  note d = es get_request_stats_distinct [OF st]
  have look: "map_of st u = (if u \<in> fst ` set (in_prefill_requests ?m) \<union> fst ` set (in_decoding_requests ?m)
      then Some (projr (fst (stats_of_url ?m now u))) else None)" for u
    using get_request_stats_spec [OF inv(2), of now] st by auto
  have v: "map_of (G' G_num_prefill_requests) u = map_option (\<lambda>s. of_int (st_in_prefill_requests s)) (map_of st u)"
    "map_of (G' G_num_decoding_requests) u = map_option (\<lambda>s. of_int (st_in_decoding_requests s)) (map_of st u)"
    "map_of (G' G_num_requests_running) u = map_option (\<lambda>s. of_int (st_in_prefill_requests s + st_in_decoding_requests s)) (map_of st u)" for u
    unfolding G' by (rule request_gauge_value [OF _ _ d]; simp add: gauge_assignments)+
  have none: "map_of (fold (set_gauges engine_gauges) (get_engine_stats (ap_scraper a)) (fold (set_gauges request_gauges) st (\<lambda>g. [])) g) u = None"
    if "g = G_healthy_pods_total \<or> g = G_num_requests_waiting" for g u
    using fold_set_gauges [of engine_gauges g None _ "fold (set_gauges request_gauges) st (\<lambda>g. [])" u, OF _ d(1)]
      fold_set_gauges [of request_gauges g None st "\<lambda>g. []" u, OF _ d(2)] that by (auto simp: gauge_assignments)
  have "map_of (G' G_healthy_pods_total) u \<noteq> None \<longleftrightarrow> u \<in> set (map ep_url eps)" for u
    unfolding G' fold_healthy by (simp add: none)
  moreover have "map_of (G' G_num_requests_waiting) u = None" for u
    unfolding G' by (simp add: fold_healthy_other none)
  ultimately show ?thesis
    unfolding Let_def using stats_of_url_stages [OF inv] by (intro exI [of _ eps] conjI eps allI) (simp_all add: v look)
qed

definition busy_monitor :: RequestStatsMonitor where
  "busy_monitor = rs_run [NewRequest ''e1'' ''a'' 1, NewRequest ''e1'' ''b'' 2, ResponseToken (RequestHandle 1) 3] (rsm_start 10)"

definition busy_app :: "(string list, unit) app_state" where
  "busy_app = \<lparr>ap_proxy = proxy_example\<lparr>px_monitor := busy_monitor\<rparr>, ap_routers = [], ap_callbacks = None,
     ap_scraper = \<lparr>es_engine_stats = [], es_scrape_interval = 1, es_running = True\<rparr>, ap_gates = gates_init,
     ap_timeout = DEFAULT_BACKEND_CLIENT_TIMEOUT, ap_watcher = None\<rparr>"

lemma busy_monitor_facts:
  "rsm_inv busy_monitor" "sliding_window_size busy_monitor \<noteq> 0"
  "in_flight (active_requests busy_monitor) Prefill ''e1'' = 1" "in_flight (active_requests busy_monitor) Decoding ''e1'' = 1"
  "''e1'' \<in> fst ` set (in_prefill_requests busy_monitor)"
  "''e2'' \<notin> fst ` set (in_prefill_requests busy_monitor) \<union> fst ` set (in_decoding_requests busy_monitor)"
proof -
  show "rsm_inv busy_monitor" by (simp add: busy_monitor_def rs_run_inv rsm_inv_start)
qed code_simp+

theorem scrape_reports_live_attempts_witness:
  "\<exists>load G' a'. metrics id 4 load busy_app (\<lambda>g. [(''e2'', 5)]) = (Inr (), load, G', a') \<and>
     map_of (G' G_num_requests_running) ''e1'' = Some 2 \<and> map_of (G' G_num_requests_running) ''e2'' = None"
proof -
  let ?load = "\<lparr>router_cpu_usage_percent = 0, router_memory_usage_percent = 0, router_disk_usage_percent = 0\<rparr>"
  have px: "px_monitor (ap_proxy busy_app) = busy_monitor" "px_discovery (ap_proxy busy_app) = Some (PodIPD pods_example)"
    "get_engine_stats (ap_scraper busy_app) = []"
    by (simp_all add: busy_app_def proxy_example_def get_engine_stats_def)
  obtain d m' where "get_request_stats busy_monitor 4 = (Inr d, m')"
    using get_request_stats_spec [OF busy_monitor_facts(2)] by blast
  then obtain G' a' where m: "metrics id 4 ?load busy_app (\<lambda>g. [(''e2'', 5)]) = (Inr (), ?load, G', a')"
    by (auto simp: metrics_def px get_service_discovery_def)
  have "map_of (G' G_num_requests_running) u = (if u \<in> fst ` set (in_prefill_requests busy_monitor) \<union> fst ` set (in_decoding_requests busy_monitor)
      then Some (real (in_flight (active_requests busy_monitor) Prefill u) + real (in_flight (active_requests busy_monitor) Decoding u)) else None)" for u
    using scrape_reports_live_attempts [OF _ _ _ m, unfolded px Let_def, OF busy_monitor_facts(1,2)] by (metis distinct.simps(1) list.map(1))
  from this [of "''e1''"] this [of "''e2''"]
  have "map_of (G' G_num_requests_running) ''e1'' = Some 2" "map_of (G' G_num_requests_running) ''e2'' = None"
    using busy_monitor_facts(3-6) by simp_all
  then show ?thesis using m by blast
qed

end
