(* ===== verification/Hooks.thy ===== *)
theory Hooks
  imports General_Request
begin

text \<open>
  The parts around a request: the request rewriter of \<^verbatim>\<open>services/request_service/rewriter.py\<close>, the shared HTTP client
  of \<^verbatim>\<open>aiohttp_client.py\<close>, and the tracing state and spans of \<^verbatim>\<open>experimental/otel/tracing.py\<close>. Exporting
  spans, and reading and writing the trace headers, is OpenTelemetry code.
\<close>

section \<open>The request rewriter\<close>

datatype RequestRewriter = NoopRequestRewriter

text \<open>A rewriter turns a body into a body; what the result parses to is what the handler goes on with.\<close>

fun rewrite_request :: "RequestRewriter \<Rightarrow> payload option \<Rightarrow> json \<Rightarrow> string \<Rightarrow> payload option" where
  "rewrite_request NoopRequestRewriter request_body model endpoint = request_body"

definition initialize_request_rewriter :: "string \<Rightarrow> RequestRewriter option \<Rightarrow> RequestRewriter \<times> RequestRewriter option" where
  "initialize_request_rewriter rewriter_type inst = (NoopRequestRewriter, Some NoopRequestRewriter)"

definition is_request_rewriter_initialized :: "RequestRewriter option \<Rightarrow> bool" where
  "is_request_rewriter_initialized inst = (inst \<noteq> None)"

definition get_request_rewriter :: "RequestRewriter option \<Rightarrow> RequestRewriter \<times> RequestRewriter option" where
  "get_request_rewriter inst = (case inst of
     None \<Rightarrow> (NoopRequestRewriter, Some NoopRequestRewriter) | Some r \<Rightarrow> (r, Some r))"

text \<open>The rewriter as the handler uses it: nothing while none is initialized.\<close>

definition rewriter_hook :: "RequestRewriter option \<Rightarrow> (payload option \<Rightarrow> json \<Rightarrow> string \<Rightarrow> body option) option" where
  "rewriter_hook inst =
     (if is_request_rewriter_initialized inst
      then Some (\<lambda>body model endpoint.
        case rewrite_request (fst (get_request_rewriter inst)) body model endpoint of
          Some (JsonText (JObj d)) \<Rightarrow> Some d | _ \<Rightarrow> None)
      else None)"

lemma rewrite_same: "rewrite_request r b m e = b"
  by (cases r) simp

lemma rewriter_after_get: "is_request_rewriter_initialized (snd (get_request_rewriter inst))"
  by (simp add: is_request_rewriter_initialized_def get_request_rewriter_def split: option.split)

text \<open>Only the rewriting step looks at the rewriter.\<close>

lemma route_and_proxy_rewriter [simp]:
  "route_and_proxy R (env\<lparr>pe_rewriter := h\<rparr>) = route_and_proxy R env"
  by (intro ext, cases env, hypsubst, unfold route_and_proxy_def proxy_env.simps, rule refl)

lemma route_local_rewriter [simp]: "route_local R (env\<lparr>pe_rewriter := h\<rparr>) = route_local R env"
  by (intro ext, unfold route_local_def route_and_proxy_rewriter, cases env, hypsubst, unfold proxy_env.simps, rule refl)

lemma select_and_route_rewriter [simp]: "select_and_route R (env\<lparr>pe_rewriter := h\<rparr>) = select_and_route R env"
  by (intro ext, unfold select_and_route_def resolve_target_def route_local_rewriter, cases env, hypsubst, unfold proxy_env.simps, rule refl)

lemma rewriter_hook_started:
  "rewriter_hook (snd (get_request_rewriter inst)) =
     Some (\<lambda>body model endpoint. case body of Some (JsonText (JObj d)) \<Rightarrow> Some d | _ \<Rightarrow> None)"
  by (cases inst) (simp_all add: rewriter_hook_def is_request_rewriter_initialized_def get_request_rewriter_def rewrite_same)

text \<open>The rewriter of a started router is transparent: every request is answered as without one.\<close>

lemma noop_rewriter_transparent:
  "route_backend_request R (env\<lparr>pe_rewriter := rewriter_hook (snd (get_request_rewriter inst))\<rparr>) endpoint rq px =
   route_backend_request R (env\<lparr>pe_rewriter := None\<rparr>) endpoint rq px"
proof -
  have rw: "rewrite_and_route R (env\<lparr>pe_rewriter := rewriter_hook (snd (get_request_rewriter inst))\<rparr>) endpoint rq rid model b px =
      rewrite_and_route R (env\<lparr>pe_rewriter := None\<rparr>) endpoint rq rid model b px" if "rq_body rq = Some (JsonText (JObj b))" for rid model b
    by (simp add: rewrite_and_route_def rewriter_hook_started that)
  have pre: "pre_request (env\<lparr>pe_rewriter := h\<rparr>) rq b = pre_request env rq b" for h b
    by (simp add: pre_request_def)
  consider "rq_body rq = None" | "rq_body rq = Some NotJson" | j where "rq_body rq = Some (JsonText j)"
    by (metis option.exhaust payload.exhaust)
  then show ?thesis
  proof cases
    case 3
    then show ?thesis using rw by (cases j) (simp_all add: route_backend_request_def pre split: option.split)
  qed (simp_all add: route_backend_request_def pre split: option.split)
qed

section \<open>The HTTP client\<close>

text \<open>A session has an identity; the wrapper holds at most one.\<close>

record AiohttpClientWrapper =
  async_client :: "nat option"

definition wrapper_start :: "nat \<Rightarrow> AiohttpClientWrapper \<Rightarrow> AiohttpClientWrapper" where
  "wrapper_start session w = w\<lparr>async_client := Some session\<rparr>"

text \<open>Stopping closes the session that is held; without one there is nothing to close and an attribute of \<^verbatim>\<open>None\<close> is read.\<close>

definition wrapper_stop :: "AiohttpClientWrapper \<Rightarrow> nat result \<times> AiohttpClientWrapper" where
  "wrapper_stop w = (case async_client w of
     None \<Rightarrow> (Inl (AttributeError ''closed''), w)
   | Some session \<Rightarrow> (Inr session, w\<lparr>async_client := None\<rparr>))"

definition wrapper_call :: "AiohttpClientWrapper \<Rightarrow> nat result" where
  "wrapper_call w = (case async_client w of None \<Rightarrow> Inl (AssertionError []) | Some session \<Rightarrow> Inr session)"

lemma client_between_start_and_stop:
  "wrapper_call (wrapper_start n w) = Inr n" "isl (wrapper_call (snd (wrapper_stop w)))"
  by (simp_all add: wrapper_call_def wrapper_start_def wrapper_stop_def isl_def split: option.split)

section \<open>Tracing\<close>

datatype span_kind = SERVER | CLIENT

record span =
  sp_name :: string
  sp_kind :: span_kind
  sp_attributes :: "(string, json) dict"
  sp_exceptions :: "string list"
  sp_error :: "string option"
  sp_ended :: bool

text \<open>A provider is known by its number and is shut down or not.\<close>

record tracing =
  tr_tracer :: "nat option"
  tr_provider :: "(nat \<times> bool) option"
  tr_enabled :: bool

text \<open>Which provider is in force after one is offered to the library, and so gives the tracer, is a parameter.\<close>

definition initialize_tracing :: "(nat \<Rightarrow> nat) \<Rightarrow> nat \<Rightarrow> tracing \<Rightarrow> tracing" where
  "initialize_tracing in_force fresh s =
     (if tr_enabled s then s
      else s\<lparr>tr_provider := Some (fresh, True), tr_tracer := Some (in_force fresh), tr_enabled := True\<rparr>)"

definition shutdown_tracing :: "tracing \<Rightarrow> tracing" where
  "shutdown_tracing s =
     s\<lparr>tr_provider := map_option (\<lambda>(n, _). (n, False)) (tr_provider s), tr_enabled := False\<rparr>"

definition get_tracer :: "tracing \<Rightarrow> nat result" where
  "get_tracer s = (case tr_tracer s of
     None \<Rightarrow> Inl (RuntimeError ''Tracing not initialized. Call initialize_tracing() first.'') | Some t \<Rightarrow> Inr t)"

definition is_tracing_enabled :: "tracing \<Rightarrow> bool" where
  "is_tracing_enabled s = tr_enabled s"

definition start_span :: "tracing \<Rightarrow> string \<Rightarrow> span_kind \<Rightarrow> (string, json) dict \<Rightarrow> span result" where
  "start_span s name kind attributes = result_bind (get_tracer s) (\<lambda>t.
     Inr \<lparr>sp_name = name, sp_kind = kind, sp_attributes = fold (\<lambda>(k, v) d. dict_set d k v) attributes [],
          sp_exceptions = [], sp_error = None, sp_ended = False\<rparr>)"

text \<open>The error is given by its text.\<close>

definition end_span :: "span option \<Rightarrow> string option \<Rightarrow> int option \<Rightarrow> span option" where
  "end_span sp error status_code = map_option (\<lambda>sp.
     let sp = (case status_code of
           None \<Rightarrow> sp | Some c \<Rightarrow> sp\<lparr>sp_attributes := dict_set (sp_attributes sp) ''http.status_code'' (JInt c)\<rparr>);
         sp = (case error of
           None \<Rightarrow> sp | Some e \<Rightarrow> sp\<lparr>sp_exceptions := sp_exceptions sp @ [e], sp_error := Some e\<rparr>)
     in sp\<lparr>sp_ended := True\<rparr>) sp"

text \<open>Whenever tracing is enabled spans can be started, through any sequence of initializations and shutdowns.\<close>

definition tracing_ok :: "tracing \<Rightarrow> bool" where
  "tracing_ok s \<longleftrightarrow> (tr_enabled s \<longrightarrow> (\<exists>n t. tr_tracer s = Some t \<and> tr_provider s = Some (n, True)))"

lemma tracing_ok_kept:
  "tracing_ok \<lparr>tr_tracer = None, tr_provider = None, tr_enabled = False\<rparr>"
  "tracing_ok s \<Longrightarrow> tracing_ok (initialize_tracing in_force n s)" "tracing_ok (shutdown_tracing s)"
  by (auto simp: tracing_ok_def initialize_tracing_def shutdown_tracing_def)

lemma span_lifecycle:
  assumes "tracing_ok s" "is_tracing_enabled s"
  obtains sp sp' where "start_span s name kind attrs = Inr sp" "\<not> sp_ended sp"
    "end_span (Some sp) error code = Some sp'" "sp_ended sp'" "sp_error sp' = error"
    "\<forall>c. code = Some c \<longrightarrow> map_of (sp_attributes sp') ''http.status_code'' = Some (JInt c)"
proof -
  let ?sp = "\<lparr>sp_name = name, sp_kind = kind, sp_attributes = fold (\<lambda>(k, v) d. dict_set d k v) attrs [],
    sp_exceptions = [], sp_error = None, sp_ended = False\<rparr>"
  have "start_span s name kind attrs = Inr ?sp"
    using assms by (auto simp: tracing_ok_def is_tracing_enabled_def start_span_def get_tracer_def)
  moreover obtain sp' where "end_span (Some ?sp) error code = Some sp'" by (auto simp: end_span_def)
  moreover from this have "sp_ended sp'" "sp_error sp' = error"
    "\<forall>c. code = Some c \<longrightarrow> map_of (sp_attributes sp') ''http.status_code'' = Some (JInt c)"
    by (auto simp: end_span_def split: option.splits)
  ultimately show ?thesis using that by simp
qed

end
