(* ===== verification/Logging.thy ===== *)
theory Logging
  imports Prelude
begin

text \<open>
  \<^verbatim>\<open>log.py\<close>: the loggers of the router with their two handlers, the level and format settings, and the
  filter that hides credentials in logged headers.

  A log record is its level, its message and its arguments; a header object among the arguments
  is a list of names and values. What a handler writes is the record it formats. Writing to the
  streams and the text layout are not represented.
\<close>

section \<open>Levels and formats\<close>

type_synonym level = int

definition DEBUG :: level where "DEBUG = 10"
definition INFO :: level where "INFO = 20"
definition WARNING :: level where "WARNING = 30"
definition ERROR :: level where "ERROR = 40"
definition CRITICAL :: level where "CRITICAL = 50"

definition LEVEL_NAME_MAP :: "(string, level) dict" where
  "LEVEL_NAME_MAP = [(''critical'', CRITICAL), (''error'', ERROR), (''warning'', WARNING), (''info'', INFO),
     (''debug'', DEBUG), (''trace'', DEBUG)]"

datatype formatter = CustomFormatter | JsonFormatter

text \<open>The colour of a line in the text format.\<close>

definition level_color :: "level \<Rightarrow> string option" where
  "level_color l = map_of [(DEBUG, ''1m''), (INFO, ''32;20m''), (WARNING, ''33;20m''), (ERROR, ''31;20m''), (CRITICAL, ''31;1m'')] l"

section \<open>Records\<close>

datatype log_arg = LogHeaders "(string \<times> string) list" | LogDict "(string, string) dict" | LogOther string

text \<open>Arguments are a tuple or a single mapping.\<close>

datatype log_args = ArgTuple "log_arg list" | ArgSingle log_arg

record log_record =
  lr_level :: level
  lr_name :: string
  lr_message :: string
  lr_args :: log_args
  lr_exception :: "string option"
  lr_stack :: "string option"

text \<open>The fields of a JSON line; the clock, the place in the source and the formatted message are arguments.\<close>

definition json_line :: "string \<Rightarrow> (level \<Rightarrow> string) \<Rightarrow> string \<Rightarrow> int \<Rightarrow> string \<Rightarrow> log_record \<Rightarrow> (string, json) dict" where
  "json_line time level_name file line msg r =
     [(''timestamp'', JStr time), (''level'', JStr (level_name (lr_level r))), (''logger'', JStr (lr_name r)),
      (''message'', JStr msg), (''filename'', JStr file), (''lineno'', JInt line)] @
     (case lr_exception r of None \<Rightarrow> [] | Some x \<Rightarrow> [(''exception'', JStr x)]) @
     (case lr_stack r of None \<Rightarrow> [] | Some x \<Rightarrow> if x = [] then [] else [(''stack_info'', JStr x)])"

section \<open>Hiding credentials\<close>

definition SENSITIVE_HEADERS :: "string list" where
  "SENSITIVE_HEADERS = [''authorization'', ''x-api-key'', ''api-key'', ''x-auth-token'', ''auth-token'',
     ''x-access-token'', ''access-token'', ''cookie'', ''set-cookie'']"

definition AUTH_SCHEMES :: "string list" where
  "AUTH_SCHEMES = [''bearer'', ''basic'', ''token'', ''digest'', ''oauth'', ''apikey'']"

definition redact_value :: "string \<Rightarrow> string" where
  "redact_value v =
     (let scheme = takeWhile (\<lambda>c. c \<noteq> CHR '' '') v in
      if CHR '' '' \<in> set v \<and> str_lower scheme \<in> set AUTH_SCHEMES then scheme @ '' ****''
      else if 4 < length v then take 4 v @ ''****'' else ''****'')"

definition sensitive :: "string \<Rightarrow> bool" where
  "sensitive k = (str_lower k \<in> set SENSITIVE_HEADERS)"

definition redact_headers :: "(string \<times> string) list \<Rightarrow> (string, string) dict" where
  "redact_headers hs = fold (\<lambda>(k, v) d. dict_set d k (if sensitive k then redact_value v else v)) hs []"

fun redact_arg :: "log_arg \<Rightarrow> log_arg" where
  "redact_arg (LogHeaders hs) = (if list_ex (\<lambda>(k, v). sensitive k) hs then LogDict (redact_headers hs) else LogHeaders hs)"
| "redact_arg a = a"

fun redact_args :: "log_args \<Rightarrow> log_args" where
  "redact_args (ArgTuple as) = ArgTuple (map redact_arg as)"
| "redact_args (ArgSingle a) = ArgSingle (redact_arg a)"

text \<open>The filter changes the record itself and always lets it pass.\<close>

definition token_redaction_filter :: "log_record \<Rightarrow> bool \<times> log_record" where
  "token_redaction_filter r = (True, r\<lparr>lr_args := redact_args (lr_args r)\<rparr>)"

definition max_level_filter :: "level \<Rightarrow> log_record \<Rightarrow> bool \<times> log_record" where
  "max_level_filter l r = (lr_level r \<le> l, r)"

section \<open>Loggers\<close>

datatype stream = Stdout | Stderr

record handler =
  hd_stream :: stream
  hd_level :: level
  hd_formatter :: formatter
  hd_filters :: "(log_record \<Rightarrow> bool \<times> log_record) list"

record logger =
  lg_name :: string
  lg_level :: level
  lg_handlers :: "handler list"

record log_state =
  ls_level :: level
  ls_format :: string
  ls_loggers :: "logger list"

definition log_start :: log_state where
  "log_start = \<lparr>ls_level = INFO, ls_format = ''text'', ls_loggers = []\<rparr>"

definition init_logger :: "string \<Rightarrow> level option \<Rightarrow> log_state \<Rightarrow> logger \<times> log_state" where
  "init_logger name log_level s =
     (let l = (case log_level of None \<Rightarrow> ls_level s | Some l \<Rightarrow> l);
          f = (if ls_format s = ''json'' then JsonFormatter else CustomFormatter);
          lg = \<lparr>lg_name = name, lg_level = l, lg_handlers =
            [\<lparr>hd_stream = Stdout, hd_level = l, hd_formatter = f, hd_filters = [max_level_filter INFO, token_redaction_filter]\<rparr>,
             \<lparr>hd_stream = Stderr, hd_level = WARNING, hd_formatter = f, hd_filters = []\<rparr>]\<rparr>
      in (lg, s\<lparr>ls_loggers := ls_loggers s @ [lg]\<rparr>))"

definition set_log_level :: "string \<Rightarrow> log_state \<Rightarrow> log_state" where
  "set_log_level level_str s =
     (let l = dict_get LEVEL_NAME_MAP (str_lower level_str) INFO in
      s\<lparr>ls_level := l, ls_loggers := map (\<lambda>lg. lg\<lparr>lg_level := l,
          lg_handlers := map (\<lambda>h. if hd_stream h = Stdout then h\<lparr>hd_level := l\<rparr> else h) (lg_handlers lg)\<rparr>) (ls_loggers s)\<rparr>)"

definition set_log_format :: "string \<Rightarrow> log_state \<Rightarrow> log_state" where
  "set_log_format format_str s =
     (let fm = str_lower format_str; f = (if fm = ''json'' then JsonFormatter else CustomFormatter) in
      s\<lparr>ls_format := fm, ls_loggers := map (\<lambda>lg. lg\<lparr>lg_handlers := map (\<lambda>h.
          if fm = ''json'' \<or> hd_formatter h = JsonFormatter then h\<lparr>hd_formatter := f\<rparr> else h) (lg_handlers lg)\<rparr>) (ls_loggers s)\<rparr>)"

text \<open>
  Handling a record: the handlers in order, each with its own level and its filters in order up to
  the first that refuses. The filters work on the one record, so what one changes the next handler
  sees.
\<close>

fun run_filters :: "(log_record \<Rightarrow> bool \<times> log_record) list \<Rightarrow> log_record \<Rightarrow> bool \<times> log_record" where
  "run_filters [] r = (True, r)"
| "run_filters (f # fs) r = (let (ok, r') = f r in if ok then run_filters fs r' else (False, r'))"

fun handle_all :: "handler list \<Rightarrow> log_record \<Rightarrow> (stream \<times> formatter \<times> log_record) list" where
  "handle_all [] r = []"
| "handle_all (h # hs) r =
     (if lr_level r < hd_level h then handle_all hs r
      else let (ok, r') = run_filters (hd_filters h) r in
           (if ok then [(hd_stream h, hd_formatter h, r')] else []) @ handle_all hs r')"

definition log_emit :: "logger \<Rightarrow> log_record \<Rightarrow> (stream \<times> formatter \<times> log_record) list" where
  "log_emit lg r = (if lr_level r < lg_level lg then [] else handle_all (lg_handlers lg) r)"

section \<open>What a log shows\<close>

text \<open>Loggers as the module makes and changes them.\<close>

definition logger_ok :: "logger \<Rightarrow> bool" where
  "logger_ok lg \<longleftrightarrow> (\<exists>f g. lg_handlers lg =
     [\<lparr>hd_stream = Stdout, hd_level = lg_level lg, hd_formatter = f, hd_filters = [max_level_filter INFO, token_redaction_filter]\<rparr>,
      \<lparr>hd_stream = Stderr, hd_level = WARNING, hd_formatter = g, hd_filters = []\<rparr>])"

datatype log_setting = SetLevel string | SetFormat string | InitLogger string

fun log_apply :: "log_setting \<Rightarrow> log_state \<Rightarrow> log_state" where
  "log_apply (SetLevel s) st = set_log_level s st"
| "log_apply (SetFormat s) st = set_log_format s st"
| "log_apply (InitLogger n) st = snd (init_logger n None st)"

lemma log_apply_ok:
  assumes "\<forall>lg \<in> set (ls_loggers st). logger_ok lg"
  shows "\<forall>lg \<in> set (ls_loggers (log_apply e st)). logger_ok lg"
  using assms
  by (cases e) (auto simp: set_log_level_def set_log_format_def init_logger_def logger_ok_def Let_def)

lemma log_fold_ok:
  "\<forall>lg \<in> set (ls_loggers st). logger_ok lg \<Longrightarrow> \<forall>lg \<in> set (ls_loggers (fold log_apply es st)). logger_ok lg"
proof (induction es arbitrary: st)
  case (Cons e es)
  show ?case unfolding fold_Cons comp_apply by (rule Cons.IH [OF log_apply_ok [OF Cons.prems]])
qed simp

lemma log_settings_ok: "lg \<in> set (ls_loggers (fold log_apply es log_start)) \<Longrightarrow> logger_ok lg"
  by (rule bspec [OF log_fold_ok]) (simp_all add: log_start_def)

lemma log_emit_cases:
  assumes "logger_ok lg"
  shows "map (\<lambda>(s, f, r). (s, r)) (log_emit lg r) =
    (if lr_level r < lg_level lg then []
     else if lr_level r \<le> INFO then [(Stdout, r\<lparr>lr_args := redact_args (lr_args r)\<rparr>)]
     else if lr_level r < WARNING then [] else [(Stderr, r)])"
  using assms
  by (auto simp: logger_ok_def log_emit_def max_level_filter_def token_redaction_filter_def INFO_def WARNING_def)

text \<open>What may be seen of a credential: the scheme, or at most four characters.\<close>

lemma redact_value_hides:
  "\<exists>p. redact_value v = p @ ''****'' \<and>
     (p = take 4 v \<and> 4 < length v \<or> p = [] \<or> (\<exists>s. p = s @ '' '' \<and> str_lower s \<in> set AUTH_SCHEMES \<and> take (length p) v = p))"
proof -
  let ?s = "takeWhile (\<lambda>c. c \<noteq> CHR '' '') v"
  have s: "take (length (?s @ '' '')) v = ?s @ '' ''" if "CHR '' '' \<in> set v"
  proof -
    have "dropWhile (\<lambda>c. c \<noteq> CHR '' '') v \<noteq> []" using that by (auto simp: dropWhile_eq_Nil_conv)
    then obtain c r where d: "dropWhile (\<lambda>c. c \<noteq> CHR '' '') v = c # r" by (cases "dropWhile (\<lambda>c. c \<noteq> CHR '' '') v") auto
    then have "c = CHR '' ''" using hd_dropWhile [of "\<lambda>c. c \<noteq> CHR '' ''" v] by simp
    then have "v = ?s @ '' '' @ r" using d takeWhile_dropWhile_id [of "\<lambda>c. c \<noteq> CHR '' ''" v] by simp
    then show ?thesis by (metis append.assoc append_eq_conv_conj)
  qed
  show ?thesis
  proof (cases "CHR '' '' \<in> set v \<and> str_lower ?s \<in> set AUTH_SCHEMES")
    case True
    then have "redact_value v = (?s @ '' '') @ ''****''" by (simp add: redact_value_def Let_def)
    then show ?thesis using True s by blast
  next
    case False
    have "redact_value v = (if 4 < length v then take 4 v else []) @ ''****''"
      unfolding redact_value_def Let_def if_not_P [OF False] by simp
    then show ?thesis by (cases "4 < length v") auto
  qed
qed

lemma map_of_redact_headers:
  "map_of (redact_headers hs) k = map_option (\<lambda>v. if sensitive k then redact_value v else v) (map_of (rev hs) k)"
proof -
  have "map_of (fold (\<lambda>(k, v) d. dict_set d k (if sensitive k then redact_value v else v)) hs d) k =
      (case map_of (rev hs) k of Some v \<Rightarrow> Some (if sensitive k then redact_value v else v) | None \<Rightarrow> map_of d k)" for d
    by (induction hs arbitrary: d) (auto simp: map_add_def split: option.splits)
  then show ?thesis by (simp add: redact_headers_def split: option.split)
qed

section \<open>Properties\<close>



end
