(* ===== verification/Pii.thy ===== *)
theory Pii
  imports Disagg_Request
begin

text \<open>
  \<^verbatim>\<open>experimental/pii\<close>: detection of personal data in request bodies, with the analyzer on regular expressions
  and the one on Presidio.

  The expressions are matched the way \<^verbatim>\<open>re\<close> does it, by backtracking in priority order, on the text
  that \<^verbatim>\<open>json.dumps\<close> makes of a body, which is ASCII. A set of types is the list of its elements in
  the order of iteration. The Presidio engine, the text of a body and the values of numbers are
  parameters; the histograms of times and scores are not represented.
\<close>

section \<open>Types and configuration\<close>

datatype PIIType =
    EMAIL | PHONE | SSN | CREDIT_CARD | IP_ADDRESS | API_KEY | BANK_ACCOUNT | PASSPORT | DRIVERS_LICENSE | TAX_ID
  | MEDICAL_RECORD | HEALTH_INFO | MAC_ADDRESS | NAME | DOB | PASSWORD | USERNAME | ADDRESS

fun pii_value :: "PIIType \<Rightarrow> string" where
  "pii_value EMAIL = ''email''"
| "pii_value PHONE = ''phone''"
| "pii_value SSN = ''ssn''"
| "pii_value CREDIT_CARD = ''credit_card''"
| "pii_value IP_ADDRESS = ''ip_address''"
| "pii_value API_KEY = ''api_key''"
| "pii_value BANK_ACCOUNT = ''bank_account''"
| "pii_value PASSPORT = ''passport''"
| "pii_value DRIVERS_LICENSE = ''drivers_license''"
| "pii_value TAX_ID = ''tax_id''"
| "pii_value MEDICAL_RECORD = ''medical_record''"
| "pii_value HEALTH_INFO = ''health_info''"
| "pii_value MAC_ADDRESS = ''mac_address''"
| "pii_value NAME = ''name''"
| "pii_value DOB = ''date_of_birth''"
| "pii_value PASSWORD = ''password''"
| "pii_value USERNAME = ''username''"
| "pii_value ADDRESS = ''address''"

definition all_pii_types :: "PIIType list" where
  "all_pii_types = [EMAIL, PHONE, SSN, CREDIT_CARD, IP_ADDRESS, API_KEY, BANK_ACCOUNT, PASSPORT, DRIVERS_LICENSE, TAX_ID,
     MEDICAL_RECORD, HEALTH_INFO, MAC_ADDRESS, NAME, DOB, PASSWORD, USERNAME, ADDRESS]"

definition pii_type_of :: "json \<Rightarrow> PIIType result" where
  "pii_type_of j = (case find (\<lambda>t. JStr (pii_value t) = j) all_pii_types of
     None \<Rightarrow> Inl (ValueError ''is not a valid PIIType'') | Some t \<Rightarrow> Inr t)"

record PIIConfig =
  pc_enabled :: json
  pc_pii_types :: "PIIType list option"
  pc_score_threshold :: json

fun pii_types_of :: "json list \<Rightarrow> PIIType list result" where
  "pii_types_of [] = Inr []"
| "pii_types_of (j # js) = result_bind (pii_type_of j) (\<lambda>t. result_bind (pii_types_of js) (\<lambda>ts.
     Inr (if t \<in> set ts then ts else t # ts)))"

definition pii_config_from_dict :: "(string, json) dict \<Rightarrow> PIIConfig result" where
  "pii_config_from_dict d = result_bind
     (case map_of d ''pii_types'' of
        None \<Rightarrow> Inr None
      | Some j \<Rightarrow> result_bind (json_iter j) (\<lambda>js. result_bind (pii_types_of js) (\<lambda>ts. Inr (Some ts)))) (\<lambda>ts.
     Inr \<lparr>pc_enabled = dict_get d ''enabled'' (JBool True), pc_pii_types = ts,
          pc_score_threshold = dict_get d ''score_threshold'' (JFloat (1 / 2))\<rparr>)"

definition pii_config_to_dict :: "PIIConfig \<Rightarrow> (string, json) dict" where
  "pii_config_to_dict c =
     [(''enabled'', pc_enabled c),
      (''pii_types'', case pc_pii_types c of None \<Rightarrow> JNull
         | Some ts \<Rightarrow> if ts = [] then JNull else JList (map (\<lambda>t. JStr (pii_value t)) ts)),
      (''score_threshold'', pc_score_threshold c)]"

section \<open>Regular expressions with backtracking\<close>

datatype pat =
    PEps
  | PChar "char \<Rightarrow> bool"
  | PBound
  | PSeq pat pat
  | PAlt pat pat
  | PStar bool pat

text \<open>
  The end positions of the matches that start at a position, in the order in which they are tried.
  A repetition tries to go on first if it is greedy, and to stop first if it is lazy. A further
  iteration has to advance, so the rest of the text bounds their number.
\<close>

fun star_ends :: "(nat \<Rightarrow> nat list) \<Rightarrow> bool \<Rightarrow> nat \<Rightarrow> nat \<Rightarrow> nat list" where
  "star_ends f greedy 0 i = [i]"
| "star_ends f greedy (Suc n) i =
     (let more = concat (map (\<lambda>j. if i < j then star_ends f greedy n j else []) (f i))
      in if greedy then more @ [i] else i # more)"

definition is_word :: "char \<Rightarrow> bool" where
  "is_word c = (let n = (of_char c :: nat) in 48 \<le> n \<and> n \<le> 57 \<or> 65 \<le> n \<and> n \<le> 90 \<or> n = 95 \<or> 97 \<le> n \<and> n \<le> 122)"

definition word_at :: "string \<Rightarrow> nat \<Rightarrow> bool" where
  "word_at t i = (i < length t \<and> is_word (t ! i))"

definition at_boundary :: "string \<Rightarrow> nat \<Rightarrow> bool" where
  "at_boundary t i = ((0 < i \<and> word_at t (i - 1)) \<noteq> word_at t i)"

primrec match_ends :: "pat \<Rightarrow> string \<Rightarrow> nat \<Rightarrow> nat list" where
  "match_ends PEps t i = [i]"
| "match_ends (PChar P) t i = (if i < length t \<and> P (t ! i) then [Suc i] else [])"
| "match_ends PBound t i = (if at_boundary t i then [i] else [])"
| "match_ends (PSeq a b) t i = concat (map (match_ends b t) (match_ends a t i))"
| "match_ends (PAlt a b) t i = match_ends a t i @ match_ends b t i"
| "match_ends (PStar g a) t i = star_ends (match_ends a t) g (length t - i) i"

text \<open>\<^verbatim>\<open>finditer\<close>: the first match at the first position that has one, then on from its end.\<close>

function finditer :: "pat \<Rightarrow> string \<Rightarrow> nat \<Rightarrow> (nat \<times> nat) list" where
  "finditer p t i =
     (if length t < i then []
      else case match_ends p t i of
        [] \<Rightarrow> finditer p t (Suc i)
      | j # _ \<Rightarrow> (i, j) # finditer p t (max (Suc i) j))"
  by pat_completeness auto
termination by (relation "measure (\<lambda>(p, t, i). Suc (length t) - i)") auto

section \<open>The patterns\<close>

abbreviation PCh :: "char \<Rightarrow> pat" where
  "PCh c \<equiv> PChar (\<lambda>x. x = c)"

abbreviation POpt :: "pat \<Rightarrow> pat" where
  "POpt a \<equiv> PAlt a PEps"

abbreviation PPlus :: "pat \<Rightarrow> pat" where
  "PPlus a \<equiv> PSeq a (PStar True a)"

fun PTimes :: "nat \<Rightarrow> pat \<Rightarrow> pat" where
  "PTimes 0 a = PEps"
| "PTimes (Suc n) a = PSeq a (PTimes n a)"

text \<open>Up to so many times, as often as possible first.\<close>

fun PUpTo :: "nat \<Rightarrow> pat \<Rightarrow> pat" where
  "PUpTo 0 a = PEps"
| "PUpTo (Suc n) a = PAlt (PSeq a (PUpTo n a)) PEps"

fun PSeqs :: "pat list \<Rightarrow> pat" where
  "PSeqs [] = PEps"
| "PSeqs [a] = a"
| "PSeqs (a # b # as) = PSeq a (PSeqs (b # as))"

definition is_digit :: "char \<Rightarrow> bool" where
  "is_digit c = (let n = (of_char c :: nat) in 48 \<le> n \<and> n \<le> 57)"

definition is_alpha :: "char \<Rightarrow> bool" where
  "is_alpha c = (let n = (of_char c :: nat) in 65 \<le> n \<and> n \<le> 90 \<or> 97 \<le> n \<and> n \<le> 122)"

definition email_pattern :: pat where
  "email_pattern = PSeqs [PPlus (PChar (\<lambda>c. is_alpha c \<or> is_digit c \<or> c \<in> set ''._%+-'')), PCh (CHR ''@''),
     PPlus (PChar (\<lambda>c. is_alpha c \<or> is_digit c \<or> c \<in> set ''.-'')), PCh (CHR ''.''),
     PTimes 2 (PChar is_alpha), PStar True (PChar is_alpha)]"

definition phone_pattern :: pat where
  "phone_pattern = PSeqs [PBound,
     POpt (PSeqs [POpt (PCh (CHR ''+'')), PCh (CHR ''1''), POpt (PChar (\<lambda>c. c \<in> set ''-.''))]),
     PStar True (PChar is_space),
     PAlt (PSeqs [PCh (CHR ''(''), PTimes 3 (PChar is_digit), PCh (CHR '')'')]) (PTimes 3 (PChar is_digit)),
     POpt (PChar (\<lambda>c. c \<in> set ''-.'')), PTimes 3 (PChar is_digit), POpt (PChar (\<lambda>c. c \<in> set ''-.'')),
     PTimes 4 (PChar is_digit), PBound]"

definition ssn_pattern :: pat where
  "ssn_pattern = PSeqs [PBound, PTimes 3 (PChar is_digit), POpt (PChar (\<lambda>c. c \<in> set ''-.'')), PTimes 2 (PChar is_digit),
     POpt (PChar (\<lambda>c. c \<in> set ''-.'')), PTimes 4 (PChar is_digit), PBound]"

definition credit_card_pattern :: pat where
  "credit_card_pattern =
     (let d = PSeq (PChar is_digit) (PStar False (PChar (\<lambda>c. c \<in> set '' -'')))
      in PSeqs [PBound, PTimes 13 d, PUpTo 3 d, PBound])"

definition ip_address_pattern :: pat where
  "ip_address_pattern =
     (let d = PSeq (PChar is_digit) (PUpTo 2 (PChar is_digit))
      in PSeqs [PBound, PTimes 3 (PSeq d (PCh (CHR ''.''))), d, PBound])"

definition PII_PATTERNS :: "(PIIType, pat) dict" where
  "PII_PATTERNS = [(EMAIL, email_pattern), (PHONE, phone_pattern), (SSN, ssn_pattern),
     (CREDIT_CARD, credit_card_pattern), (IP_ADDRESS, ip_address_pattern)]"

section \<open>Analyzers\<close>

record PIILocation =
  pl_start :: int
  pl_end :: int
  pl_type :: PIIType
  pl_value :: string
  pl_score :: real

record PIIAnalysisResult =
  pr_has_pii :: bool
  pr_detected :: "PIIType list"
  pr_locations :: "PIILocation list option"

text \<open>The result for the found locations, and the types in the order of their first location.\<close>

definition analysis_of :: "PIILocation list \<Rightarrow> PIIAnalysisResult" where
  "analysis_of ls = \<lparr>pr_has_pii = (ls \<noteq> []), pr_detected = remdups (map pl_type ls),
     pr_locations = (if ls = [] then None else Some ls)\<rparr>"

definition text_span :: "string \<Rightarrow> nat \<Rightarrow> nat \<Rightarrow> string" where
  "text_span t i j = take (j - i) (drop i t)"

definition regex_locations :: "string \<Rightarrow> PIIType \<times> pat \<Rightarrow> PIILocation list" where
  "regex_locations text = (\<lambda>(ty, p). map (\<lambda>(i, j). \<lparr>pl_start = int i, pl_end = int j, pl_type = ty,
     pl_value = text_span text i j, pl_score = 1\<rparr>) (finditer p text 0))"

definition patterns_to_check :: "(PIIType, pat) dict \<Rightarrow> PIIType list option \<Rightarrow> (PIIType, pat) dict" where
  "patterns_to_check patterns types = (case types of
     None \<Rightarrow> patterns
   | Some ts \<Rightarrow> if ts = [] then patterns
       else [(ty, the (map_of patterns ty)). ty \<leftarrow> ts, map_of patterns ty \<noteq> None])"

definition regex_analyze ::
  "(PIIType, pat) dict \<Rightarrow> string \<Rightarrow> PIIType list option \<Rightarrow> real \<Rightarrow> PIIAnalysisResult result" where
  "regex_analyze patterns text types threshold =
     (if patterns = [] then Inl (RuntimeError ''Analyzer not initialized. Call initialize() first.'')
      else Inr (analysis_of (concat (map (regex_locations text) (patterns_to_check patterns types)))))"

text \<open>The results of the Presidio engine: an entity type, a span and a score.\<close>

record presidio_result =
  ps_entity :: string
  ps_start :: int
  ps_end :: int
  ps_score :: real

type_synonym presidio_engine = "string \<Rightarrow> string list option \<Rightarrow> real \<Rightarrow> presidio_result list result"

definition PII_TO_PRESIDIO :: "(PIIType, string) dict" where
  "PII_TO_PRESIDIO = [(EMAIL, ''EMAIL_ADDRESS''), (PHONE, ''PHONE_NUMBER''), (SSN, ''US_SSN''),
     (CREDIT_CARD, ''CREDIT_CARD''), (IP_ADDRESS, ''IP_ADDRESS''), (API_KEY, ''API_KEY'')]"

definition PRESIDIO_TO_PII :: "(string, PIIType) dict" where
  "PRESIDIO_TO_PII = map (\<lambda>(k, v). (v, k)) PII_TO_PRESIDIO"

definition presidio_entities :: "PIIType list option \<Rightarrow> string list option" where
  "presidio_entities types = (case types of
     None \<Rightarrow> None
   | Some ts \<Rightarrow> if ts = [] then None else Some [the (map_of PII_TO_PRESIDIO ty). ty \<leftarrow> ts, map_of PII_TO_PRESIDIO ty \<noteq> None])"

definition presidio_location :: "string \<Rightarrow> presidio_result \<Rightarrow> PIILocation option" where
  "presidio_location text r = map_option (\<lambda>ty. \<lparr>pl_start = ps_start r, pl_end = ps_end r, pl_type = ty,
     pl_value = text_span text (nat (ps_start r)) (nat (ps_end r)), pl_score = ps_score r\<rparr>) (map_of PRESIDIO_TO_PII (ps_entity r))"

definition presidio_analyze ::
  "presidio_engine option \<Rightarrow> string \<Rightarrow> PIIType list option \<Rightarrow> real \<Rightarrow> PIIAnalysisResult result" where
  "presidio_analyze engine text types threshold = (case engine of
     None \<Rightarrow> Inl (RuntimeError ''Analyzer not initialized. Call initialize() first.'')
   | Some e \<Rightarrow> (case e text (presidio_entities types) threshold of
       Inl _ \<Rightarrow> Inl (RuntimeError ''Error analyzing text with Presidio'')
     | Inr rs \<Rightarrow> Inr (analysis_of (List.map_filter (presidio_location text) rs))))"

text \<open>The analyzer in use; \<open>missing\<close> lists absent packages and \<open>create\<close> is the engine, if it can be built.\<close>

datatype analyzer = RegexAnalyzer "(PIIType, pat) dict" | PresidioAnalyzer "presidio_engine option"

definition regex_initialize :: "(PIIType, pat) dict" where
  "regex_initialize = PII_PATTERNS"

definition presidio_initialize :: "string list \<Rightarrow> presidio_engine result \<Rightarrow> presidio_engine option result" where
  "presidio_initialize missing create =
     (if missing \<noteq> [] then Inl (RuntimeError ''Missing required dependencies for PII detection.'')
      else case create of Inl _ \<Rightarrow> Inl (RuntimeError ''Failed to initialize Presidio analyzer'') | Inr e \<Rightarrow> Inr (Some e))"

definition create_analyzer :: "string list \<Rightarrow> presidio_engine result \<Rightarrow> string \<Rightarrow> analyzer result" where
  "create_analyzer missing create kind =
     (if kind = ''presidio'' then (case presidio_initialize missing create of
        Inl _ \<Rightarrow> Inl (RuntimeError ''Failed to create presidio analyzer'') | Inr e \<Rightarrow> Inr (PresidioAnalyzer e))
      else if kind = ''regex'' then Inr (RegexAnalyzer regex_initialize)
      else Inl (ValueError ''Unsupported analyzer type''))"

fun analyzer_shutdown :: "analyzer \<Rightarrow> analyzer" where
  "analyzer_shutdown (RegexAnalyzer ps) = RegexAnalyzer []"
| "analyzer_shutdown (PresidioAnalyzer e) = PresidioAnalyzer None"

fun analyze :: "analyzer \<Rightarrow> string \<Rightarrow> PIIType list option \<Rightarrow> real \<Rightarrow> PIIAnalysisResult result" where
  "analyze (RegexAnalyzer ps) = regex_analyze ps"
| "analyze (PresidioAnalyzer e) = presidio_analyze e"

text \<open>The global analyzer; a failed initialization keeps the one before.\<close>

definition initialize_pii_detection ::
  "string list \<Rightarrow> presidio_engine result \<Rightarrow> string \<Rightarrow> analyzer option \<Rightarrow> unit result \<times> analyzer option" where
  "initialize_pii_detection missing create kind g = (case create_analyzer missing create kind of
     Inl x \<Rightarrow> (Inl x, g) | Inr a \<Rightarrow> (Inr (), Some a))"

definition shutdown_pii_detection :: "analyzer option \<Rightarrow> analyzer option" where
  "shutdown_pii_detection g = None"

definition is_pii_detection_enabled :: "analyzer option \<Rightarrow> bool" where
  "is_pii_detection_enabled g = (g \<noteq> None)"

section \<open>The check\<close>

text \<open>Counters: detected types by path, and analysis errors.\<close>

datatype pii_metric = Detected string PIIType | AnalyzerError py_exn

text \<open>\<open>threshold\<close> is the number of the configuration. An error of the analysis counts as a detection of no type.\<close>

definition check_pii_content ::
  "(string \<Rightarrow> PIIType list option \<Rightarrow> real \<Rightarrow> PIIAnalysisResult result) \<Rightarrow> real \<Rightarrow> PIIConfig \<Rightarrow> string
     \<Rightarrow> (bool \<times> PIIType list) option \<times> pii_metric list" where
  "check_pii_content analysis threshold config text =
     (if text = [] then (None, [])
      else case analysis text (pc_pii_types config) threshold of
        Inl x \<Rightarrow> (Some (True, []), [AnalyzerError x])
      | Inr r \<Rightarrow> if pr_has_pii r then (Some (True, pr_detected r), []) else (None, []))"

text \<open>\<open>dumps\<close> is \<^verbatim>\<open>json.dumps\<close>. A body that cannot be read is not checked.\<close>

definition check_pii ::
  "(json \<Rightarrow> string) \<Rightarrow> (string \<Rightarrow> PIIType list option \<Rightarrow> real \<Rightarrow> PIIAnalysisResult result) \<Rightarrow> real \<Rightarrow> PIIConfig option
     \<Rightarrow> string \<Rightarrow> payload \<Rightarrow> response option \<times> pii_metric list" where
  "check_pii dumps analysis threshold config path body = (case config of
     None \<Rightarrow> (None, [])
   | Some c \<Rightarrow>
     if \<not> py_truthy (pc_enabled c) then (None, [])
     else case json_loads body of
       None \<Rightarrow> (None, [AnalyzerError (ValueError ''JSONDecodeError'')])
     | Some j \<Rightarrow> (case check_pii_content analysis threshold c (dumps j) of
         (None, ms) \<Rightarrow> (None, ms)
       | (Some (block, types), ms) \<Rightarrow>
         if block then (Some (JSONResponse 400 (JObj [(''error'', JObj [(''message'', JStr ''PII detected in request''),
             (''types'', JList (map (\<lambda>t. JStr (pii_value t)) types))])]) []), ms @ map (Detected path) types)
         else (None, ms)))"

section \<open>What a pattern matches\<close>

inductive spans :: "pat \<Rightarrow> string \<Rightarrow> nat \<Rightarrow> nat \<Rightarrow> bool" where
  eps: "spans PEps t i i"
| char: "i < length t \<Longrightarrow> P (t ! i) \<Longrightarrow> spans (PChar P) t i (Suc i)"
| bound: "at_boundary t i \<Longrightarrow> spans PBound t i i"
| seq: "spans a t i j \<Longrightarrow> spans b t j k \<Longrightarrow> spans (PSeq a b) t i k"
| alt_left: "spans a t i j \<Longrightarrow> spans (PAlt a b) t i j"
| alt_right: "spans b t i j \<Longrightarrow> spans (PAlt a b) t i j"
| star_end: "spans (PStar g a) t i i"
| star_more: "spans a t i j \<Longrightarrow> spans (PStar g a) t j k \<Longrightarrow> spans (PStar g a) t i k"

inductive_simps spans_simps:
  "spans PEps t i j" "spans (PChar P) t i j" "spans PBound t i j" "spans (PSeq a b) t i j" "spans (PAlt a b) t i j"

lemma spans_bounds: "spans p t i j \<Longrightarrow> i \<le> j \<and> (i \<le> length t \<longrightarrow> j \<le> length t)"
  by (induction rule: spans.induct) auto

text \<open>The ends of a repetition are what can be reached by iterations that advance.\<close>

lemma star_ends_sound: "k \<in> set (star_ends f g n i) \<Longrightarrow> (\<lambda>a b. b \<in> set (f a))\<^sup>*\<^sup>* i k"
proof (induction n arbitrary: i)
  case (Suc n)
  then consider "k = i" | j where "j \<in> set (f i)" "k \<in> set (star_ends f g n j)"
    by (auto simp: Let_def split: if_splits)
  then show ?case
    by cases (auto intro: converse_rtranclp_into_rtranclp dest: Suc.IH)
qed simp

lemma star_ends_complete:
  assumes "\<And>a b. b \<in> set (f a) \<Longrightarrow> a \<le> m \<Longrightarrow> a \<le> b \<and> b \<le> m"
    and "(\<lambda>a b. b \<in> set (f a))\<^sup>*\<^sup>* i k" "i \<le> m" "m - i \<le> n"
  shows "k \<in> set (star_ends f g n i)"
  using assms(2-4)
proof (induction arbitrary: n rule: converse_rtranclp_induct)
  case base
  show ?case by (cases n) (auto simp: Let_def)
next
  case (step i j)
  have j: "i \<le> j" "j \<le> m" using assms(1) [OF step(1,4)] by auto
  show ?case
  proof (cases "i = j")
    case True
    then show ?thesis using step by simp
  next
    case False
    then obtain n' where n: "n = Suc n'" "m - j \<le> n'" using j step(5) by (cases n) auto
    have "k \<in> set (star_ends f g n' j)" using step.IH [OF j(2) n(2)] .
    then show ?thesis using step(1) False j(1) by (auto simp: n(1) Let_def)
  qed
qed

lemma spans_star_iff: "spans (PStar g a) t i k \<longleftrightarrow> (\<lambda>x y. spans a t x y)\<^sup>*\<^sup>* i k"
proof
  have "spans p t i k \<Longrightarrow> p = PStar g a \<Longrightarrow> (\<lambda>x y. spans a t x y)\<^sup>*\<^sup>* i k" for p
    by (induction rule: spans.induct) (auto intro: converse_rtranclp_into_rtranclp)
  then show "spans (PStar g a) t i k \<Longrightarrow> (\<lambda>x y. spans a t x y)\<^sup>*\<^sup>* i k" by blast
  show "(\<lambda>x y. spans a t x y)\<^sup>*\<^sup>* i k \<Longrightarrow> spans (PStar g a) t i k"
    by (induction rule: converse_rtranclp_induct) (auto intro: spans.intros)
qed

lemma rtranclp_within:
  assumes "R\<^sup>*\<^sup>* i j" "i \<le> (m :: nat)" "\<And>x y. x \<le> m \<Longrightarrow> R x y \<Longrightarrow> S x y \<and> y \<le> m"
  shows "S\<^sup>*\<^sup>* i j"
  using assms(1,2)
proof (induction rule: converse_rtranclp_induct)
  case (step x y)
  then show ?case using assms(3) [of x y] by (auto intro: converse_rtranclp_into_rtranclp)
qed simp

lemma match_ends_spans: "i \<le> length t \<Longrightarrow> j \<in> set (match_ends p t i) \<longleftrightarrow> spans p t i j"
proof (induction p arbitrary: i j)
  case (PSeq a b)
  then show ?case using spans_bounds [of a t i] by (auto simp: spans_simps)
next
  case (PStar g a)
  let ?R = "\<lambda>x y. y \<in> set (match_ends a t x)"
  have b: "b \<in> set (match_ends a t x) \<Longrightarrow> x \<le> length t \<Longrightarrow> x \<le> b \<and> b \<le> length t" for x b
    using PStar.IH spans_bounds by blast
  have "?R\<^sup>*\<^sup>* i j \<longleftrightarrow> (spans a t)\<^sup>*\<^sup>* i j"
    using rtranclp_within [of ?R i j "length t" "spans a t"] rtranclp_within [of "spans a t" i j "length t" ?R]
      PStar.prems PStar.IH spans_bounds b by blast
  then show ?case
    using star_ends_sound [of j "match_ends a t" g "length t - i" i] PStar.prems
      star_ends_complete [of "match_ends a t" "length t" i j "length t - i" g, OF b]
    by (auto simp: spans_star_iff)
qed (auto simp: spans_simps)

declare finditer.simps [simp del]

lemma finditer_spans: "(i, j) \<in> set (finditer p t n) \<Longrightarrow> n \<le> i \<and> i \<le> length t \<and> spans p t i j"
proof (induction p t n rule: finditer.induct)
  case (1 p t n)
  show ?case
  proof (cases "length t < n")
    case True
    then show ?thesis using 1(3) by (simp add: finditer.simps [of p t n])
  next
    case False
    show ?thesis
    proof (cases "match_ends p t n")
      case Nil
      then have "(i, j) \<in> set (finditer p t (Suc n))" using 1(3) False by (simp add: finditer.simps [of p t n])
      then show ?thesis using 1(1) [OF False Nil] by simp
    next
      case (Cons k ks)
      then have "(i, j) = (n, k) \<or> (i, j) \<in> set (finditer p t (max (Suc n) k))"
        using 1(3) False by (simp add: finditer.simps [of p t n])
      moreover have "spans p t n k" using Cons False match_ends_spans [of n t k p] by simp
      ultimately show ?thesis using 1(2) [OF False Cons] False by auto
    qed
  qed
qed

lemma finditer_none:
  assumes "finditer p t n = []" "n \<le> i" "i \<le> length t"
  shows "\<not> spans p t i j"
  using assms
proof (induction p t n rule: finditer.induct)
  case (1 p t n)
  have n: "\<not> length t < n" using 1(4,5) by simp
  have m: "match_ends p t n = []"
    using 1(3) n by (cases "match_ends p t n") (simp_all add: finditer.simps [of p t n])
  then have f: "finditer p t (Suc n) = []" using 1(3) n by (simp add: finditer.simps [of p t n])
  show ?case
  proof (cases "i = n")
    case True
    then show ?thesis using match_ends_spans [of n t j p] m n by simp
  next
    case False
    then show ?thesis using 1(1) [OF n m f] 1(4,5) by simp
  qed
qed

lemma finditer_exact: "finditer p t 0 \<noteq> [] \<longleftrightarrow> (\<exists>i j. i \<le> length t \<and> spans p t i j)"
proof
  assume "finditer p t 0 \<noteq> []"
  then obtain i j where "(i, j) \<in> set (finditer p t 0)" by (cases "finditer p t 0") auto
  then show "\<exists>i j. i \<le> length t \<and> spans p t i j" using finditer_spans by blast
qed (use finditer_none in blast)

section \<open>The contract of an analyzer\<close>

text \<open>
  What the check relies on: a result says that something was found exactly if it names a type, and
  the types it names are those of its locations.
\<close>

locale pii_analysis =
  fixes analysis :: "string \<Rightarrow> PIIType list option \<Rightarrow> real \<Rightarrow> PIIAnalysisResult result"
  assumes found_iff: "analysis t ts x = Inr r \<Longrightarrow> pr_has_pii r \<longleftrightarrow> pr_detected r \<noteq> []"
    and located: "analysis t ts x = Inr r \<Longrightarrow>
      set (pr_detected r) = (case pr_locations r of None \<Rightarrow> {} | Some ls \<Rightarrow> pl_type ` set ls)"
begin

lemma blocks_iff:
  "fst (check_pii dumps analysis x (Some c) path (JsonText j)) \<noteq> None \<longleftrightarrow>
     py_truthy (pc_enabled c) \<and> dumps j \<noteq> [] \<and>
     (case analysis (dumps j) (pc_pii_types c) x of Inl _ \<Rightarrow> True | Inr r \<Rightarrow> pr_locations r \<noteq> None \<and> pr_locations r \<noteq> Some [])"
proof (cases "analysis (dumps j) (pc_pii_types c) x")
  case (Inl e)
  then show ?thesis by (simp add: check_pii_def check_pii_content_def)
next
  case (Inr r)
  then show ?thesis
    using found_iff [OF Inr] located [OF Inr]
    by (cases "pr_locations r") (auto simp: check_pii_def check_pii_content_def)
qed

lemma counted_types:
  assumes "analysis (dumps j) (pc_pii_types c) x = Inr r" "py_truthy (pc_enabled c)" "dumps j \<noteq> []"
  shows "snd (check_pii dumps analysis x (Some c) path (JsonText j)) = map (Detected path) (pr_detected r)"
  using assms found_iff [OF assms(1)] by (auto simp: check_pii_def check_pii_content_def)

end

lemma analysis_of_simps [simp]:
  "pr_has_pii (analysis_of ls) \<longleftrightarrow> ls \<noteq> []" "set (pr_detected (analysis_of ls)) = pl_type ` set ls"
  "pr_detected (analysis_of ls) = [] \<longleftrightarrow> ls = []" "pr_locations (analysis_of ls) = (if ls = [] then None else Some ls)"
  by (auto simp: analysis_of_def)

lemma analysis_of_located:
  "set (pr_detected (analysis_of ls)) =
     (case pr_locations (analysis_of ls) of None \<Rightarrow> {} | Some l \<Rightarrow> pl_type ` set l)"
  by simp

interpretation regex_pii: pii_analysis "regex_analyze patterns" for patterns
  by unfold_locales (auto simp: regex_analyze_def analysis_of_located simp del: analysis_of_simps(2,4) split: if_splits)

interpretation presidio_pii: pii_analysis "presidio_analyze engine" for engine
  by unfold_locales (auto simp: presidio_analyze_def split: if_splits option.splits sum.splits)

interpretation any_pii: pii_analysis "analyze a" for a
  using regex_pii.pii_analysis_axioms presidio_pii.pii_analysis_axioms by (cases a) simp_all

lemma regex_locations_none:
  "concat (map (regex_locations t) ps) \<noteq> [] \<longleftrightarrow> (\<exists>(ty, p) \<in> set ps. \<exists>i j. i \<le> length t \<and> spans p t i j)"
proof -
  have "regex_locations t (ty, p) \<noteq> [] \<longleftrightarrow> (\<exists>i j. i \<le> length t \<and> spans p t i j)" for ty p
    unfolding finditer_exact [symmetric] by (simp add: regex_locations_def)
  then show ?thesis by fastforce
qed

section \<open>Properties\<close>

text \<open>C40. The check blocks exactly the requests in which a pattern occurs: with detection enabled and the analyzer
  on regular expressions, a JSON body is refused if and only if some part of its text, anywhere in
  it, is described by a pattern of a selected type. A body that is not JSON passes unchecked.\<close>

theorem pii_check_exact:
  "(fst (check_pii dumps (analyze (RegexAnalyzer regex_initialize)) x (Some c) path (JsonText j)) \<noteq> None \<longleftrightarrow>
     py_truthy (pc_enabled c) \<and> dumps j \<noteq> [] \<and>
     (\<exists>ty p i k. (ty, p) \<in> set (patterns_to_check PII_PATTERNS (pc_pii_types c)) \<and>
        i \<le> length (dumps j) \<and> spans p (dumps j) i k)) \<and>
   fst (check_pii dumps (analyze (RegexAnalyzer regex_initialize)) x (Some c) path NotJson) = None"
proof -
  let ?ps = "patterns_to_check PII_PATTERNS (pc_pii_types c)"
  have "regex_analyze regex_initialize (dumps j) (pc_pii_types c) x = Inr (analysis_of (concat (map (regex_locations (dumps j)) ?ps)))"
    by (simp add: regex_analyze_def regex_initialize_def PII_PATTERNS_def)
  moreover have "concat (map (regex_locations (dumps j)) ?ps) \<noteq> [] \<longleftrightarrow>
      (\<exists>ty p i k. (ty, p) \<in> set ?ps \<and> i \<le> length (dumps j) \<and> spans p (dumps j) i k)"
    unfolding regex_locations_none by blast
  ultimately have "fst (check_pii dumps (analyze (RegexAnalyzer regex_initialize)) x (Some c) path (JsonText j)) \<noteq> None \<longleftrightarrow>
     py_truthy (pc_enabled c) \<and> dumps j \<noteq> [] \<and>
     (\<exists>ty p i k. (ty, p) \<in> set ?ps \<and> i \<le> length (dumps j) \<and> spans p (dumps j) i k)"
    unfolding any_pii.blocks_iff by (auto simp del: map_concat concat_eq_Nil_conv)
  then show ?thesis by (simp add: check_pii_def)
qed

text \<open>Selecting only types without a pattern switches detection off.\<close>

lemma unsupported_types_never_block:
  "patterns_to_check PII_PATTERNS (Some [PASSWORD, API_KEY]) = []"
  by (simp add: patterns_to_check_def PII_PATTERNS_def)

text \<open>A text with an address is refused, for example, and a configuration with a name that is no type raises.\<close>

lemma email_detected:
  "finditer email_pattern ''mail bob@example.org now'' 0 = [(5, 20)]"
  "\<not> is_ok (pii_config_from_dict [(''pii_types'', JList [JStr ''iban''])])"
  by code_simp+

end
