(* ===== verification/Spec2Isabelle.thy ===== *)
theory Spec2Isabelle
  imports Main_Router Metrics Hooks Logging Pii
begin

text \<open>
  A model of the request router of the vLLM production stack, \<^verbatim>\<open>src/src/vllm_router\<close>, and its correctness.

  The router is an HTTP proxy in front of inference engines. Service discovery keeps the list of the engines and the models
  they serve. A request is checked, its model is resolved to candidate engines, a routing logic picks one, and the
  proxy streams the answer, retrying other engines when one cannot be reached. A monitor counts the attempts in each stage per engine, a
  scraper reads the engines' own statistics, and both feed the routing logics. A watcher replaces discovery and routing
  when the configuration file changes. Around this stand external providers, uploads, engine control, files and batches, and
  the experimental features.

  \<^bold>\<open>Conventions\<close> (theory \<open>Prelude\<close>). A dictionary is an association list in insertion order, an exception the left
  summand of a result, a float a real number, a request or answer body what \<^verbatim>\<open>json.loads\<close> makes of it. A handler is a function from
  the state to a reply and a state. What comes from outside (clock readings, fresh identifiers, answers of engines, of the
  cluster and of the operating system) is an argument. Third-party code is a parameter, with what is relied on as a named hypothesis: the hash ring
  (\<open>ring_laws\<close>), the choice among equals (\<open>pick_laws\<close>), and the FAISS index (\<open>flat_ip\<close>). A lock makes the method it guards one step.

  \<^bold>\<open>Components.\<close>
  \<^item> \<open>Request_Stats\<close> (\<^verbatim>\<open>stats/request_stats.py\<close>): the sliding windows, the life cycle of an attempt and the stage counters. The
    contract of the life cycle is the locale \<open>request_lifecycle\<close>, interpreted for the monitor; the counters count the live attempts in every reachable state,
    finalization happens once, arrivals are conserved, and a snapshot reports the recent history.
  \<^item> \<open>Endpoints\<close>, \<open>Service_Discovery\<close> (\<^verbatim>\<open>service_discovery.py\<close>): model and endpoint records; static, pod, service and
    external-only discovery with their watch and health steps. The registry of pods refines the last verdict of each pod.
  \<^item> \<open>Hash_Trie\<close> (\<^verbatim>\<open>prefix/hashtrie.py\<close>), \<open>Routing_Base\<close>, \<open>Routing_KV\<close>, \<open>Routing_Policies\<close>, \<open>Routers\<close>
    (\<^verbatim>\<open>routers/routing_logic.py\<close>): the trie and the routing logics with their registry. Every routing logic picks an offered endpoint
    and keeps its invariant, which is the contract the failover loop uses; each has its own optimality or fairness property.
  \<^item> \<open>Backend\<close>, \<open>Attempt\<close>, \<open>Failover\<close>, \<open>General_Request\<close> (\<^verbatim>\<open>aiohttp_client.py\<close>,
    \<^verbatim>\<open>services/request_service/request.py\<close>): timeouts, headers and error replies; one attempt, cut at its first yield; the retry loop, which runs on
    the number of attempts that are left; and the handler. Attempts are retired however they end, no engine is tried twice, streams come from
    engines that serve the model, and 404 means that the model was never offered.
  \<^item> \<open>Disagg_Request\<close>, \<open>Multipart_Request\<close> (\<^verbatim>\<open>request.py\<close>): prefill and decode on separate engines; uploads, and
    sleep and wake-up of engines.
  \<^item> \<open>External_Providers\<close> (\<^verbatim>\<open>external_providers/\<close>): the providers, their index of models, and the bounded retries.
  \<^item> \<open>Url_Syntax\<close> (\<^verbatim>\<open>utils.py\<close>), \<open>Config\<close> (\<^verbatim>\<open>parsers/\<close>, \<^verbatim>\<open>dynamic_config.py\<close>), \<open>App\<close>
    (\<^verbatim>\<open>app.py\<close>, \<^verbatim>\<open>dynamic_config.py\<close>): option syntax, all options, configuration files, startup and reconfiguration. The watcher converges to the file, and a
    failed reload is described exactly.
  \<^item> \<open>Engine_Stats\<close> (\<^verbatim>\<open>stats/engine_stats.py\<close>), \<open>Metrics\<close> (\<^verbatim>\<open>routers/metrics_router.py\<close>,
    \<^verbatim>\<open>stats/log_stats.py\<close>), \<open>Logging\<close> (\<^verbatim>\<open>log.py\<close>): what the router reads and reports.
  \<^item> \<open>Files_Batches\<close> (\<^verbatim>\<open>services/files_service\<close>, \<^verbatim>\<open>services/batch_service\<close> and their routers): file storage and the
    queue of batches, whose processor interleaves with the other operations.
  \<^item> \<open>Feature_Gates\<close>, \<open>Semantic_Cache\<close>, \<open>Pii\<close>, \<open>Hooks\<close> (\<^verbatim>\<open>experimental/\<close>, \<^verbatim>\<open>rewriter.py\<close>): switches, the
    cache over a vector index with its files (contract \<open>vector_db\<close>), the detection of personal data with a backtracking matcher that is shown to
    find exactly what the patterns describe (contract \<open>pii_analysis\<close>), the rewriter, the HTTP client and the tracing state.
  \<^item> \<open>Main_Router\<close> (\<^verbatim>\<open>routers/main_router.py\<close>, \<^verbatim>\<open>protocols.py\<close>): the table of routes and the handlers that
    answer themselves.

  This theory composes them: \<open>serving\<close> generates the states of a running router by startup, requests to any route, stream
  ends, reconfiguration, cluster events and scrapes in any order, and the load the router acts on is shown to be the number of open streams throughout.

  \<^bold>\<open>Bounds.\<close> Loops are structural recursions, or recursions with a measure (\<open>split_loop\<close> on the rest of the text,
  \<open>finditer\<close> on the distance to its end). The failover loop and the retries of a provider run on the number of attempts left,
  which is the bound the code computes. No fuel is used elsewhere.

  \<^bold>\<open>Not modelled.\<close> Threads and event loops as such (their effects are steps), the session objects of HTTP clients, Prometheus exposition, OpenTelemetry export, the
  text layout of log records, splitting the words of a command line into options, the limit on open files. The sleep labels of services,
  since no endpoint of that discovery carries the name that is needed. The abstract base classes have no behaviour. \<^verbatim>\<open>experimental/semantic_cache.py\<close> cannot be
  imported: a package of the same name hides it. The operator, the benchmarks and the charts are programs of their own.
\<close>

section \<open>The router at work\<close>

text \<open>
  The running router with the streams it has handed to clients, each with its handle and its backend.
\<close>

definition map_proxy :: "(('r, 't) proxy \<Rightarrow> ('r, 't) proxy) \<Rightarrow> ('r, 't, 'x) server \<Rightarrow> ('r, 't, 'x) server" where
  "map_proxy f sv = sv\<lparr>sv_app := (sv_app sv)\<lparr>ap_proxy := f (ap_proxy (sv_app sv))\<rparr>\<rparr>"

definition map_monitor :: "(RequestStatsMonitor \<Rightarrow> RequestStatsMonitor) \<Rightarrow> ('r, 't, 'x) server \<Rightarrow> ('r, 't, 'x) server" where
  "map_monitor f = map_proxy (\<lambda>px. px\<lparr>px_monitor := f (px_monitor px)\<rparr>)"

abbreviation monitor_of :: "('r, 't, 'x) server \<Rightarrow> RequestStatsMonitor" where
  "monitor_of sv \<equiv> px_monitor (ap_proxy (sv_app sv))"

fun opened :: "client_reply \<Rightarrow> (RequestHandle \<times> url) list" where
  "opened (ReplyStream st hs media u h str) = [(h, u)]"
| "opened _ = []"

text \<open>What the cluster and the health checks do to the discovery.\<close>

inductive discovery_step :: "discovery \<Rightarrow> discovery \<Rightarrow> bool" where
  pod_event: "discovery_step (PodIPD s) (PodIPD (pod_watch uuid5 s ev))"
| service_event: "discovery_step (ServiceNameD s) (ServiceNameD (service_watch uuid5 s ev))"
| health_check: "discovery_step (StaticD s) (StaticD (check_model_health md5 s post))"

text \<open>
  Everything that happens to a running router, in any order: startup, a request to any route, the first
  chunk of a stream, the end of a stream (in every way it can end), a look at the configuration file, a change in the
  cluster, a round of the engine scraper, a scrape of the metrics, and an answer that is offered to the semantic cache.
\<close>

inductive serving :: "'r ring_ops \<Rightarrow> (url set \<Rightarrow> url) \<Rightarrow> ('r, 't, 'x) server \<Rightarrow> (RequestHandle \<times> url) list \<Rightarrow> bool"
  for R :: "'r ring_ops" and pick :: "url set \<Rightarrow> url" where
  boot: "router_main R env cli = Inr a \<Longrightarrow> lifespan_enter env fetch a = Inr a' \<Longrightarrow>
    serving R pick \<lparr>sv_app = a', sv_semantic = s, sv_labels = labels\<rparr> []"
| request: "serving R pick sv streams \<Longrightarrow> pe_pick (si_env si) = pick \<Longrightarrow> handle_request R si cr sv = (reply, sv') \<Longrightarrow>
    serving R pick sv' (opened reply @ streams)"
| first_chunk: "serving R pick sv streams \<Longrightarrow> h \<in> fst ` set streams \<Longrightarrow>
    serving R pick (map_monitor (\<lambda>m. on_request_response m h t) sv) streams"
| stream_end: "serving R pick sv streams \<Longrightarrow> h \<in> fst ` set streams \<Longrightarrow>
    serving R pick (map_monitor (\<lambda>m. snd (attempt_rest fmt_g timeout m h is_streaming b closes)) sv) (dict_pop streams h)"
| upload_end: "serving R pick sv streams \<Longrightarrow> h \<in> fst ` set streams \<Longrightarrow>
    serving R pick (map_monitor (\<lambda>m. snd (mp_stream m h cs failure ts)) sv) (dict_pop streams h)"
| config_tick: "serving R pick sv streams \<Longrightarrow> serving R pick (sv\<lparr>sv_app := watch_tick R env (sv_app sv)\<rparr>) streams"
| cluster: "serving R pick sv streams \<Longrightarrow> px_discovery (ap_proxy (sv_app sv)) = Some d \<Longrightarrow> discovery_step d d' \<Longrightarrow>
    serving R pick (map_proxy (\<lambda>px. px\<lparr>px_discovery := Some d'\<rparr>) sv) streams"
| engine_scrape: "serving R pick sv streams \<Longrightarrow>
    serving R pick (sv\<lparr>sv_app := (sv_app sv)\<lparr>ap_scraper := scrape_metrics fetch_page eps (ap_scraper (sv_app sv))\<rparr>\<rparr>) streams"
| metrics_scrape: "serving R pick sv streams \<Longrightarrow> metrics md5 now load (sv_app sv) G = (r, load', G', a') \<Longrightarrow>
    serving R pick (sv\<lparr>sv_app := a'\<rparr>) streams"
| log_round: "serving R pick sv streams \<Longrightarrow> log_stats_round md5 js str fixed now (sv_app sv) G = (res, G', a') \<Longrightarrow>
    serving R pick (sv\<lparr>sv_app := a'\<rparr>) streams"
| cache_answer: "serving R pick sv streams \<Longrightarrow>
    serving R pick (sv\<lparr>sv_semantic := store_in_semantic_cache F f str g (sv_semantic sv) endpoint meth body chunk\<rparr>) streams"

text \<open>The accounts are right: the live attempts are the open streams.\<close>

definition books_balance :: "'r ring_ops \<Rightarrow> (url set \<Rightarrow> url) \<Rightarrow> ('r, 't, 'x) server \<Rightarrow> (RequestHandle \<times> url) list \<Rightarrow> bool" where
  "books_balance R pick sv streams \<longleftrightarrow>
     router_ok R pick (ri_router (px_router (ap_proxy (sv_app sv)))) \<and> rsm_inv (monitor_of sv) \<and> distinct (keys streams) \<and>
     (\<forall>h. map_option snd (rsm_live (monitor_of sv) h) = map_of streams h)"

lemma map_proxy_simps [simp]:
  "ap_proxy (sv_app (map_proxy f sv)) = f (ap_proxy (sv_app sv))"
  "ap_proxy (sv_app (map_monitor g sv)) = (ap_proxy (sv_app sv))\<lparr>px_monitor := g (monitor_of sv)\<rparr>"
  by (simp_all add: map_proxy_def map_monitor_def)

lemma books_request:
  fixes sv :: "('r, 't, 'x) server"
  assumes "books_balance R (pe_pick (si_env si)) sv streams" "handle_request R si cr sv = (reply, sv')"
  shows "books_balance R (pe_pick (si_env si)) sv' (opened reply @ streams)"
proof -
  have "accounted_reply R (si_env si) (ap_proxy (sv_app sv)) reply (ap_proxy (sv_app sv'))"
    using assms by (intro handle_request_accounted) (auto simp: books_balance_def proxy_ok_def)
  moreover have "map_of streams h = None" if "rsm_live (monitor_of sv) h = None" for h
    using assms(1) that unfolding books_balance_def by (metis option.map(1))
  ultimately show ?thesis
    using assms(1)
    by (cases reply) (auto simp: accounted_reply_def proxy_ok_def books_balance_def map_of_eq_None_iff [symmetric])
qed

text \<open>A change of the monitor that keeps its invariant and retires one handle, or moves none.\<close>

lemma books_retire:
  assumes "books_balance R pick sv streams" "rsm_inv (f (monitor_of sv))"
    and "rsm_live (f (monitor_of sv)) = (rsm_live (monitor_of sv))(h := None)"
  shows "books_balance R pick (map_monitor f sv) (dict_pop streams h)"
  using assms by (auto simp: books_balance_def distinct_keys_pop)

lemma books_monitor:
  assumes "books_balance R pick sv streams" "rsm_inv m'" "\<forall>h. map_option snd (rsm_live m' h) = map_option snd (rsm_live (monitor_of sv) h)"
    and "px_monitor (ap_proxy (sv_app sv')) = m'" "px_router (ap_proxy (sv_app sv')) = px_router (ap_proxy (sv_app sv))"
  shows "books_balance R pick sv' streams"
  using assms by (simp add: books_balance_def)

lemma token_keeps_url:
  "rsm_inv m \<Longrightarrow> map_option snd (rsm_live (on_request_response m h t) h') = map_option snd (rsm_live m h')"
  by (cases "rsm_live m h") (auto simp: monitor.token_live split: stage.split)

lemma snapshot_live: "rsm_live (snd (get_request_stats m now)) = rsm_live m"
  using get_request_stats_frame [of m now] by (auto simp: rsm_live_def)

lemma metrics_frame:
  fixes a :: "('r, 't) app_state"
  assumes "metrics md5 now load a G = (r, load', G', a')"
  shows "ap_proxy a' = (ap_proxy a)\<lparr>px_monitor := snd (get_request_stats (px_monitor (ap_proxy a)) now)\<rparr>"
  using assms by (auto simp: metrics_def split: prod.splits sum.splits)

lemma log_round_frame:
  fixes a :: "('r, 't) app_state"
  assumes "log_stats_round md5 js str fixed now a G = (r, G', a')"
  shows "ap_proxy a' = ap_proxy a \<or> ap_proxy a' = (ap_proxy a)\<lparr>px_monitor := snd (get_request_stats (px_monitor (ap_proxy a)) now)\<rparr>"
  using assms by (auto simp: log_stats_round_def split: prod.splits sum.splits)

lemma lifespan_frame:
  fixes a :: "('r, 't) app_state"
  assumes "lifespan_enter env fetch a = Inr a'"
  shows "px_router (ap_proxy a') = px_router (ap_proxy a)" "px_monitor (ap_proxy a') = px_monitor (ap_proxy a)"
  using assms
  by (auto simp: lifespan_enter_def open_clients_def case_prod_unfold split: option.splits discovery.splits if_splits sum.splits)
    (metis old.unit.exhaust sum.exhaust)+

lemma mp_stream_inv: "rsm_inv m \<Longrightarrow> rsm_inv (snd (mp_stream m h cs failure t))"
  by (simp add: mp_stream_def terminal_hook_finalize monitor.finish_invar monitor.token_invar)

lemma serving_balanced:
  assumes "serving R pick sv streams" "ring_laws R" "pick_laws pick"
  shows "books_balance R pick sv streams"
  using assms(1)
proof induction
  case (boot env cli a fetch a' s labels)
  then obtain ns where "initialize_all R env ns = Inr a" by (auto simp: router_main_def)
  from initialize_all_sound [OF this assms(2,3)] show ?case
    using lifespan_frame [OF boot(2)] by (simp add: books_balance_def)
next
  case (request sv streams si cr reply sv')
  then show ?case using books_request by blast
next
  case (first_chunk sv streams h t)
  then show ?case
    by (intro books_monitor [OF first_chunk(3)]) (auto simp: books_balance_def monitor.token_invar token_keeps_url)
next
  case (stream_end sv streams h fmt_g timeout is_streaming b closes)
  then show ?case
    using attempt_rest_state [OF _ prod.collapse [symmetric]] by (intro books_retire) (auto simp: books_balance_def)
next
  case (upload_end sv streams h cs failure ts)
  then show ?case
    using mp_stream_inv mp_stream_retires by (intro books_retire) (auto simp: books_balance_def)
next
  case (config_tick sv streams env)
  then show ?case using watch_tick_sound [OF assms(2,3), of "sv_app sv" env] by (auto simp: books_balance_def)
next
  case (metrics_scrape sv streams md5 now load G r load' G' a')
  then show ?case
    using metrics_frame [OF metrics_scrape(2)]
    by (intro books_monitor [OF metrics_scrape(3)]) (auto simp: books_balance_def get_request_stats_inv snapshot_live)
next
  case (log_round sv streams md5 js str fixed now G res G' a')
  then show ?case
    using log_round_frame [OF log_round(2)]
    by (intro books_monitor [OF log_round(3)]) (auto simp: books_balance_def get_request_stats_inv snapshot_live)
qed (simp_all add: books_balance_def)

text \<open>The counters of an engine count the entries of its attempts, and these are the open streams.\<close>

lemma dict_count_card:
  assumes "distinct (keys d)"
  shows "dict_count P d = card {k. \<exists>v. map_of d k = Some v \<and> P k v}"
proof -
  have "{k. \<exists>v. map_of d k = Some v \<and> P k v} = fst ` set (filter (\<lambda>(k, v). P k v) d)"
    using assms by (force simp: map_of_eq_Some_iff)
  moreover have "distinct (keys (filter (\<lambda>(k, v). P k v) d))"
    using assms by (induction d) auto
  then have "card (fst ` set (filter (\<lambda>(k, v). P k v) d)) = dict_count P d"
    unfolding dict_count_def using distinct_card by fastforce
  ultimately show ?thesis by simp
qed

lemma in_flight_both:
  "in_flight d Prefill u + in_flight d Decoding u = dict_count (\<lambda>h r. ar_engine_url r = u) d"
proof (induction d)
  case (Cons p d)
  obtain h r where p: "p = (h, r)" by fastforce
  then show ?case using Cons.IH by (cases "ar_stage r") (simp_all add: in_flight_def dict_count_def)
qed (simp add: in_flight_def)

lemma in_flight_streams:
  assumes "books_balance R pick sv streams"
  shows "in_flight (active_requests (monitor_of sv)) Prefill u + in_flight (active_requests (monitor_of sv)) Decoding u =
    length (filter (\<lambda>(h, v). v = u) streams)"
proof -
  let ?d = "active_requests (monitor_of sv)"
  have d: "distinct (keys ?d)" "distinct (keys streams)"
    using assms by (auto simp: books_balance_def rsm_inv_def)
  have "in_flight ?d Prefill u + in_flight ?d Decoding u = dict_count (\<lambda>h r. ar_engine_url r = u) ?d"
    by (rule in_flight_both)
  also have "\<dots> = dict_count (\<lambda>h v. v = u) streams"
  proof -
    have "map_of streams h = map_option ar_engine_url (map_of ?d h)" for h
      using assms by (simp add: books_balance_def rsm_live_def option.map_comp comp_def)
    then have "(\<exists>r. map_of ?d h = Some r \<and> ar_engine_url r = u) \<longleftrightarrow> (\<exists>v. map_of streams h = Some v \<and> v = u)" for h
      by simp
    then show ?thesis using d by (simp add: dict_count_card)
  qed
  finally show ?thesis by (simp add: dict_count_def)
qed

section \<open>Properties of the whole router\<close>


definition site_example :: "(unit, vec list) site" where
  "site_example = \<lparr>si_env = env_example, si_index = list_index 2, si_semantic = False, si_latency = 0, si_bytes = (\<lambda>j. 0),
     si_to_int = json_int_only, si_parse_float = (\<lambda>s. None), si_show_float = (\<lambda>r. []),
     si_upload = (\<lambda>up u. \<lparr>mc_post = Inl MOther, mc_time = real\<rparr>), si_form_post = (\<lambda>u. \<lparr>mc_post = Inl MOther, mc_time = real\<rparr>),
     si_api_key = None, si_api_ok = True, si_send = (\<lambda>c. RequestFailed), si_version = ''1'', si_watching = True, si_scraping = True\<rparr>"

definition chat_example :: client_request where
  "chat_example = \<lparr>cr_method = ''POST'', cr_path = ''/v1/chat/completions'', cr_request = request_example ''m'',
     cr_params = [], cr_form = None\<rparr>"

definition booted :: "(string list, unit, vec list) server option" where
  "booted = (case router_main first_ring startup_example cli_example of
     Inl _ \<Rightarrow> None
   | Inr a \<Rightarrow> (case lifespan_enter startup_example (\<lambda>p. []) a of
       Inl _ \<Rightarrow> None
     | Inr a' \<Rightarrow> Some \<lparr>sv_app = a', sv_semantic = semantic_init, sv_labels = []\<rparr>))"

lemma chat_example_streams:
  "case booted of None \<Rightarrow> False | Some sv \<Rightarrow> is_stream (fst (handle_request first_ring site_example chat_example sv))"
  by code_simp


end
